theory Spec2Isabelle
  imports Complex_Main "HOL-Library.Sublist"
begin

section \<open>Data model of the exporter\<close>

text \<open>
  The embedding follows \<^verbatim>\<open>exporters/openvpn_exporter.go\<close>. A Prometheus
  descriptor is kept as the data it is built from; a constant metric is the
  quadruple handed to \<^verbatim>\<open>prometheus.MustNewConstMetric\<close>. The client
  library's own validation of a metric (descriptor errors, UTF-8 labels) is
  outside of the program and is not part of the embedding.
\<close>

datatype ValueType = CounterValue | GaugeValue

record prom_Desc =
  fqName :: string
  helpText :: string
  variableLabels :: "string list"

record OpenvpnServerHeaderField =
  Column :: string
  Desc :: prom_Desc
  ValueType :: ValueType

record OpenvpnServerHeader =
  LabelColumns :: "string list"
  Metrics :: "OpenvpnServerHeaderField list"

record OpenVPNExporter =
  statusPaths :: "string list"
  openvpnUpDesc :: prom_Desc
  openvpnStatusUpdateTimeDesc :: prom_Desc
  openvpnConnectedClientsDesc :: prom_Desc
  openvpnClientDescs :: "string \<rightharpoonup> prom_Desc"
  openvpnServerHeaders :: "string \<rightharpoonup> OpenvpnServerHeader"

text \<open>A value sent on the channel \<^verbatim>\<open>ch\<close>; \<open>'f\<close> stands for \<^verbatim>\<open>float64\<close>.\<close>

record 'f metric =
  m_desc :: prom_Desc
  m_valueType :: ValueType
  m_value :: 'f
  m_labelValues :: "string list"

definition MustNewConstMetric ::
  "prom_Desc \<Rightarrow> ValueType \<Rightarrow> 'f \<Rightarrow> string list \<Rightarrow> 'f metric" where
  "MustNewConstMetric d vt v labelValues =
     \<lparr>m_desc = d, m_valueType = vt, m_value = v, m_labelValues = labelValues\<rparr>"

text \<open>
  The error values the scan returns. The first four are the
  \<^verbatim>\<open>fmt.Errorf\<close> messages of the source, with their argument;
  \<open>NumError\<close> is the error of \<^verbatim>\<open>strconv.ParseFloat\<close> and
  \<open>ParseError\<close> the one of \<^verbatim>\<open>time.Parse\<close>, each with the text that
  failed to parse; \<open>ScannerError\<close> is whatever \<^verbatim>\<open>scanner.Err()\<close>
  reports; \<open>RuntimePanic\<close> is an index out of range.
\<close>

datatype error =
    UnexpectedFileContents string
  | ShouldBePrecededByHeaders string
  | DifferentNumberOfColumns string
  | UnsupportedKey string
  | NumError string
  | ParseError string
  | ScannerError string
  | RuntimePanic string

text \<open>
  The functions of the Go standard library that the program calls are
  parameters of the embedding, so that every theorem holds for whatever
  they compute:
  \<^item> \<open>ParseFloat s\<close> is \<^verbatim>\<open>strconv.ParseFloat(s, 64)\<close>, \<open>None\<close> when it
    returns an error;
  \<^item> \<open>float64 n\<close> is the conversion of an integer to \<^verbatim>\<open>float64\<close>;
  \<^item> \<open>time_Parse layout v\<close> is \<^verbatim>\<open>time.Parse(layout, v)\<close> followed by
    \<^verbatim>\<open>Unix()\<close>, and \<open>time_ParseInLocal\<close> the same through
    \<^verbatim>\<open>time.ParseInLocation\<close> with the location \<^verbatim>\<open>"Local"\<close>;
  \<^item> \<open>TrimSpace\<close> is \<^verbatim>\<open>strings.TrimSpace\<close>;
  \<^item> \<open>ScanLines file\<close> is what a \<^verbatim>\<open>bufio.Scanner\<close> splitting with
    \<^verbatim>\<open>bufio.ScanLines\<close> yields over the bytes \<open>file\<close>: the tokens of
    the successive \<^verbatim>\<open>Scan()\<close> calls and the final \<^verbatim>\<open>Err()\<close>.
\<close>

record 'f golib =
  ParseFloat :: "string \<Rightarrow> 'f option"
  float64 :: "int \<Rightarrow> 'f"
  time_Parse :: "string \<Rightarrow> string \<Rightarrow> int option"
  time_ParseInLocal :: "string \<Rightarrow> string \<Rightarrow> int option"
  TrimSpace :: "string \<Rightarrow> string"
  ScanLines :: "string \<Rightarrow> string list \<times> error option"

subsection \<open>Strings\<close>

text \<open>
  \<^verbatim>\<open>strings.Split(s, sep)\<close>: the pieces of \<open>s\<close> between the leftmost,
  non-overlapping occurrences of \<open>sep\<close>. \<open>split_aux sep k acc s\<close> walks
  \<open>s\<close>; \<open>k\<close> counts the bytes of a separator still to be skipped and
  \<open>acc\<close> is the current piece, reversed. An empty separator explodes the
  string (into bytes here; the program never passes one).
\<close>

fun split_aux :: "string \<Rightarrow> nat \<Rightarrow> string \<Rightarrow> string \<Rightarrow> string list" where
  "split_aux sep k acc [] = [rev acc]"
| "split_aux sep k acc (c # cs) =
     (if 0 < k then split_aux sep (k - 1) acc cs
      else if prefix sep (c # cs) then rev acc # split_aux sep (length sep - 1) [] cs
      else split_aux sep 0 (c # acc) cs)"

definition strings_Split :: "string \<Rightarrow> string \<Rightarrow> string list" where
  "strings_Split s sep = (if sep = [] then map (\<lambda>c. [c]) s else split_aux sep 0 [] s)"

text \<open>\<^verbatim>\<open>strings.Contains(s, substr)\<close> and \<^verbatim>\<open>strings.HasPrefix\<close>.\<close>

fun strings_Contains :: "string \<Rightarrow> string \<Rightarrow> bool" where
  "strings_Contains [] substr = (substr = [])"
| "strings_Contains (c # cs) substr = (prefix substr (c # cs) \<or> strings_Contains cs substr)"

definition HasPrefix :: "string \<Rightarrow> string \<Rightarrow> bool" where
  "HasPrefix s p = prefix p s"

text \<open>
  \<^verbatim>\<open>prometheus.BuildFQName\<close> joins the non-empty parts with an
  underscore.
\<close>

definition BuildFQName :: "string \<Rightarrow> string \<Rightarrow> string \<Rightarrow> string" where
  "BuildFQName namespace subsystem name =
     (if name = [] then []
      else if namespace \<noteq> [] \<and> subsystem \<noteq> [] then namespace @ ''_'' @ subsystem @ ''_'' @ name
      else if namespace \<noteq> [] then namespace @ ''_'' @ name
      else if subsystem \<noteq> [] then subsystem @ ''_'' @ name
      else name)"

definition NewDesc :: "string \<Rightarrow> string \<Rightarrow> string list \<Rightarrow> prom_Desc" where
  "NewDesc name hlp labels = \<lparr>fqName = name, helpText = hlp, variableLabels = labels\<rparr>"

subsection \<open>The exporter's registry\<close>

definition clientLabelColumns :: "bool \<Rightarrow> string list" where
  "clientLabelColumns ignoreIndividuals =
     (if ignoreIndividuals then [''Common Name'']
      else [''Common Name'', ''Connected Since'', ''Real Address'', ''Virtual Address'',
            ''Common Name''])"

definition clientLabels :: "bool \<Rightarrow> string list" where
  "clientLabels ignoreIndividuals =
     (if ignoreIndividuals then [''status_path'', ''common_name'']
      else [''status_path'', ''common_name'', ''connection_time'', ''real_address'',
            ''virtual_address'', ''username''])"

definition routingLabelColumns :: "bool \<Rightarrow> string list" where
  "routingLabelColumns ignoreIndividuals =
     (if ignoreIndividuals then [''Common Name'']
      else [''Common Name'', ''Real Address'', ''Virtual Address''])"

definition routingLabels :: "bool \<Rightarrow> string list" where
  "routingLabels ignoreIndividuals =
     (if ignoreIndividuals then [''status_path'', ''common_name'']
      else [''status_path'', ''common_name'', ''real_address'', ''virtual_address''])"

definition receivedField :: "bool \<Rightarrow> OpenvpnServerHeaderField" where
  "receivedField ignoreIndividuals =
     \<lparr>Column = ''Bytes Received'',
      Desc = NewDesc (BuildFQName ''openvpn'' ''server'' ''client_received_bytes_total'')
        ''Amount of data received over a connection on the VPN server, in bytes.''
        (clientLabels ignoreIndividuals),
      ValueType = CounterValue\<rparr>"

definition sentField :: "bool \<Rightarrow> OpenvpnServerHeaderField" where
  "sentField ignoreIndividuals =
     \<lparr>Column = ''Bytes Sent'',
      Desc = NewDesc (BuildFQName ''openvpn'' ''server'' ''client_sent_bytes_total'')
        ''Amount of data sent over a connection on the VPN server, in bytes.''
        (clientLabels ignoreIndividuals),
      ValueType = CounterValue\<rparr>"

definition lastRefField :: "bool \<Rightarrow> OpenvpnServerHeaderField" where
  "lastRefField ignoreIndividuals =
     \<lparr>Column = ''Last Ref (time_t)'',
      Desc = NewDesc (BuildFQName ''openvpn'' ''server'' ''route_last_reference_time_seconds'')
        ''Time at which a route was last referenced, in seconds.''
        (routingLabels ignoreIndividuals),
      ValueType = GaugeValue\<rparr>"

definition clientListHeader :: "bool \<Rightarrow> OpenvpnServerHeader" where
  "clientListHeader ignoreIndividuals =
     \<lparr>LabelColumns = clientLabelColumns ignoreIndividuals,
      Metrics = [receivedField ignoreIndividuals, sentField ignoreIndividuals]\<rparr>"

definition routingTableHeader :: "bool \<Rightarrow> OpenvpnServerHeader" where
  "routingTableHeader ignoreIndividuals =
     \<lparr>LabelColumns = routingLabelColumns ignoreIndividuals,
      Metrics = [lastRefField ignoreIndividuals]\<rparr>"

definition clientDesc :: "string \<Rightarrow> string \<Rightarrow> prom_Desc" where
  "clientDesc name hlp = NewDesc (BuildFQName ''openvpn'' ''client'' name) hlp [''status_path'']"

definition NewOpenVPNExporter :: "string list \<Rightarrow> bool \<Rightarrow> OpenVPNExporter" where
  "NewOpenVPNExporter paths ignoreIndividuals =
     \<lparr>statusPaths = paths,
      openvpnUpDesc = NewDesc (BuildFQName ''openvpn'' '''' ''up'')
        ''Whether scraping OpenVPN's metrics was successful.'' [''status_path''],
      openvpnStatusUpdateTimeDesc = NewDesc (BuildFQName ''openvpn'' '''' ''status_update_time_seconds'')
        ''UNIX timestamp at which the OpenVPN statistics were updated.'' [''status_path''],
      openvpnConnectedClientsDesc = NewDesc (BuildFQName ''openvpn'' '''' ''server_connected_clients'')
        ''Number Of Connected Clients'' [''status_path''],
      openvpnClientDescs = map_of
        [(''TUN/TAP read bytes'', clientDesc ''tun_tap_read_bytes_total''
            ''Total amount of TUN/TAP traffic read, in bytes.''),
         (''TUN/TAP write bytes'', clientDesc ''tun_tap_write_bytes_total''
            ''Total amount of TUN/TAP traffic written, in bytes.''),
         (''TCP/UDP read bytes'', clientDesc ''tcp_udp_read_bytes_total''
            ''Total amount of TCP/UDP traffic read, in bytes.''),
         (''TCP/UDP write bytes'', clientDesc ''tcp_udp_write_bytes_total''
            ''Total amount of TCP/UDP traffic written, in bytes.''),
         (''Auth read bytes'', clientDesc ''auth_read_bytes_total''
            ''Total amount of authentication traffic read, in bytes.''),
         (''pre-compress bytes'', clientDesc ''pre_compress_bytes_total''
            ''Total amount of data before compression, in bytes.''),
         (''post-compress bytes'', clientDesc ''post_compress_bytes_total''
            ''Total amount of data after compression, in bytes.''),
         (''pre-decompress bytes'', clientDesc ''pre_decompress_bytes_total''
            ''Total amount of data before decompression, in bytes.''),
         (''post-decompress bytes'', clientDesc ''post_decompress_bytes_total''
            ''Total amount of data after decompression, in bytes.'')],
      openvpnServerHeaders = map_of
        [(''CLIENT_LIST'', clientListHeader ignoreIndividuals),
         (''ROUTING_TABLE'', routingTableHeader ignoreIndividuals)]\<rparr>"

subsection \<open>The dedup check\<close>

text \<open>\<^verbatim>\<open>contains\<close>: does the slice hold the string.\<close>

fun contains :: "string list \<Rightarrow> string \<Rightarrow> bool" where
  "contains [] e = False"
| "contains (a # s) e = (if a = e then True else contains s e)"

text \<open>
  \<^verbatim>\<open>subslice\<close>: false when \<open>sub\<close> is longer than \<open>main\<close>; otherwise the
  loop over \<open>sub\<close> returns false at the first element that \<open>main\<close> does
  not contain, and true when it runs out.
\<close>

fun subslice_loop :: "string list \<Rightarrow> string list \<Rightarrow> bool" where
  "subslice_loop [] main = True"
| "subslice_loop (s # sub) main = (if \<not> contains main s then False else subslice_loop sub main)"

definition subslice :: "string list \<Rightarrow> string list \<Rightarrow> bool" where
  "subslice sub main = (if length sub > length main then False else subslice_loop sub main)"

section \<open>Scanning a status document\<close>

text \<open>
  The variables of one scan: the headers found so far, the counter of
  connected clients, the label history of every metric field, and the
  channel \<^verbatim>\<open>ch\<close> as the list of the metrics sent so far, oldest first.
  The version 4 parser has the current section in addition. The counter
  is a Go \<^verbatim>\<open>int\<close> that grows by one per line, so it is an unbounded
  integer here: no document has the \<open>2^63\<close> lines that would wrap it.
\<close>

record 'f scan_state =
  headersFound :: "string \<rightharpoonup> string list"
  numberConnectedClient :: int
  recordedMetrics :: "OpenvpnServerHeaderField \<rightharpoonup> string list"
  ch :: "'f metric list"

record 'f scan_state_v4 = "'f scan_state" +
  currentSection :: string

text \<open>
  How the body of a loop ends: it falls through to the next line
  (\<open>Next\<close>, also for \<^verbatim>\<open>continue\<close>), leaves the loop (\<open>Break\<close>), or
  returns from the function with an error (\<open>Return\<close>). Each carries the
  state reached, since what was sent on the channel stays sent.
\<close>

datatype 's ctl = Next 's | Break 's | Return 's error

text \<open>\<^verbatim>\<open>for scanner.Scan() { body }\<close> over the tokens of the scanner.\<close>

fun forScan :: "('s \<Rightarrow> string \<Rightarrow> 's ctl) \<Rightarrow> 's \<Rightarrow> string list \<Rightarrow> 's ctl" where
  "forScan body st [] = Next st"
| "forScan body st (line # rest) =
     (case body st line of
        Next st' \<Rightarrow> forScan body st' rest
      | Break st' \<Rightarrow> Break st'
      | Return st' err \<Rightarrow> Return st' err)"

text \<open>A Go map read \<^verbatim>\<open>m[k]\<close>: the zero value when the key is absent.\<close>

definition lookupStr :: "('k \<rightharpoonup> string) \<Rightarrow> 'k \<Rightarrow> string" where
  "lookupStr m k = (case m k of None \<Rightarrow> [] | Some v \<Rightarrow> v)"

definition lookupList :: "('k \<rightharpoonup> string list) \<Rightarrow> 'k \<Rightarrow> string list" where
  "lookupList m k = (case m k of None \<Rightarrow> [] | Some v \<Rightarrow> v)"

text \<open>
  \<^verbatim>\<open>labels := []string{statusPath}\<close> followed by the loop appending
  \<^verbatim>\<open>columnValues[column]\<close> for every label column.
\<close>

definition extractLabels :: "string \<Rightarrow> string list \<Rightarrow> (string \<rightharpoonup> string) \<Rightarrow> string list" where
  "extractLabels statusPath labelColumns columnValues =
     statusPath # map (lookupStr columnValues) labelColumns"

text \<open>
  The loop \<^verbatim>\<open>for _, metric := range header.Metrics\<close>, which the source
  writes out three times (once in the version 2/3 parser, twice in the
  version 4 parser) with the same body: a metric whose column has a value
  and whose labels pass \<^verbatim>\<open>subslice\<close> is parsed, sent and recorded; a
  value that does not parse returns the error at once.
\<close>

fun exportMetrics ::
  "'f golib \<Rightarrow> OpenvpnServerHeaderField list \<Rightarrow> (string \<rightharpoonup> string) \<Rightarrow> string list \<Rightarrow>
   ('f, 'z) scan_state_scheme \<Rightarrow> ('f, 'z) scan_state_scheme \<times> error option" where
  "exportMetrics lib [] columnValues labels st = (st, None)"
| "exportMetrics lib (metric # rest) columnValues labels st =
     (case columnValues (Column metric) of
        None \<Rightarrow> exportMetrics lib rest columnValues labels st
      | Some columnValue \<Rightarrow>
          if \<not> subslice labels (lookupList (recordedMetrics st) metric) then
            (case ParseFloat lib columnValue of
               None \<Rightarrow> (st, Some (NumError columnValue))
             | Some v \<Rightarrow>
                 exportMetrics lib rest columnValues labels
                   (st\<lparr>ch := ch st @ [MustNewConstMetric (Desc metric) (ValueType metric) v labels],
                       recordedMetrics := (recordedMetrics st)
                         (metric \<mapsto> lookupList (recordedMetrics st) metric @ labels)\<rparr>))
          else exportMetrics lib rest columnValues labels st)"

definition retOf :: "'s \<times> error option \<Rightarrow> 's ctl" where
  "retOf r = (case r of (st, None) \<Rightarrow> Next st | (st, Some err) \<Rightarrow> Return st err)"

subsection \<open>Server status, versions 2 and 3\<close>

text \<open>
  The column mapping of a row: every label column starts as the empty
  string, then each column of the header takes its field of the row.
\<close>

definition serverColumnValues ::
  "string list \<Rightarrow> string list \<Rightarrow> string list \<Rightarrow> (string \<rightharpoonup> string)" where
  "serverColumnValues labelColumns columnNames row =
     fold (\<lambda>(column, v) m. m(column \<mapsto> v)) (zip columnNames (tl row))
       (fold (\<lambda>column m. m(column \<mapsto> [])) labelColumns Map.empty)"

text \<open>
  A line of a registered section: the counter, the two checks against the
  header of the section, the column mapping, the labels, the metrics.
\<close>

definition serverRow ::
  "'f golib \<Rightarrow> string \<Rightarrow> OpenvpnServerHeader \<Rightarrow> string \<Rightarrow> string list \<Rightarrow> 'f scan_state \<Rightarrow>
   'f scan_state ctl" where
  "serverRow lib statusPath header f0 row st =
     (let st1 = (if f0 = ''CLIENT_LIST''
                 then st\<lparr>numberConnectedClient := numberConnectedClient st + 1\<rparr>
                 else st)
      in case headersFound st1 f0 of
           None \<Rightarrow> Return st1 (ShouldBePrecededByHeaders f0)
         | Some columnNames \<Rightarrow>
             if length row \<noteq> length columnNames + 1
             then Return st1 (DifferentNumberOfColumns f0)
             else
               (let columnValues = serverColumnValues (LabelColumns header) columnNames row;
                    labels = extractLabels statusPath (LabelColumns header) columnValues
                in retOf (exportMetrics lib (Metrics header) columnValues labels st1)))"

text \<open>
  The body of the loop of \<^verbatim>\<open>collectServerStatusFromReader\<close>. The
  branches are tried in the order of the source. \<^verbatim>\<open>fields[0]\<close> of no
  fields at all is a panic.
\<close>

definition serverLine ::
  "'f golib \<Rightarrow> OpenVPNExporter \<Rightarrow> string \<Rightarrow> string \<Rightarrow> 'f scan_state \<Rightarrow> string \<Rightarrow>
   'f scan_state ctl" where
  "serverLine lib e statusPath separator st line =
     (let fields = strings_Split line separator in
      case fields of
        [] \<Rightarrow> Return st (RuntimePanic ''index out of range'')
      | f0 # _ \<Rightarrow>
          if f0 = ''END'' \<and> length fields = 1 then Next st
          else if f0 = ''GLOBAL_STATS'' then Next st
          else if f0 = ''HEADER'' \<and> length fields > 2 then
            Next (st\<lparr>headersFound := (headersFound st)(fields ! 1 \<mapsto> drop 2 fields)\<rparr>)
          else if f0 = ''TIME'' \<and> length fields = 3 then
            (case ParseFloat lib (fields ! 2) of
               None \<Rightarrow> Return st (NumError (fields ! 2))
             | Some timeStartStats \<Rightarrow>
                 Next (st\<lparr>ch := ch st @
                   [MustNewConstMetric (openvpnStatusUpdateTimeDesc e) GaugeValue
                      timeStartStats [statusPath]]\<rparr>))
          else if f0 = ''TITLE'' \<and> length fields = 2 then Next st
          else
            (case openvpnServerHeaders e f0 of
               Some header \<Rightarrow> serverRow lib statusPath header f0 fields st
             | None \<Rightarrow> Return st (UnsupportedKey f0)))"

definition initState :: "'f scan_state" where
  "initState = \<lparr>headersFound = Map.empty, numberConnectedClient = 0,
                recordedMetrics = Map.empty, ch = []\<rparr>"

text \<open>
  The result of a scan: everything sent on the channel, and the error
  returned (\<open>None\<close> for \<^verbatim>\<open>nil\<close>). After the loop the gauge of the
  connected clients is sent and \<^verbatim>\<open>scanner.Err()\<close> is returned; a
  \<^verbatim>\<open>return err\<close> inside the loop skips both.
\<close>

definition connectedClientsMetric ::
  "'f golib \<Rightarrow> OpenVPNExporter \<Rightarrow> string \<Rightarrow> int \<Rightarrow> 'f metric" where
  "connectedClientsMetric lib e statusPath n =
     MustNewConstMetric (openvpnConnectedClientsDesc e) GaugeValue (float64 lib n) [statusPath]"

definition finishServer ::
  "'f golib \<Rightarrow> OpenVPNExporter \<Rightarrow> string \<Rightarrow> error option \<Rightarrow> ('f, 'z) scan_state_scheme ctl \<Rightarrow>
   'f metric list \<times> error option" where
  "finishServer lib e statusPath scanErr r =
     (case r of
        Return st err \<Rightarrow> (ch st, Some err)
      | Next st \<Rightarrow>
          (ch st @ [connectedClientsMetric lib e statusPath (numberConnectedClient st)], scanErr)
      | Break st \<Rightarrow>
          (ch st @ [connectedClientsMetric lib e statusPath (numberConnectedClient st)], scanErr))"

definition collectServerStatusFromReader ::
  "'f golib \<Rightarrow> OpenVPNExporter \<Rightarrow> string \<Rightarrow> string \<Rightarrow> string \<Rightarrow> 'f metric list \<times> error option" where
  "collectServerStatusFromReader lib e statusPath file separator =
     (case ScanLines lib file of
        (lines, scanErr) \<Rightarrow>
          finishServer lib e statusPath scanErr
            (forScan (serverLine lib e statusPath separator) initState lines))"

subsection \<open>Server status, version 4\<close>

text \<open>
  \<^verbatim>\<open>parseTime\<close>: the time string, trimmed, parsed with the layout
  \<^verbatim>\<open>"2006-01-02 15:04:05"\<close>.
\<close>

definition parseTime :: "'f golib \<Rightarrow> string \<Rightarrow> error + int" where
  "parseTime lib timeStr =
     (case time_Parse lib ''2006-01-02 15:04:05'' (TrimSpace lib timeStr) of
        None \<Rightarrow> Inl (ParseError (TrimSpace lib timeStr))
      | Some t \<Rightarrow> Inr t)"

text \<open>
  A line without a comma that is one of the section titles sets the
  current section, or leaves the loop at \<^verbatim>\<open>END\<close>; \<open>None\<close> is the
  fall through to the rest of the body.
\<close>

definition sectionTitle :: "'f scan_state_v4 \<Rightarrow> string \<Rightarrow> 'f scan_state_v4 ctl option" where
  "sectionTitle st line =
     (if \<not> strings_Contains line '','' then
        (if line = ''OpenVPN CLIENT LIST'' then Some (Next (st\<lparr>currentSection := ''CLIENT_LIST''\<rparr>))
         else if line = ''ROUTING TABLE'' then Some (Next (st\<lparr>currentSection := ''ROUTING_TABLE''\<rparr>))
         else if line = ''GLOBAL STATS'' then Some (Next (st\<lparr>currentSection := ''GLOBAL_STATS''\<rparr>))
         else if line = ''END'' then Some (Break st)
         else None)
      else None)"

text \<open>
  \<^verbatim>\<open>for i, value := range fields { if i < len(headers) { columnValues[headers[i]] = value } }\<close>
\<close>

definition columnValuesV4 :: "string list \<Rightarrow> string list \<Rightarrow> (string \<rightharpoonup> string)" where
  "columnValuesV4 headers row =
     fold (\<lambda>(column, v) m. m(column \<mapsto> v)) (zip headers row) Map.empty"

text \<open>A data row of a section: the column mapping, the labels, the metrics.\<close>

definition dataRowV4 ::
  "'f golib \<Rightarrow> string \<Rightarrow> OpenvpnServerHeader \<Rightarrow> string \<Rightarrow> string list \<Rightarrow> 'f scan_state_v4 \<Rightarrow>
   'f scan_state_v4 ctl" where
  "dataRowV4 lib statusPath header section row st =
     (let headers = lookupList (headersFound st) section;
          columnValues = columnValuesV4 headers row;
          labels = extractLabels statusPath (LabelColumns header) columnValues
      in retOf (exportMetrics lib (Metrics header) columnValues labels st))"

text \<open>
  The two cases of \<^verbatim>\<open>switch currentSection\<close>. In the client list a
  line is the time of the update, the header, or a data row, which counts
  as a connected client; in the routing table it is the header or a data
  row.
\<close>

definition clientListLineV4 ::
  "'f golib \<Rightarrow> OpenVPNExporter \<Rightarrow> string \<Rightarrow> 'f scan_state_v4 \<Rightarrow> string \<Rightarrow> string list \<Rightarrow>
   'f scan_state_v4 ctl" where
  "clientListLineV4 lib e statusPath st line row =
     (if HasPrefix line ''Updated,'' then
        (case row of
           _ # timeStr # _ \<Rightarrow>
             (case parseTime lib timeStr of
                Inl err \<Rightarrow> Return st err
              | Inr timeStartStats \<Rightarrow>
                  Next (st\<lparr>ch := ch st @
                    [MustNewConstMetric (openvpnStatusUpdateTimeDesc e) GaugeValue
                       (float64 lib timeStartStats) [statusPath]]\<rparr>))
         | _ \<Rightarrow> Return st (RuntimePanic ''index out of range''))
      else if HasPrefix line ''Common Name,'' then
        Next (st\<lparr>headersFound := (headersFound st)(''CLIENT_LIST'' \<mapsto> row)\<rparr>)
      else
        (case openvpnServerHeaders e ''CLIENT_LIST'' of
           Some header \<Rightarrow>
             dataRowV4 lib statusPath header ''CLIENT_LIST'' row
               (st\<lparr>numberConnectedClient := numberConnectedClient st + 1\<rparr>)
         | None \<Rightarrow> Next st))"

definition routingTableLineV4 ::
  "'f golib \<Rightarrow> OpenVPNExporter \<Rightarrow> string \<Rightarrow> 'f scan_state_v4 \<Rightarrow> string \<Rightarrow> string list \<Rightarrow>
   'f scan_state_v4 ctl" where
  "routingTableLineV4 lib e statusPath st line row =
     (if HasPrefix line ''Virtual Address,'' then
        Next (st\<lparr>headersFound := (headersFound st)(''ROUTING_TABLE'' \<mapsto> row)\<rparr>)
      else
        (case openvpnServerHeaders e ''ROUTING_TABLE'' of
           Some header \<Rightarrow> dataRowV4 lib statusPath header ''ROUTING_TABLE'' row st
         | None \<Rightarrow> Next st))"

text \<open>The body of the loop of \<^verbatim>\<open>collectServerStatusFromReaderV4\<close>.\<close>

definition serverLineV4 ::
  "'f golib \<Rightarrow> OpenVPNExporter \<Rightarrow> string \<Rightarrow> 'f scan_state_v4 \<Rightarrow> string \<Rightarrow> 'f scan_state_v4 ctl" where
  "serverLineV4 lib e statusPath st line =
     (if length line = 0 then Next st
      else case sectionTitle st line of
        Some r \<Rightarrow> r
      | None \<Rightarrow>
         (let fields = strings_Split line '','' in
          if currentSection st = ''CLIENT_LIST'' then clientListLineV4 lib e statusPath st line fields
          else if currentSection st = ''ROUTING_TABLE'' then routingTableLineV4 lib e statusPath st line fields
          else Next st))"

definition initStateV4 :: "'f scan_state_v4" where
  "initStateV4 = \<lparr>headersFound = Map.empty, numberConnectedClient = 0,
                  recordedMetrics = Map.empty, ch = [], currentSection = []\<rparr>"

definition collectServerStatusFromReaderV4 ::
  "'f golib \<Rightarrow> OpenVPNExporter \<Rightarrow> string \<Rightarrow> string \<Rightarrow> 'f metric list \<times> error option" where
  "collectServerStatusFromReaderV4 lib e statusPath file =
     (case ScanLines lib file of
        (lines, scanErr) \<Rightarrow>
          finishServer lib e statusPath scanErr
            (forScan (serverLineV4 lib e statusPath) initStateV4 lines))"

subsection \<open>Client status\<close>

text \<open>
  The client parser has no variables but the channel, so its state is the
  list of the metrics sent.
\<close>

definition clientLine ::
  "'f golib \<Rightarrow> OpenVPNExporter \<Rightarrow> string \<Rightarrow> 'f metric list \<Rightarrow> string \<Rightarrow> 'f metric list ctl" where
  "clientLine lib e statusPath sent line =
     (let fields = strings_Split line '','' in
      case fields of
        [] \<Rightarrow> Return sent (RuntimePanic ''index out of range'')
      | f0 # _ \<Rightarrow>
          if f0 = ''END'' \<and> length fields = 1 then Next sent
          else if f0 = ''OpenVPN STATISTICS'' \<and> length fields = 1 then Next sent
          else if f0 = ''Updated'' \<and> length fields = 2 then
            (case time_ParseInLocal lib ''Mon Jan 2 15:04:05 2006'' (fields ! 1) of
               None \<Rightarrow> Return sent (ParseError (fields ! 1))
             | Some timeParser \<Rightarrow>
                 Next (sent @ [MustNewConstMetric (openvpnStatusUpdateTimeDesc e) GaugeValue
                                 (float64 lib timeParser) [statusPath]]))
          else
            (case openvpnClientDescs e f0 of
               Some desc \<Rightarrow>
                 if length fields = 2 then
                   (case ParseFloat lib (fields ! 1) of
                      None \<Rightarrow> Return sent (NumError (fields ! 1))
                    | Some v \<Rightarrow> Next (sent @ [MustNewConstMetric desc CounterValue v [statusPath]]))
                 else Return sent (UnsupportedKey f0)
             | None \<Rightarrow> Return sent (UnsupportedKey f0)))"

definition finishClient :: "error option \<Rightarrow> 'f metric list ctl \<Rightarrow> 'f metric list \<times> error option" where
  "finishClient scanErr r =
     (case r of
        Return sent err \<Rightarrow> (sent, Some err)
      | Next sent \<Rightarrow> (sent, scanErr)
      | Break sent \<Rightarrow> (sent, scanErr))"

definition collectClientStatusFromReader ::
  "'f golib \<Rightarrow> OpenVPNExporter \<Rightarrow> string \<Rightarrow> string \<Rightarrow> 'f metric list \<times> error option" where
  "collectClientStatusFromReader lib e statusPath file =
     (case ScanLines lib file of
        (lines, scanErr) \<Rightarrow> finishClient scanErr (forScan (clientLine lib e statusPath) [] lines))"

subsection \<open>Format detection\<close>

text \<open>
  \<^verbatim>\<open>collectStatusFromReader\<close>: \<^verbatim>\<open>reader.Peek(18)\<close> gives the first 18
  bytes of the file (fewer when the file is shorter) and consumes nothing,
  so the parser chosen reads the file from its first byte.
\<close>

definition collectStatusFromReader ::
  "'f golib \<Rightarrow> OpenVPNExporter \<Rightarrow> string \<Rightarrow> string \<Rightarrow> 'f metric list \<times> error option" where
  "collectStatusFromReader lib e statusPath file =
     (let buf = take 18 file in
      if prefix ''TITLE,'' buf then collectServerStatusFromReader lib e statusPath file '',''
      else if prefix (''TITLE'' @ [CHR 0x09]) buf
        then collectServerStatusFromReader lib e statusPath file [CHR 0x09]
      else if prefix ''OpenVPN STATISTICS'' buf then collectClientStatusFromReader lib e statusPath file
      else if prefix ''OpenVPN CLIENT LIS'' buf then collectServerStatusFromReaderV4 lib e statusPath file
      else ([], Some (UnexpectedFileContents buf)))"

section \<open>Notions of the specification\<close>

text \<open>
  The dedup test as the specification words it: the label tuple occurs as
  a contiguous run inside the flattened history.
\<close>

definition contiguousRun :: "string list \<Rightarrow> string list \<Rightarrow> bool" where
  "contiguousRun sub main = sublist sub main"

text \<open>
  The four dialects, and the dialect of a document as the specification
  gives it: the first of the four literal prefixes that the document
  starts with.
\<close>

datatype dialect = ServerV2 | ServerV3 | ClientStats | ServerV4

definition formatOf :: "string \<Rightarrow> dialect option" where
  "formatOf s =
     (if prefix ''TITLE,'' s then Some ServerV2
      else if prefix (''TITLE'' @ [CHR 0x09]) s then Some ServerV3
      else if prefix ''OpenVPN STATISTICS'' s then Some ClientStats
      else if prefix ''OpenVPN CLIENT LIS'' s then Some ServerV4
      else None)"

text \<open>The first field of a line, as a test on the line.\<close>

definition firstFieldIs :: "string \<Rightarrow> string \<Rightarrow> string \<Rightarrow> bool" where
  "firstFieldIs separator tag line =
     (case strings_Split line separator of [] \<Rightarrow> False | f0 # _ \<Rightarrow> f0 = tag)"

text \<open>
  A \<^verbatim>\<open>HEADER\<close> line of the version 2/3 format that registers the
  columns of a section: more than two fields, the second the section.
\<close>

definition isHeaderFor :: "string \<Rightarrow> string \<Rightarrow> string \<Rightarrow> bool" where
  "isHeaderFor separator section line =
     (case strings_Split line separator of
        f0 # f1 # _ # _ \<Rightarrow> f0 = ''HEADER'' \<and> f1 = section
      | _ \<Rightarrow> False)"

text \<open>The number of \<^verbatim>\<open>CLIENT_LIST\<close> lines of a version 2/3 document.\<close>

definition clientRows :: "string \<Rightarrow> string list \<Rightarrow> nat" where
  "clientRows separator lines = length (filter (firstFieldIs separator ''CLIENT_LIST'') lines)"

text \<open>
  A data row of the client list of a version 4 document: a line that is
  not empty, not a section title, and starts neither with
  \<^verbatim>\<open>Updated,\<close> nor with \<^verbatim>\<open>Common Name,\<close>.
\<close>

definition isTitleV4 :: "string \<Rightarrow> bool" where
  "isTitleV4 line = (line = ''OpenVPN CLIENT LIST'' \<or> line = ''ROUTING TABLE'' \<or>
                     line = ''GLOBAL STATS'' \<or> line = ''END'')"

definition isClientRowV4 :: "string \<Rightarrow> bool" where
  "isClientRowV4 line = (line \<noteq> [] \<and> \<not> isTitleV4 line \<and>
                         \<not> prefix ''Updated,'' line \<and> \<not> prefix ''Common Name,'' line)"

definition isRoutingRowV4 :: "string \<Rightarrow> bool" where
  "isRoutingRowV4 line = (line \<noteq> [] \<and> \<not> isTitleV4 line \<and> \<not> prefix ''Virtual Address,'' line)"

text \<open>
  The data rows of the client list of a version 4 document, counted from
  the document alone: \<open>sec\<close> is the section the first line is in, and
  nothing counts after \<^verbatim>\<open>END\<close>.
\<close>

fun clientRowsV4 :: "string \<Rightarrow> string list \<Rightarrow> nat" where
  "clientRowsV4 sec [] = 0"
| "clientRowsV4 sec (line # rest) =
     (if line = [] then clientRowsV4 sec rest
      else if line = ''OpenVPN CLIENT LIST'' then clientRowsV4 ''CLIENT_LIST'' rest
      else if line = ''ROUTING TABLE'' then clientRowsV4 ''ROUTING_TABLE'' rest
      else if line = ''GLOBAL STATS'' then clientRowsV4 ''GLOBAL_STATS'' rest
      else if line = ''END'' then 0
      else if sec = ''CLIENT_LIST'' \<and> isClientRowV4 line then Suc (clientRowsV4 sec rest)
      else clientRowsV4 sec rest)"

text \<open>The state a loop result carries.\<close>

fun stateOf :: "'s ctl \<Rightarrow> 's" where
  "stateOf (Next st) = st"
| "stateOf (Break st) = st"
| "stateOf (Return st err) = st"

section \<open>An instance of the library, for concrete documents\<close>

text \<open>
  To run the parsers on concrete documents the library parameters are
  instantiated on a fragment where their results are beyond doubt:
  \<open>ParseFloat\<close> on unsigned decimal integers (everything else is an
  error here, which is what Go answers for the malformed values used
  below), the time parsers on the two dates of the sample documents, with
  UTC as the local zone, and the line scanner on short in-memory text:
  lines end at a line feed, one carriage return before it is dropped, and
  no empty token follows the last line feed.
\<close>

definition digitVal :: "char \<rightharpoonup> nat" where
  "digitVal = map_of [(CHR ''0'', 0), (CHR ''1'', 1), (CHR ''2'', 2), (CHR ''3'', 3), (CHR ''4'', 4),
                      (CHR ''5'', 5), (CHR ''6'', 6), (CHR ''7'', 7), (CHR ''8'', 8), (CHR ''9'', 9)]"

fun decimalVal :: "nat \<Rightarrow> string \<Rightarrow> nat option" where
  "decimalVal acc [] = Some acc"
| "decimalVal acc (c # cs) =
     (case digitVal c of None \<Rightarrow> None | Some d \<Rightarrow> decimalVal (10 * acc + d) cs)"

definition demoParseFloat :: "string \<Rightarrow> real option" where
  "demoParseFloat s = (if s = [] then None else map_option real (decimalVal 0 s))"

definition demoTimeParse :: "string \<Rightarrow> string \<Rightarrow> int option" where
  "demoTimeParse layout v =
     (if layout = ''2006-01-02 15:04:05'' \<and> v = ''2024-10-21 09:23:08'' then Some 1729502588
      else if layout = ''Mon Jan 2 15:04:05 2006'' \<and> v = ''Sun Oct 20 09:23:08 2024''
        then Some 1729416188
      else None)"

definition dropCR :: "string \<Rightarrow> string" where
  "dropCR s = (if s \<noteq> [] \<and> last s = CHR 0x0D then butlast s else s)"

definition demoScanLines :: "string \<Rightarrow> string list \<times> error option" where
  "demoScanLines file =
     (let pieces = strings_Split file [CHR 0x0A];
          tokens = (if pieces \<noteq> [] \<and> last pieces = [] then butlast pieces else pieces)
      in (map dropCR tokens, None))"

definition demoLib :: "real golib" where
  "demoLib = \<lparr>ParseFloat = demoParseFloat, float64 = real_of_int,
              time_Parse = demoTimeParse, time_ParseInLocal = demoTimeParse,
              TrimSpace = (\<lambda>s. s), ScanLines = demoScanLines\<rparr>"

text \<open>A document given by its lines, each ended by a line feed.\<close>

definition unlines :: "string list \<Rightarrow> string" where
  "unlines ls = concat (map (\<lambda>l. l @ [CHR 0x0A]) ls)"

section \<open>Sample documents\<close>

text \<open>
  Three clients of a version 2 server. The third row is a new connection:
  every one of its label values has occurred before, but never together.
\<close>

definition dedupDoc :: string where
  "dedupDoc = unlines
     [''TITLE,OpenVPN 2.6'',
      ''HEADER,CLIENT_LIST,Common Name,Real Address,Virtual Address,Bytes Received,Bytes Sent,Connected Since'',
      ''CLIENT_LIST,alice,r1,v1,1,2,t1'',
      ''CLIENT_LIST,bob,r2,v2,3,4,t2'',
      ''CLIENT_LIST,alice,r2,v1,5,6,t2'']"

text \<open>A version 4 document: one client, one route, the global statistics.\<close>

definition sampleV4 :: string where
  "sampleV4 = unlines
     [''OpenVPN CLIENT LIST'',
      ''Updated,2024-10-21 09:23:08'',
      ''Common Name,Real Address,Bytes Received,Bytes Sent,Connected Since'',
      ''alice,1.2.3.4:5,10,20,2024-10-21 09:00:00'',
      ''ROUTING TABLE'',
      ''Virtual Address,Common Name,Real Address,Last Ref'',
      ''10.8.0.2,alice,1.2.3.4:5,2024-10-21 09:20:00'',
      ''GLOBAL STATS'',
      ''Max bcast/mcast queue length,0'',
      ''END'']"

text \<open>
  A version 2 document whose only client row has a sent-bytes field that
  is no number, after a time line and a received-bytes field that are
  fine.
\<close>

definition malformedDoc :: string where
  "malformedDoc = unlines
     [''TITLE,OpenVPN 2.6'',
      ''TIME,2024-10-21 09:23:08,1729502588'',
      ''HEADER,CLIENT_LIST,Common Name,Bytes Received,Bytes Sent'',
      ''CLIENT_LIST,alice,5,abc'',
      ''END'']"

text \<open>The client document of the specification, between its first and last line.\<close>

definition sampleClient :: string where
  "sampleClient = unlines
     [''OpenVPN STATISTICS'',
      ''Updated,Sun Oct 20 09:23:08 2024'',
      ''TCP/UDP read bytes,1234'',
      ''END'']"

section \<open>Properties\<close>

subsection \<open>Unfolding sets and the loop\<close>

lemmas registry_defs = NewOpenVPNExporter_def clientListHeader_def routingTableHeader_def
  receivedField_def sentField_def lastRefField_def clientLabelColumns_def clientLabels_def
  routingLabelColumns_def routingLabels_def NewDesc_def BuildFQName_def clientDesc_def

lemmas server_defs = strings_Split_def serverLine_def serverRow_def serverColumnValues_def extractLabels_def
  lookupStr_def lookupList_def retOf_def subslice_def MustNewConstMetric_def initState_def
  finishServer_def connectedClientsMetric_def collectServerStatusFromReader_def

lemmas demo_defs = demoLib_def demoScanLines_def unlines_def dropCR_def demoParseFloat_def
  digitVal_def demoTimeParse_def

lemma forScan_append:
  "forScan body st (xs @ ys) =
     (case forScan body st xs of
        Next st' \<Rightarrow> forScan body st' ys
      | Break st' \<Rightarrow> Break st'
      | Return st' err \<Rightarrow> Return st' err)"
  by (induction xs arbitrary: st) (auto split: ctl.splits)

subsection \<open>The dedup check is not a test for a contiguous run\<close>

lemma dedupDoc_detect:
  "collectStatusFromReader demoLib (NewOpenVPNExporter [''p''] False) ''p'' dedupDoc =
     collectServerStatusFromReader demoLib (NewOpenVPNExporter [''p''] False) ''p'' dedupDoc '',''"
  by (simp add: collectStatusFromReader_def dedupDoc_def unlines_def)

lemma dedupDoc_lines:
  "ScanLines demoLib dedupDoc =
     ([''TITLE,OpenVPN 2.6'',
       ''HEADER,CLIENT_LIST,Common Name,Real Address,Virtual Address,Bytes Received,Bytes Sent,Connected Since'',
       ''CLIENT_LIST,alice,r1,v1,1,2,t1'',
       ''CLIENT_LIST,bob,r2,v2,3,4,t2'',
       ''CLIENT_LIST,alice,r2,v1,5,6,t2''], None)"
  by (simp add: demo_defs dedupDoc_def strings_Split_def)

text \<open>
  C2. The claim reads the dedup check as a search for the label tuple as
  a contiguous run of the flattened history. The code of
  \<^verbatim>\<open>subslice\<close> asks instead whether every label of the tuple occurs
  somewhere in the history. On the tuple of the third row of \<open>dedupDoc\<close>
  the two differ: \<^verbatim>\<open>subslice\<close> answers true although the tuple is no
  contiguous run of the history, and the scan of the document sends no
  metric for that row, while its counter of clients is 3.
\<close>

theorem subslice_rejects_unseen_tuple:
  "subslice [''p'', ''alice'', ''t2'', ''r2'', ''v1'', ''alice'']
     ([''p'', ''alice'', ''t1'', ''r1'', ''v1'', ''alice''] @ [''p'', ''bob'', ''t2'', ''r2'', ''v2'', ''bob''])
   \<and> \<not> contiguousRun [''p'', ''alice'', ''t2'', ''r2'', ''v1'', ''alice'']
     ([''p'', ''alice'', ''t1'', ''r1'', ''v1'', ''alice''] @ [''p'', ''bob'', ''t2'', ''r2'', ''v2'', ''bob''])
   \<and> map (\<lambda>m. (fqName (m_desc m), m_value m, m_labelValues m))
        (fst (collectStatusFromReader demoLib (NewOpenVPNExporter [''p''] False) ''p'' dedupDoc)) =
      [(''openvpn_server_client_received_bytes_total'', 1, [''p'', ''alice'', ''t1'', ''r1'', ''v1'', ''alice'']),
       (''openvpn_server_client_sent_bytes_total'', 2, [''p'', ''alice'', ''t1'', ''r1'', ''v1'', ''alice'']),
       (''openvpn_server_client_received_bytes_total'', 3, [''p'', ''bob'', ''t2'', ''r2'', ''v2'', ''bob'']),
       (''openvpn_server_client_sent_bytes_total'', 4, [''p'', ''bob'', ''t2'', ''r2'', ''v2'', ''bob'']),
       (''openvpn_server_connected_clients'', 3, [''p''])]
   \<and> snd (collectStatusFromReader demoLib (NewOpenVPNExporter [''p''] False) ''p'' dedupDoc) = None"
proof (intro conjI)
  show "subslice [''p'', ''alice'', ''t2'', ''r2'', ''v1'', ''alice'']
     ([''p'', ''alice'', ''t1'', ''r1'', ''v1'', ''alice''] @ [''p'', ''bob'', ''t2'', ''r2'', ''v2'', ''bob''])"
    by (simp add: subslice_def)
  show "\<not> contiguousRun [''p'', ''alice'', ''t2'', ''r2'', ''v1'', ''alice'']
     ([''p'', ''alice'', ''t1'', ''r1'', ''v1'', ''alice''] @ [''p'', ''bob'', ''t2'', ''r2'', ''v2'', ''bob''])"
    by (simp add: contiguousRun_def sublist_Cons_right)
  show "map (\<lambda>m. (fqName (m_desc m), m_value m, m_labelValues m))
        (fst (collectStatusFromReader demoLib (NewOpenVPNExporter [''p''] False) ''p'' dedupDoc)) =
      [(''openvpn_server_client_received_bytes_total'', 1, [''p'', ''alice'', ''t1'', ''r1'', ''v1'', ''alice'']),
       (''openvpn_server_client_sent_bytes_total'', 2, [''p'', ''alice'', ''t1'', ''r1'', ''v1'', ''alice'']),
       (''openvpn_server_client_received_bytes_total'', 3, [''p'', ''bob'', ''t2'', ''r2'', ''v2'', ''bob'']),
       (''openvpn_server_client_sent_bytes_total'', 4, [''p'', ''bob'', ''t2'', ''r2'', ''v2'', ''bob'']),
       (''openvpn_server_connected_clients'', 3, [''p''])]"
    unfolding dedupDoc_detect collectServerStatusFromReader_def dedupDoc_lines
    by (simp add: registry_defs server_defs demoLib_def demoParseFloat_def digitVal_def Let_def)
  show "snd (collectStatusFromReader demoLib (NewOpenVPNExporter [''p''] False) ''p'' dedupDoc) = None"
    unfolding dedupDoc_detect collectServerStatusFromReader_def dedupDoc_lines
    by (simp add: registry_defs server_defs demoLib_def demoParseFloat_def digitVal_def Let_def)
qed

subsection \<open>Format detection\<close>

lemma prefix_take_iff: "length p \<le> n \<Longrightarrow> prefix p (take n xs) \<longleftrightarrow> prefix p xs"
proof
  assume "prefix p (take n xs)"
  then show "prefix p xs" using take_is_prefix prefix_order.trans by blast
next
  assume le: "length p \<le> n" and "prefix p xs"
  then obtain zs where "xs = p @ zs" by (auto simp: prefix_def)
  with le show "prefix p (take n xs)" by simp
qed

text \<open>
  C4. \<^verbatim>\<open>collectStatusFromReader\<close> runs the parser of the dialect of the
  file: the comma-separated server parser for \<^verbatim>\<open>TITLE,\<close>, the
  tab-separated one for \<^verbatim>\<open>TITLE\t\<close>, the client parser for
  \<^verbatim>\<open>OpenVPN STATISTICS\<close>, the version 4 parser for
  \<^verbatim>\<open>OpenVPN CLIENT LIS\<close>, tried in this order; with none of them it
  sends nothing and fails with the first 18 bytes in the error. The
  dialect of a file is the dialect of its first 18 bytes.
\<close>

theorem format_detection:
  "collectStatusFromReader lib e statusPath file =
     (case formatOf file of
        Some ServerV2 \<Rightarrow> collectServerStatusFromReader lib e statusPath file '',''
      | Some ServerV3 \<Rightarrow> collectServerStatusFromReader lib e statusPath file [CHR 0x09]
      | Some ClientStats \<Rightarrow> collectClientStatusFromReader lib e statusPath file
      | Some ServerV4 \<Rightarrow> collectServerStatusFromReaderV4 lib e statusPath file
      | None \<Rightarrow> ([], Some (UnexpectedFileContents (take 18 file))))
   \<and> formatOf file = formatOf (take 18 file)"
proof -
  have p: "prefix ''TITLE,'' (take 18 file) = prefix ''TITLE,'' file"
    "prefix (''TITLE'' @ [CHR 0x09]) (take 18 file) = prefix (''TITLE'' @ [CHR 0x09]) file"
    "prefix ''OpenVPN STATISTICS'' (take 18 file) = prefix ''OpenVPN STATISTICS'' file"
    "prefix ''OpenVPN CLIENT LIS'' (take 18 file) = prefix ''OpenVPN CLIENT LIS'' file"
    by (rule prefix_take_iff, simp)+
  show ?thesis
    unfolding collectStatusFromReader_def formatOf_def Let_def p by simp
qed

subsection \<open>What one line of a version 2/3 document does\<close>

lemma exportMetrics_empty [simp]: "exportMetrics lib ms Map.empty labels st = (st, None)"
  by (induction ms) auto

lemma exportMetrics_shape:
  "\<exists>new rm. fst (exportMetrics lib ms cv labels st) = st\<lparr>ch := ch st @ new, recordedMetrics := rm\<rparr> \<and>
         (\<forall>m \<in> set new. m_labelValues m = labels \<and> m_desc m \<in> Desc ` set ms)"
proof (induction ms arbitrary: st)
  case Nil
  have "st = st\<lparr>ch := ch st @ [], recordedMetrics := recordedMetrics st\<rparr>" by simp
  then show ?case by (metis empty_iff empty_set exportMetrics.simps(1) fst_conv)
next
  case (Cons metric rest)
  show ?case
  proof (cases "cv (Column metric)")
    case None
    with Cons[of st] show ?thesis by auto
  next
    case (Some columnValue)
    show ?thesis
    proof (cases "\<not> subslice labels (lookupList (recordedMetrics st) metric)")
      case False
      with Some Cons[of st] show ?thesis by auto
    next
      case True
      show ?thesis
      proof (cases "ParseFloat lib columnValue")
        case None
        have "st = st\<lparr>ch := ch st @ [], recordedMetrics := recordedMetrics st\<rparr>" by simp
        moreover have "fst (exportMetrics lib (metric # rest) cv labels st) = st"
          using \<open>cv (Column metric) = Some columnValue\<close> True None by simp
        ultimately show ?thesis by (metis empty_iff empty_set)
      next
        case (Some v)
        let ?m = "MustNewConstMetric (Desc metric) (ValueType metric) v labels"
        let ?st = "st\<lparr>ch := ch st @ [?m],
                       recordedMetrics := (recordedMetrics st)
                         (metric \<mapsto> lookupList (recordedMetrics st) metric @ labels)\<rparr>"
        from Cons[of ?st] obtain new rm where
          n: "fst (exportMetrics lib rest cv labels ?st) = ?st\<lparr>ch := ch ?st @ new, recordedMetrics := rm\<rparr>"
             "\<forall>m \<in> set new. m_labelValues m = labels \<and> m_desc m \<in> Desc ` set rest"
          by blast
        have "fst (exportMetrics lib (metric # rest) cv labels st) =
                st\<lparr>ch := ch st @ (?m # new), recordedMetrics := rm\<rparr>"
          using \<open>cv (Column metric) = Some columnValue\<close> True Some n(1) by simp
        moreover have "\<forall>m \<in> set (?m # new).
            m_labelValues m = labels \<and> m_desc m \<in> Desc ` set (metric # rest)"
          using n(2) by (auto simp: MustNewConstMetric_def)
        ultimately show ?thesis by blast
      qed
    qed
  qed
qed

lemma stateOf_retOf [simp]: "stateOf (retOf r) = fst r"
  by (cases r) (auto simp: retOf_def split: option.splits)

lemma serverRow_shape:
  "\<exists>new rm. stateOf (serverRow lib statusPath header f0 row st) =
       st\<lparr>numberConnectedClient := numberConnectedClient st + (if f0 = ''CLIENT_LIST'' then 1 else 0),
          ch := ch st @ new, recordedMetrics := rm\<rparr> \<and>
     (\<forall>m \<in> set new. length (m_labelValues m) = Suc (length (LabelColumns header)) \<and>
        hd (m_labelValues m) = statusPath \<and> m_desc m \<in> Desc ` set (Metrics header))"
proof -
  define st1 where "st1 = (if f0 = ''CLIENT_LIST''
                 then st\<lparr>numberConnectedClient := numberConnectedClient st + 1\<rparr> else st)"
  have st1: "st1 = st\<lparr>numberConnectedClient := numberConnectedClient st + (if f0 = ''CLIENT_LIST'' then 1 else 0)\<rparr>"
    by (simp add: st1_def)
  have triv: "st1 = st1\<lparr>ch := ch st1 @ [], recordedMetrics := recordedMetrics st1\<rparr>" by simp
  show ?thesis
  proof (cases "headersFound st1 f0")
    case None
    then have "stateOf (serverRow lib statusPath header f0 row st) = st1"
      by (simp add: serverRow_def st1_def Let_def)
    with st1 show ?thesis
      by (intro exI[of _ "[]"] exI[of _ "recordedMetrics st"]) simp
  next
    case (Some columnNames)
    show ?thesis
    proof (cases "length row \<noteq> length columnNames + 1")
      case True
      with Some have "stateOf (serverRow lib statusPath header f0 row st) = st1"
        by (simp add: serverRow_def st1_def Let_def)
      with st1 show ?thesis
        by (intro exI[of _ "[]"] exI[of _ "recordedMetrics st"]) simp
    next
      case False
      define cv where "cv = serverColumnValues (LabelColumns header) columnNames row"
      define labels where "labels = extractLabels statusPath (LabelColumns header) cv"
      from Some False have eq: "stateOf (serverRow lib statusPath header f0 row st) =
          fst (exportMetrics lib (Metrics header) cv labels st1)"
        by (simp add: serverRow_def st1_def Let_def cv_def labels_def)
      from exportMetrics_shape[of lib "Metrics header" cv labels st1] obtain new rm where
        n: "fst (exportMetrics lib (Metrics header) cv labels st1) = st1\<lparr>ch := ch st1 @ new, recordedMetrics := rm\<rparr>"
        "\<forall>m \<in> set new. m_labelValues m = labels \<and> m_desc m \<in> Desc ` set (Metrics header)"
        by blast
      have "stateOf (serverRow lib statusPath header f0 row st) =
         st\<lparr>numberConnectedClient := numberConnectedClient st + (if f0 = ''CLIENT_LIST'' then 1 else 0),
          ch := ch st @ new, recordedMetrics := rm\<rparr>"
        unfolding eq n(1) by (simp add: st1)
      moreover have "\<forall>m \<in> set new. length (m_labelValues m) = Suc (length (LabelColumns header)) \<and>
        hd (m_labelValues m) = statusPath \<and> m_desc m \<in> Desc ` set (Metrics header)"
        using n(2) by (simp add: labels_def extractLabels_def)
      ultimately show ?thesis by blast
    qed
  qed
qed


lemma serverLine_cases:
  assumes sp: "strings_Split line separator = f0 # fs"
  obtains
    (same) "stateOf (serverLine lib e statusPath separator st line) = st"
      "f0 \<noteq> ''CLIENT_LIST'' \<or> openvpnServerHeaders e ''CLIENT_LIST'' = None"
  | (header) "f0 = ''HEADER''" "length fs > 1"
      "serverLine lib e statusPath separator st line =
         Next (st\<lparr>headersFound := (headersFound st)((f0 # fs) ! 1 \<mapsto> drop 2 (f0 # fs))\<rparr>)"
  | (time) t where "f0 = ''TIME''"
      "serverLine lib e statusPath separator st line =
         Next (st\<lparr>ch := ch st @
            [MustNewConstMetric (openvpnStatusUpdateTimeDesc e) GaugeValue t [statusPath]]\<rparr>)"
  | (row) header where "openvpnServerHeaders e f0 = Some header"
      "serverLine lib e statusPath separator st line = serverRow lib statusPath header f0 (f0 # fs) st"
proof -
  consider (a) "f0 = ''END'' \<and> length (f0 # fs) = 1"
    | (b) "\<not> (f0 = ''END'' \<and> length (f0 # fs) = 1)" "f0 = ''GLOBAL_STATS''"
    | (c) "\<not> (f0 = ''END'' \<and> length (f0 # fs) = 1)" "f0 \<noteq> ''GLOBAL_STATS''"
          "f0 = ''HEADER'' \<and> length (f0 # fs) > 2"
    | (d) "\<not> (f0 = ''END'' \<and> length (f0 # fs) = 1)" "f0 \<noteq> ''GLOBAL_STATS''"
          "\<not> (f0 = ''HEADER'' \<and> length (f0 # fs) > 2)" "f0 = ''TIME'' \<and> length (f0 # fs) = 3"
    | (e) "\<not> (f0 = ''END'' \<and> length (f0 # fs) = 1)" "f0 \<noteq> ''GLOBAL_STATS''"
          "\<not> (f0 = ''HEADER'' \<and> length (f0 # fs) > 2)" "\<not> (f0 = ''TIME'' \<and> length (f0 # fs) = 3)"
          "f0 = ''TITLE'' \<and> length (f0 # fs) = 2"
    | (f) "\<not> (f0 = ''END'' \<and> length (f0 # fs) = 1)" "f0 \<noteq> ''GLOBAL_STATS''"
          "\<not> (f0 = ''HEADER'' \<and> length (f0 # fs) > 2)" "\<not> (f0 = ''TIME'' \<and> length (f0 # fs) = 3)"
          "\<not> (f0 = ''TITLE'' \<and> length (f0 # fs) = 2)"
    by blast
  then show thesis
  proof cases
    case a
    then have "serverLine lib e statusPath separator st line = Next st"
      by (auto simp: serverLine_def sp Let_def)
    with a same show ?thesis by simp
  next
    case b
    then have "serverLine lib e statusPath separator st line = Next st"
      by (auto simp: serverLine_def sp Let_def)
    with b same show ?thesis by simp
  next
    case c
    then have "serverLine lib e statusPath separator st line =
         Next (st\<lparr>headersFound := (headersFound st)((f0 # fs) ! 1 \<mapsto> drop 2 (f0 # fs))\<rparr>)"
      by (auto simp: serverLine_def sp Let_def)
    with c header show ?thesis by simp
  next
    case d
    show ?thesis
    proof (cases "ParseFloat lib ((f0 # fs) ! 2)")
      case None
      with d have "serverLine lib e statusPath separator st line = Return st (NumError ((f0 # fs) ! 2))"
        by (auto simp: serverLine_def sp Let_def)
      with d same show ?thesis by simp
    next
      case (Some t)
      with d have "serverLine lib e statusPath separator st line =
         Next (st\<lparr>ch := ch st @
            [MustNewConstMetric (openvpnStatusUpdateTimeDesc e) GaugeValue t [statusPath]]\<rparr>)"
        by (auto simp: serverLine_def sp Let_def)
      with d time show ?thesis by simp
    qed
  next
    case e
    then have "serverLine lib e statusPath separator st line = Next st"
      by (auto simp: serverLine_def sp Let_def)
    with e same show ?thesis by simp
  next
    case f
    show ?thesis
    proof (cases "openvpnServerHeaders e f0")
      case None
      with f have "serverLine lib e statusPath separator st line = Return st (UnsupportedKey f0)"
        by (auto simp: serverLine_def sp Let_def)
      with None same show ?thesis by auto
    next
      case (Some header)
      with f have "serverLine lib e statusPath separator st line =
          serverRow lib statusPath header f0 (f0 # fs) st"
        by (auto simp: serverLine_def sp Let_def)
      with Some row show ?thesis by simp
    qed
  qed
qed


lemma serverLine_headers:
  assumes "\<not> isHeaderFor separator section line"
  shows "headersFound (stateOf (serverLine lib e statusPath separator st line)) section =
           headersFound st section"
proof (cases "strings_Split line separator")
  case Nil
  then show ?thesis by (simp add: serverLine_def)
next
  case (Cons f0 fs)
  then show ?thesis
  proof (cases rule: serverLine_cases[where lib = lib and e = e and statusPath = statusPath and st = st])
    case same
    then show ?thesis by simp
  next
    case header
    then obtain f1 f2 fs' where "fs = f1 # f2 # fs'"
      by (cases fs; cases "tl fs") auto
    with header Cons assms show ?thesis by (simp add: isHeaderFor_def)
  next
    case (time t)
    then show ?thesis by simp
  next
    case (row header)
    from serverRow_shape[of lib statusPath header f0 "f0 # fs" st] row(2)
    show ?thesis by auto
  qed
qed

lemma serverLine_counter:
  "numberConnectedClient (stateOf (serverLine lib e statusPath separator st line)) =
     numberConnectedClient st +
       (if firstFieldIs separator ''CLIENT_LIST'' line \<and> openvpnServerHeaders e ''CLIENT_LIST'' \<noteq> None
        then 1 else 0)"
proof (cases "strings_Split line separator")
  case Nil
  then show ?thesis by (simp add: serverLine_def firstFieldIs_def)
next
  case (Cons f0 fs)
  then show ?thesis
  proof (cases rule: serverLine_cases[where lib = lib and e = e and statusPath = statusPath and st = st])
    case same
    with Cons show ?thesis by (auto simp: firstFieldIs_def)
  next
    case header
    with Cons show ?thesis by (simp add: firstFieldIs_def)
  next
    case (time t)
    with Cons show ?thesis by (simp add: firstFieldIs_def)
  next
    case (row header)
    from serverRow_shape[of lib statusPath header f0 "f0 # fs" st] row Cons
    show ?thesis by (auto simp: firstFieldIs_def)
  qed
qed

lemma serverLine_sent:
  "\<exists>new. ch (stateOf (serverLine lib e statusPath separator st line)) = ch st @ new \<and>
     (\<forall>m \<in> set new.
        (m_desc m = openvpnStatusUpdateTimeDesc e \<and> m_labelValues m = [statusPath]) \<or>
        (\<exists>header \<in> ran (openvpnServerHeaders e).
           m_desc m \<in> Desc ` set (Metrics header) \<and>
           length (m_labelValues m) = Suc (length (LabelColumns header)) \<and>
           hd (m_labelValues m) = statusPath))"
proof (cases "strings_Split line separator")
  case Nil
  then show ?thesis by (simp add: serverLine_def)
next
  case (Cons f0 fs)
  then show ?thesis
  proof (cases rule: serverLine_cases[where lib = lib and e = e and statusPath = statusPath and st = st])
    case same
    then show ?thesis by simp
  next
    case header
    then show ?thesis by simp
  next
    case (time t)
    then show ?thesis by (simp add: MustNewConstMetric_def)
  next
    case (row header)
    from serverRow_shape[of lib statusPath header f0 "f0 # fs" st] obtain new rm where
      n: "stateOf (serverRow lib statusPath header f0 (f0 # fs) st) =
       st\<lparr>numberConnectedClient := numberConnectedClient st + (if f0 = ''CLIENT_LIST'' then 1 else 0),
          ch := ch st @ new, recordedMetrics := rm\<rparr>"
      "\<forall>m \<in> set new. length (m_labelValues m) = Suc (length (LabelColumns header)) \<and>
        hd (m_labelValues m) = statusPath \<and> m_desc m \<in> Desc ` set (Metrics header)"
      by blast
    from row(1) have "header \<in> ran (openvpnServerHeaders e)" by (auto simp: ran_def)
    with n(2) have "\<forall>m \<in> set new.
        (m_desc m = openvpnStatusUpdateTimeDesc e \<and> m_labelValues m = [statusPath]) \<or>
        (\<exists>header \<in> ran (openvpnServerHeaders e).
           m_desc m \<in> Desc ` set (Metrics header) \<and>
           length (m_labelValues m) = Suc (length (LabelColumns header)) \<and>
           hd (m_labelValues m) = statusPath)" by blast
    moreover have "ch (stateOf (serverLine lib e statusPath separator st line)) = ch st @ new"
      using row(2) n(1) by simp
    ultimately show ?thesis by blast
  qed
qed

subsection \<open>A row before its header, versions 2 and 3\<close>

lemma forScan_snoc_Return:
  assumes "forScan body st0 pre = Next st" "body st bad = Return st' err"
  shows "forScan body st0 (pre @ bad # post) = Return st' err"
  using assms by (simp add: forScan_append)

lemma forScan_Return_append:
  assumes "forScan body st0 pre = Return st err"
  shows "forScan body st0 (pre @ post) = Return st err"
  using assms by (simp add: forScan_append)

lemma forScan_invariant:
  assumes "P st" "\<And>s l. P s \<Longrightarrow> l \<in> set ls \<Longrightarrow> P (stateOf (body s l))"
  shows "P (stateOf (forScan body st ls))"
  using assms
proof (induction ls arbitrary: st)
  case Nil
  then show ?case by simp
next
  case (Cons l ls)
  have step: "P (stateOf (body st l))" using Cons.prems by simp
  show ?case
  proof (cases "body st l")
    case (Next st')
    with step have "P st'" by simp
    then have "P (stateOf (forScan body st' ls))"
      using Cons.prems(2) by (intro Cons.IH) auto
    with Next show ?thesis by simp
  next
    case (Break st')
    with step show ?thesis by simp
  next
    case (Return st' err)
    with step show ?thesis by simp
  qed
qed

lemma serverScan_headers:
  assumes "\<forall>l \<in> set ls. \<not> isHeaderFor separator section l"
  shows "headersFound (stateOf (forScan (serverLine lib e statusPath separator) st ls)) section =
           headersFound (st :: 'f scan_state) section"
proof (rule forScan_invariant[where P = "\<lambda>s. headersFound s section = headersFound st section"])
  show "headersFound st section = headersFound st section" ..
next
  fix s :: "'f scan_state" and l
  assume s: "headersFound s section = headersFound st section" and l: "l \<in> set ls"
  from l assms have "\<not> isHeaderFor separator section l" by blast
  then have "headersFound (stateOf (serverLine lib e statusPath separator s l)) section =
       headersFound s section"
    by (rule serverLine_headers)
  with s show "headersFound (stateOf (serverLine lib e statusPath separator s l)) section =
       headersFound st section" by simp
qed

lemma retOf_no_break: "retOf r \<noteq> Break s"
  by (cases r) (auto simp: retOf_def split: option.splits)

lemma serverRow_no_break: "serverRow lib statusPath header f0 row st \<noteq> Break s"
  by (auto simp: serverRow_def Let_def retOf_no_break split: option.splits)

lemma serverLine_no_break: "serverLine lib e statusPath separator st line \<noteq> Break s"
  by (auto simp: serverLine_def Let_def serverRow_no_break split: list.splits option.splits)

lemma forScan_no_break:
  assumes "\<And>s l s'. body s l \<noteq> Break s'"
  shows "forScan body st ls \<noteq> Break st'"
proof (induction ls arbitrary: st)
  case Nil
  show ?case by simp
next
  case (Cons l ls)
  show ?case using assms Cons by (cases "body st l") auto
qed

lemma New_headers:
  "openvpnServerHeaders (NewOpenVPNExporter paths ign) ''CLIENT_LIST'' = Some (clientListHeader ign)"
  "openvpnServerHeaders (NewOpenVPNExporter paths ign) ''ROUTING_TABLE'' = Some (routingTableHeader ign)"
  by (simp_all add: NewOpenVPNExporter_def)

lemma New_headers_dom:
  "openvpnServerHeaders (NewOpenVPNExporter paths ign) k = Some h \<Longrightarrow>
     (k = ''CLIENT_LIST'' \<and> h = clientListHeader ign) \<or> (k = ''ROUTING_TABLE'' \<and> h = routingTableHeader ign)"
  by (auto simp: NewOpenVPNExporter_def split: if_splits)

lemma serverLine_missing_header:
  assumes "firstFieldIs separator section line"
    and "section = ''CLIENT_LIST'' \<or> section = ''ROUTING_TABLE''"
    and "headersFound st section = None"
  shows "\<exists>st1. serverLine lib (NewOpenVPNExporter paths ign) statusPath separator st line =
           Return st1 (ShouldBePrecededByHeaders section)"
proof -
  from assms(1) obtain fs where sp: "strings_Split line separator = section # fs"
    by (auto simp: firstFieldIs_def split: list.splits)
  from assms(2) obtain h where h: "openvpnServerHeaders (NewOpenVPNExporter paths ign) section = Some h"
    using New_headers by blast
  from assms(2) have "serverLine lib (NewOpenVPNExporter paths ign) statusPath separator st line =
      serverRow lib statusPath h section (section # fs) st"
    using h by (auto simp: serverLine_def sp Let_def)
  moreover have "\<exists>st1. serverRow lib statusPath h section (section # fs) st =
      Return st1 (ShouldBePrecededByHeaders section)"
    using assms(3) by (auto simp: serverRow_def Let_def)
  ultimately show ?thesis by simp
qed

text \<open>
C5. In a version 2/3 document, let a line have \<^verbatim>\<open>CLIENT_LIST\<close> or
  \<^verbatim>\<open>ROUTING_TABLE\<close> as its first field, with no \<^verbatim>\<open>HEADER\<close> line for
  that section before it. Then the scan returns an error, never success;
  and when the lines before it are read without error, the error is the
  one that asks for headers and names the section.
\<close>

theorem missing_header_fails:
  assumes "ScanLines lib file = (pre @ line # post, scanErr)"
    and "section = ''CLIENT_LIST'' \<or> section = ''ROUTING_TABLE''"
    and "firstFieldIs separator section line"
    and "\<forall>l \<in> set pre. \<not> isHeaderFor separator section l"
  shows "snd (collectServerStatusFromReader lib (NewOpenVPNExporter paths ign) statusPath file separator) \<noteq> None \<and>
    (\<forall>st. forScan (serverLine lib (NewOpenVPNExporter paths ign) statusPath separator) initState pre = Next st \<longrightarrow>
       snd (collectServerStatusFromReader lib (NewOpenVPNExporter paths ign) statusPath file separator) =
         Some (ShouldBePrecededByHeaders section))"
proof -
  let ?body = "serverLine lib (NewOpenVPNExporter paths ign) statusPath separator"
  have reach: "snd (collectServerStatusFromReader lib (NewOpenVPNExporter paths ign) statusPath file separator) =
         Some (ShouldBePrecededByHeaders section)" if n: "forScan ?body initState pre = Next st" for st
  proof -
    have "headersFound (stateOf (forScan ?body initState pre)) section = None"
      using serverScan_headers[OF assms(4), of lib "NewOpenVPNExporter paths ign" statusPath initState]
      by (simp add: initState_def)
    with n have "headersFound st section = None" by simp
    with assms(2,3) obtain st1 where "?body st line = Return st1 (ShouldBePrecededByHeaders section)"
      using serverLine_missing_header by blast
    with n have "forScan ?body initState (pre @ line # post) = Return st1 (ShouldBePrecededByHeaders section)"
      by (rule forScan_snoc_Return)
    then show ?thesis
      by (simp add: collectServerStatusFromReader_def assms(1) finishServer_def)
  qed
  have "snd (collectServerStatusFromReader lib (NewOpenVPNExporter paths ign) statusPath file separator) \<noteq> None"
  proof (cases "forScan ?body initState pre")
    case (Next st)
    then show ?thesis using reach by simp
  next
    case (Break st)
    then show ?thesis
      using forScan_no_break[of ?body initState pre st] serverLine_no_break by blast
  next
    case (Return st err)
    then have "forScan ?body initState (pre @ line # post) = Return st err"
      by (rule forScan_Return_append)
    then show ?thesis
      by (simp add: collectServerStatusFromReader_def assms(1) finishServer_def)
  qed
  with reach show ?thesis by blast
qed


theorem missing_header_fails_witness:
  "snd (collectServerStatusFromReader demoLib (NewOpenVPNExporter [''p''] False) ''p''
          (unlines [''TITLE,x'', ''CLIENT_LIST,alice,5,7'']) '','') =
     Some (ShouldBePrecededByHeaders ''CLIENT_LIST'')"
proof -
  have a: "ScanLines demoLib (unlines [''TITLE,x'', ''CLIENT_LIST,alice,5,7'']) =
             ([''TITLE,x''] @ ''CLIENT_LIST,alice,5,7'' # [], None)"
    by (simp add: demo_defs strings_Split_def)
  have b: "firstFieldIs '','' ''CLIENT_LIST'' ''CLIENT_LIST,alice,5,7''"
    by (simp add: firstFieldIs_def strings_Split_def)
  have c: "\<forall>l \<in> set [''TITLE,x'']. \<not> isHeaderFor '','' ''CLIENT_LIST'' l"
    by (simp add: isHeaderFor_def strings_Split_def)
  have d: "forScan (serverLine demoLib (NewOpenVPNExporter [''p''] False) ''p'' '','') initState [''TITLE,x'']
             = Next initState"
    by (simp add: serverLine_def strings_Split_def)
  from missing_header_fails[OF a _ b c, of "[''p'']" False "''p''"] d show ?thesis by simp
qed

subsection \<open>What one line of a version 4 document does\<close>

lemma sectionTitle_titles:
  "sectionTitle st ''OpenVPN CLIENT LIST'' = Some (Next (st\<lparr>currentSection := ''CLIENT_LIST''\<rparr>))"
  "sectionTitle st ''ROUTING TABLE'' = Some (Next (st\<lparr>currentSection := ''ROUTING_TABLE''\<rparr>))"
  "sectionTitle st ''GLOBAL STATS'' = Some (Next (st\<lparr>currentSection := ''GLOBAL_STATS''\<rparr>))"
  "sectionTitle st ''END'' = Some (Break st)"
  by (simp_all add: sectionTitle_def)

lemma sectionTitle_other: "\<not> isTitleV4 line \<Longrightarrow> sectionTitle st line = None"
  by (simp add: sectionTitle_def isTitleV4_def)

lemma dataRowV4_shape:
  "\<exists>new rm. stateOf (dataRowV4 lib statusPath header section row st) =
       st\<lparr>ch := ch st @ new, recordedMetrics := rm\<rparr> \<and>
     (\<forall>m \<in> set new. length (m_labelValues m) = Suc (length (LabelColumns header)) \<and>
        hd (m_labelValues m) = statusPath \<and> m_desc m \<in> Desc ` set (Metrics header))"
proof -
  define cv where "cv = columnValuesV4 (lookupList (headersFound st) section) row"
  define labels where "labels = extractLabels statusPath (LabelColumns header) cv"
  have eq: "stateOf (dataRowV4 lib statusPath header section row st) =
          fst (exportMetrics lib (Metrics header) cv labels st)"
    by (simp add: dataRowV4_def Let_def cv_def labels_def)
  from exportMetrics_shape[of lib "Metrics header" cv labels st] obtain new rm where
    n: "fst (exportMetrics lib (Metrics header) cv labels st) = st\<lparr>ch := ch st @ new, recordedMetrics := rm\<rparr>"
    "\<forall>m \<in> set new. m_labelValues m = labels \<and> m_desc m \<in> Desc ` set (Metrics header)"
    by blast
  have "\<forall>m \<in> set new. length (m_labelValues m) = Suc (length (LabelColumns header)) \<and>
        hd (m_labelValues m) = statusPath \<and> m_desc m \<in> Desc ` set (Metrics header)"
    using n(2) by (simp add: labels_def extractLabels_def)
  with eq n(1) show ?thesis by metis
qed

lemma dataRowV4_no_header:
  "headersFound st section = None \<Longrightarrow> dataRowV4 lib statusPath header section row st = Next st"
  by (simp add: dataRowV4_def lookupList_def columnValuesV4_def retOf_def)

lemma dataRowV4_no_break: "dataRowV4 lib statusPath header section row st \<noteq> Break s"
  by (simp add: dataRowV4_def Let_def retOf_no_break)

lemma serverLineV4_cases:
  fixes st :: "'f scan_state_v4"
  obtains
    (empty) "line = []" "serverLineV4 lib e statusPath st line = Next st"
  | (title) "line \<noteq> []" "isTitleV4 line" "line \<noteq> ''END''"
      "serverLineV4 lib e statusPath st line =
         Next (st\<lparr>currentSection :=
           (if line = ''OpenVPN CLIENT LIST'' then ''CLIENT_LIST''
            else if line = ''ROUTING TABLE'' then ''ROUTING_TABLE'' else ''GLOBAL_STATS'')\<rparr>)"
  | (ending) "line = ''END''" "serverLineV4 lib e statusPath st line = Break st"
  | (client) "line \<noteq> []" "\<not> isTitleV4 line" "currentSection st = ''CLIENT_LIST''"
      "serverLineV4 lib e statusPath st line =
         clientListLineV4 lib e statusPath st line (strings_Split line '','')"
  | (routing) "line \<noteq> []" "\<not> isTitleV4 line" "currentSection st = ''ROUTING_TABLE''"
      "serverLineV4 lib e statusPath st line =
         routingTableLineV4 lib e statusPath st line (strings_Split line '','')"
  | (other) "line \<noteq> []" "\<not> isTitleV4 line" "currentSection st \<noteq> ''CLIENT_LIST''"
      "currentSection st \<noteq> ''ROUTING_TABLE''" "serverLineV4 lib e statusPath st line = Next st"
proof -
  consider (a) "line = []" | (b) "line = ''OpenVPN CLIENT LIST''" | (c) "line = ''ROUTING TABLE''"
    | (d) "line = ''GLOBAL STATS''" | (e) "line = ''END''" | (f) "line \<noteq> []" "\<not> isTitleV4 line"
    by (auto simp: isTitleV4_def)
  then show thesis
  proof cases
    case a
    then show ?thesis using empty by (simp add: serverLineV4_def)
  next
    case b
    then show ?thesis using title by (simp add: serverLineV4_def sectionTitle_titles isTitleV4_def)
  next
    case c
    then show ?thesis using title by (simp add: serverLineV4_def sectionTitle_titles isTitleV4_def)
  next
    case d
    then show ?thesis using title by (simp add: serverLineV4_def sectionTitle_titles isTitleV4_def)
  next
    case e
    then show ?thesis using ending by (simp add: serverLineV4_def sectionTitle_titles)
  next
    case f
    then have u: "serverLineV4 lib e statusPath st line =
        (if currentSection st = ''CLIENT_LIST''
         then clientListLineV4 lib e statusPath st line (strings_Split line '','')
         else if currentSection st = ''ROUTING_TABLE''
         then routingTableLineV4 lib e statusPath st line (strings_Split line '','')
         else Next st)"
      by (simp add: serverLineV4_def sectionTitle_other Let_def)
    show ?thesis
    proof (cases "currentSection st = ''CLIENT_LIST''")
      case True
      with u f client show ?thesis by simp
    next
      case False
      show ?thesis
      proof (cases "currentSection st = ''ROUTING_TABLE''")
        case True
        with u f False routing show ?thesis by simp
      next
        case nr: False
        with u f False other show ?thesis by simp
      qed
    qed
  qed
qed


lemma clientListLineV4_shape:
  fixes st :: "'f scan_state_v4"
  shows "\<exists>hf new rm. stateOf (clientListLineV4 lib e statusPath st line row) =
       st\<lparr>headersFound := hf,
          numberConnectedClient := numberConnectedClient st +
            (if \<not> prefix ''Updated,'' line \<and> \<not> prefix ''Common Name,'' line \<and>
                openvpnServerHeaders e ''CLIENT_LIST'' \<noteq> None then 1 else 0),
          ch := ch st @ new, recordedMetrics := rm\<rparr> \<and>
     (\<forall>m \<in> set new.
        (m_desc m = openvpnStatusUpdateTimeDesc e \<and> m_labelValues m = [statusPath]) \<or>
        (\<exists>header \<in> ran (openvpnServerHeaders e).
           m_desc m \<in> Desc ` set (Metrics header) \<and>
           length (m_labelValues m) = Suc (length (LabelColumns header)) \<and>
           hd (m_labelValues m) = statusPath))"
proof -
  let ?r = "clientListLineV4 lib e statusPath st line row"
  let ?P = "\<lambda>m. (m_desc m = openvpnStatusUpdateTimeDesc e \<and> m_labelValues m = [statusPath]) \<or>
        (\<exists>header \<in> ran (openvpnServerHeaders e).
           m_desc m \<in> Desc ` set (Metrics header) \<and>
           length (m_labelValues m) = Suc (length (LabelColumns header)) \<and>
           hd (m_labelValues m) = statusPath)"
  have same: ?thesis if "stateOf ?r = st"
    "prefix ''Updated,'' line \<or> prefix ''Common Name,'' line \<or> openvpnServerHeaders e ''CLIENT_LIST'' = None"
  proof -
    have "stateOf ?r = st\<lparr>headersFound := headersFound st,
          numberConnectedClient := numberConnectedClient st +
            (if \<not> prefix ''Updated,'' line \<and> \<not> prefix ''Common Name,'' line \<and>
                openvpnServerHeaders e ''CLIENT_LIST'' \<noteq> None then 1 else 0),
          ch := ch st @ [], recordedMetrics := recordedMetrics st\<rparr>"
      using that by auto
    moreover have "\<forall>m \<in> set []. ?P m" by simp
    ultimately show ?thesis by blast
  qed
  consider (u) "prefix ''Updated,'' line"
    | (h) "\<not> prefix ''Updated,'' line" "prefix ''Common Name,'' line"
    | (r) "\<not> prefix ''Updated,'' line" "\<not> prefix ''Common Name,'' line"
    by blast
  then show ?thesis
  proof cases
    case u
    show ?thesis
    proof (cases "\<exists>f0 timeStr rest. row = f0 # timeStr # rest")
      case False
      then have "?r = Return st (RuntimePanic ''index out of range'')"
        using u by (auto simp: clientListLineV4_def HasPrefix_def split: list.splits)
      then show ?thesis using same u by simp
    next
      case True
      then obtain f0 timeStr rest where row: "row = f0 # timeStr # rest" by blast
      show ?thesis
      proof (cases "parseTime lib timeStr")
        case (Inl err)
        then have "?r = Return st err"
          using u row by (simp add: clientListLineV4_def HasPrefix_def)
        then show ?thesis using same u by simp
      next
        case (Inr t)
        let ?m = "MustNewConstMetric (openvpnStatusUpdateTimeDesc e) GaugeValue
                       (float64 lib t) [statusPath]"
        from Inr have "?r = Next (st\<lparr>ch := ch st @ [?m]\<rparr>)"
          using u row by (simp add: clientListLineV4_def HasPrefix_def)
        then have "stateOf ?r = st\<lparr>headersFound := headersFound st,
          numberConnectedClient := numberConnectedClient st +
            (if \<not> prefix ''Updated,'' line \<and> \<not> prefix ''Common Name,'' line \<and>
                openvpnServerHeaders e ''CLIENT_LIST'' \<noteq> None then 1 else 0),
          ch := ch st @ [?m], recordedMetrics := recordedMetrics st\<rparr>"
          using u by simp
        moreover have "\<forall>m \<in> set [?m]. ?P m" by (simp add: MustNewConstMetric_def)
        ultimately show ?thesis by blast
      qed
    qed
  next
    case h
    then have "?r = Next (st\<lparr>headersFound := (headersFound st)(''CLIENT_LIST'' \<mapsto> row)\<rparr>)"
      by (simp add: clientListLineV4_def HasPrefix_def)
    then have "stateOf ?r = st\<lparr>headersFound := (headersFound st)(''CLIENT_LIST'' \<mapsto> row),
          numberConnectedClient := numberConnectedClient st +
            (if \<not> prefix ''Updated,'' line \<and> \<not> prefix ''Common Name,'' line \<and>
                openvpnServerHeaders e ''CLIENT_LIST'' \<noteq> None then 1 else 0),
          ch := ch st @ [], recordedMetrics := recordedMetrics st\<rparr>"
      using h by simp
    moreover have "\<forall>m \<in> set []. ?P m" by simp
    ultimately show ?thesis by blast
  next
    case r
    show ?thesis
    proof (cases "openvpnServerHeaders e ''CLIENT_LIST''")
      case None
      then have "?r = Next st" using r by (simp add: clientListLineV4_def HasPrefix_def)
      then show ?thesis using same None by simp
    next
      case (Some header)
      let ?st1 = "st\<lparr>numberConnectedClient := numberConnectedClient st + 1\<rparr>"
      from Some r have eq: "?r = dataRowV4 lib statusPath header ''CLIENT_LIST'' row ?st1"
        by (simp add: clientListLineV4_def HasPrefix_def)
      from dataRowV4_shape[of lib statusPath header "''CLIENT_LIST''" row ?st1] obtain new rm where
        n: "stateOf (dataRowV4 lib statusPath header ''CLIENT_LIST'' row ?st1) =
              ?st1\<lparr>ch := ch ?st1 @ new, recordedMetrics := rm\<rparr>"
           "\<forall>m \<in> set new. length (m_labelValues m) = Suc (length (LabelColumns header)) \<and>
              hd (m_labelValues m) = statusPath \<and> m_desc m \<in> Desc ` set (Metrics header)"
        by blast
      from Some have "header \<in> ran (openvpnServerHeaders e)" by (auto simp: ran_def)
      with n(2) have "\<forall>m \<in> set new. ?P m" by blast
      moreover have "stateOf ?r = st\<lparr>headersFound := headersFound st,
          numberConnectedClient := numberConnectedClient st +
            (if \<not> prefix ''Updated,'' line \<and> \<not> prefix ''Common Name,'' line \<and>
                openvpnServerHeaders e ''CLIENT_LIST'' \<noteq> None then 1 else 0),
          ch := ch st @ new, recordedMetrics := rm\<rparr>"
        unfolding eq n(1) using r Some by simp
      ultimately show ?thesis by blast
    qed
  qed
qed

lemma clientListLineV4_no_break: "clientListLineV4 lib e statusPath st line row \<noteq> Break s"
  by (auto simp: clientListLineV4_def dataRowV4_no_break split: list.splits sum.splits option.splits)

lemma routingTableLineV4_shape:
  fixes st :: "'f scan_state_v4"
  shows "\<exists>hf new rm. stateOf (routingTableLineV4 lib e statusPath st line row) =
       st\<lparr>headersFound := hf, ch := ch st @ new, recordedMetrics := rm\<rparr> \<and>
     (\<forall>m \<in> set new.
        (\<exists>header \<in> ran (openvpnServerHeaders e).
           m_desc m \<in> Desc ` set (Metrics header) \<and>
           length (m_labelValues m) = Suc (length (LabelColumns header)) \<and>
           hd (m_labelValues m) = statusPath))"
proof -
  let ?r = "routingTableLineV4 lib e statusPath st line row"
  have triv: "st = st\<lparr>headersFound := headersFound st, ch := ch st @ [],
                       recordedMetrics := recordedMetrics st\<rparr>" by simp
  show ?thesis
  proof (cases "prefix ''Virtual Address,'' line")
    case True
    then have "?r = Next (st\<lparr>headersFound := (headersFound st)(''ROUTING_TABLE'' \<mapsto> row)\<rparr>)"
      by (simp add: routingTableLineV4_def HasPrefix_def)
    then have "stateOf ?r = st\<lparr>headersFound := (headersFound st)(''ROUTING_TABLE'' \<mapsto> row),
          ch := ch st @ [], recordedMetrics := recordedMetrics st\<rparr>"
      by simp
    then show ?thesis by (metis empty_iff empty_set)
  next
    case False
    show ?thesis
    proof (cases "openvpnServerHeaders e ''ROUTING_TABLE''")
      case None
      then have "stateOf ?r = st" using False by (simp add: routingTableLineV4_def HasPrefix_def)
      with triv show ?thesis by (metis empty_iff empty_set)
    next
      case (Some header)
      from Some False have eq: "?r = dataRowV4 lib statusPath header ''ROUTING_TABLE'' row st"
        by (simp add: routingTableLineV4_def HasPrefix_def)
      from dataRowV4_shape[of lib statusPath header "''ROUTING_TABLE''" row st] obtain new rm where
        n: "stateOf (dataRowV4 lib statusPath header ''ROUTING_TABLE'' row st) =
              st\<lparr>ch := ch st @ new, recordedMetrics := rm\<rparr>"
           "\<forall>m \<in> set new. length (m_labelValues m) = Suc (length (LabelColumns header)) \<and>
              hd (m_labelValues m) = statusPath \<and> m_desc m \<in> Desc ` set (Metrics header)"
        by blast
      from Some have "header \<in> ran (openvpnServerHeaders e)" by (auto simp: ran_def)
      with n(2) have "\<forall>m \<in> set new. (\<exists>header \<in> ran (openvpnServerHeaders e).
           m_desc m \<in> Desc ` set (Metrics header) \<and>
           length (m_labelValues m) = Suc (length (LabelColumns header)) \<and>
           hd (m_labelValues m) = statusPath)" by blast
      moreover have "stateOf ?r = st\<lparr>headersFound := headersFound st,
          ch := ch st @ new, recordedMetrics := rm\<rparr>"
        unfolding eq n(1) by simp
      ultimately show ?thesis by blast
    qed
  qed
qed

lemma routingTableLineV4_no_break: "routingTableLineV4 lib e statusPath st line row \<noteq> Break s"
  by (auto simp: routingTableLineV4_def dataRowV4_no_break split: option.splits)


lemma serverLineV4_counter:
  fixes st :: "'f scan_state_v4"
  shows "numberConnectedClient (stateOf (serverLineV4 lib e statusPath st line)) =
     numberConnectedClient st +
       (if currentSection st = ''CLIENT_LIST'' \<and> isClientRowV4 line \<and>
           openvpnServerHeaders e ''CLIENT_LIST'' \<noteq> None then 1 else 0)"
proof (cases rule: serverLineV4_cases[of line lib e statusPath st])
  case empty
  then show ?thesis by (simp add: isClientRowV4_def)
next
  case title
  then show ?thesis by (simp add: isClientRowV4_def)
next
  case ending
  then show ?thesis by (simp add: isClientRowV4_def isTitleV4_def)
next
  case client
  from clientListLineV4_shape[of lib e statusPath st line "strings_Split line '',''"] client
  show ?thesis by (auto simp: isClientRowV4_def)
next
  case routing
  from routingTableLineV4_shape[of lib e statusPath st line "strings_Split line '',''"] routing
  show ?thesis by auto
next
  case other
  then show ?thesis by simp
qed

lemma serverLineV4_section:
  fixes st :: "'f scan_state_v4"
  shows "currentSection (stateOf (serverLineV4 lib e statusPath st line)) =
     (if line = ''OpenVPN CLIENT LIST'' then ''CLIENT_LIST''
      else if line = ''ROUTING TABLE'' then ''ROUTING_TABLE''
      else if line = ''GLOBAL STATS'' then ''GLOBAL_STATS''
      else currentSection st)"
proof (cases rule: serverLineV4_cases[of line lib e statusPath st])
  case empty
  then show ?thesis by simp
next
  case title
  then show ?thesis by (auto simp: isTitleV4_def)
next
  case ending
  then show ?thesis by simp
next
  case client
  from clientListLineV4_shape[of lib e statusPath st line "strings_Split line '',''"] client
  show ?thesis by (auto simp: isTitleV4_def)
next
  case routing
  from routingTableLineV4_shape[of lib e statusPath st line "strings_Split line '',''"] routing
  show ?thesis by (auto simp: isTitleV4_def)
next
  case other
  then show ?thesis by (simp add: isTitleV4_def)
qed

lemma serverLineV4_break:
  fixes st :: "'f scan_state_v4"
  shows "(\<exists>s. serverLineV4 lib e statusPath st line = Break s) \<longleftrightarrow> line = ''END''"
proof (cases rule: serverLineV4_cases[of line lib e statusPath st])
  case empty
  then show ?thesis by simp
next
  case title
  then show ?thesis by simp
next
  case ending
  then show ?thesis by simp
next
  case client
  then show ?thesis by (simp add: clientListLineV4_no_break isTitleV4_def)
next
  case routing
  then show ?thesis by (simp add: routingTableLineV4_no_break isTitleV4_def)
next
  case other
  then show ?thesis by (simp add: isTitleV4_def)
qed

lemma serverLineV4_sent:
  fixes st :: "'f scan_state_v4"
  shows "\<exists>new. ch (stateOf (serverLineV4 lib e statusPath st line)) = ch st @ new \<and>
     (\<forall>m \<in> set new.
        (m_desc m = openvpnStatusUpdateTimeDesc e \<and> m_labelValues m = [statusPath]) \<or>
        (\<exists>header \<in> ran (openvpnServerHeaders e).
           m_desc m \<in> Desc ` set (Metrics header) \<and>
           length (m_labelValues m) = Suc (length (LabelColumns header)) \<and>
           hd (m_labelValues m) = statusPath))"
proof (cases rule: serverLineV4_cases[of line lib e statusPath st])
  case empty
  then show ?thesis by simp
next
  case title
  then show ?thesis by simp
next
  case ending
  then show ?thesis by simp
next
  case client
  from clientListLineV4_shape[of lib e statusPath st line "strings_Split line '',''"]
  obtain hf new rm where
    n: "stateOf (clientListLineV4 lib e statusPath st line (strings_Split line '','')) =
       st\<lparr>headersFound := hf,
          numberConnectedClient := numberConnectedClient st +
            (if \<not> prefix ''Updated,'' line \<and> \<not> prefix ''Common Name,'' line \<and>
                openvpnServerHeaders e ''CLIENT_LIST'' \<noteq> None then 1 else 0),
          ch := ch st @ new, recordedMetrics := rm\<rparr>"
     "\<forall>m \<in> set new.
        (m_desc m = openvpnStatusUpdateTimeDesc e \<and> m_labelValues m = [statusPath]) \<or>
        (\<exists>header \<in> ran (openvpnServerHeaders e).
           m_desc m \<in> Desc ` set (Metrics header) \<and>
           length (m_labelValues m) = Suc (length (LabelColumns header)) \<and>
           hd (m_labelValues m) = statusPath)"
    by blast
  have "ch (stateOf (serverLineV4 lib e statusPath st line)) = ch st @ new"
    unfolding client(4) n(1) by simp
  with n(2) show ?thesis by blast
next
  case routing
  from routingTableLineV4_shape[of lib e statusPath st line "strings_Split line '',''"]
  obtain hf new rm where
    n: "stateOf (routingTableLineV4 lib e statusPath st line (strings_Split line '','')) =
       st\<lparr>headersFound := hf, ch := ch st @ new, recordedMetrics := rm\<rparr>"
     "\<forall>m \<in> set new.
        (\<exists>header \<in> ran (openvpnServerHeaders e).
           m_desc m \<in> Desc ` set (Metrics header) \<and>
           length (m_labelValues m) = Suc (length (LabelColumns header)) \<and>
           hd (m_labelValues m) = statusPath)"
    by blast
  have "ch (stateOf (serverLineV4 lib e statusPath st line)) = ch st @ new"
    unfolding routing(4) n(1) by simp
  with n(2) show ?thesis by blast
next
  case other
  then show ?thesis by simp
qed

subsection \<open>A row before its header, version 4\<close>

lemmas v4_defs = strings_Split_def serverLineV4_def sectionTitle_def clientListLineV4_def
  routingTableLineV4_def dataRowV4_def columnValuesV4_def parseTime_def HasPrefix_def
  extractLabels_def lookupStr_def lookupList_def retOf_def subslice_def MustNewConstMetric_def
  initStateV4_def finishServer_def connectedClientsMetric_def collectServerStatusFromReaderV4_def

lemma clientRowV4_without_header:
  fixes st :: "'f scan_state_v4"
  assumes "currentSection st = ''CLIENT_LIST''" "headersFound st ''CLIENT_LIST'' = None"
    "isClientRowV4 line"
  shows "serverLineV4 lib (NewOpenVPNExporter paths ign) statusPath st line =
           Next (st\<lparr>numberConnectedClient := numberConnectedClient st + 1\<rparr>)"
proof (cases rule: serverLineV4_cases[of line lib "NewOpenVPNExporter paths ign" statusPath st])
  case client
  let ?st1 = "st\<lparr>numberConnectedClient := numberConnectedClient st + 1\<rparr>"
  from assms(3) have "clientListLineV4 lib (NewOpenVPNExporter paths ign) statusPath st line
      (strings_Split line '','') =
    dataRowV4 lib statusPath (clientListHeader ign) ''CLIENT_LIST'' (strings_Split line '','') ?st1"
    by (simp add: clientListLineV4_def HasPrefix_def isClientRowV4_def New_headers)
  also have "\<dots> = Next ?st1"
    using assms(2) by (simp add: dataRowV4_no_header)
  finally show ?thesis using client by simp
qed (use assms in \<open>auto simp: isClientRowV4_def isTitleV4_def\<close>)

lemma routingRowV4_without_header:
  fixes st :: "'f scan_state_v4"
  assumes "currentSection st = ''ROUTING_TABLE''" "headersFound st ''ROUTING_TABLE'' = None"
    "isRoutingRowV4 line"
  shows "serverLineV4 lib (NewOpenVPNExporter paths ign) statusPath st line = Next st"
proof (cases rule: serverLineV4_cases[of line lib "NewOpenVPNExporter paths ign" statusPath st])
  case routing
  from assms(3) have "routingTableLineV4 lib (NewOpenVPNExporter paths ign) statusPath st line
      (strings_Split line '','') =
    dataRowV4 lib statusPath (routingTableHeader ign) ''ROUTING_TABLE'' (strings_Split line '','') st"
    by (simp add: routingTableLineV4_def HasPrefix_def isRoutingRowV4_def New_headers)
  also have "\<dots> = Next st"
    using assms(2) by (simp add: dataRowV4_no_header)
  finally show ?thesis using routing by simp
qed (use assms in \<open>auto simp: isRoutingRowV4_def isTitleV4_def\<close>)

text \<open>
C6. In a version 4 document, a data row of the client list read while
  no header of the client list is stored sends nothing and raises no
  error: the loop goes on to the next line, the state unchanged but for
  the counter of clients. The same holds for a data row of the routing
  table without a stored header, which leaves the state as it is. (The
  version 2/3 parser fails in this situation, see C5.)
\<close>

theorem v4_row_without_header:
  fixes st :: "'f scan_state_v4"
  shows "(currentSection st = ''CLIENT_LIST'' \<and> headersFound st ''CLIENT_LIST'' = None \<and>
      isClientRowV4 line \<longrightarrow>
        serverLineV4 lib (NewOpenVPNExporter paths ign) statusPath st line =
          Next (st\<lparr>numberConnectedClient := numberConnectedClient st + 1\<rparr>)) \<and>
     (currentSection st = ''ROUTING_TABLE'' \<and> headersFound st ''ROUTING_TABLE'' = None \<and>
      isRoutingRowV4 line \<longrightarrow>
        serverLineV4 lib (NewOpenVPNExporter paths ign) statusPath st line = Next st)"
  using clientRowV4_without_header routingRowV4_without_header by blast

theorem v4_row_without_header_witness:
  "serverLineV4 demoLib (NewOpenVPNExporter [''p''] False) ''p''
      (initStateV4\<lparr>currentSection := ''CLIENT_LIST''\<rparr>) ''alice,1.2.3.4:5,10,20'' =
     Next (initStateV4\<lparr>currentSection := ''CLIENT_LIST'', numberConnectedClient := 1\<rparr>) \<and>
   serverLineV4 demoLib (NewOpenVPNExporter [''p''] False) ''p''
      (initStateV4\<lparr>currentSection := ''ROUTING_TABLE''\<rparr>) ''10.8.0.2,alice,1.2.3.4:5'' =
     Next (initStateV4\<lparr>currentSection := ''ROUTING_TABLE''\<rparr>) \<and>
   collectServerStatusFromReaderV4 demoLib (NewOpenVPNExporter [''p''] False) ''p''
      (unlines [''OpenVPN CLIENT LIST'', ''alice,1.2.3.4:5,10,20'', ''ROUTING TABLE'',
                ''10.8.0.2,alice,1.2.3.4:5'', ''GLOBAL STATS'', ''END'']) =
     ([connectedClientsMetric demoLib (NewOpenVPNExporter [''p''] False) ''p'' 1], None)"
proof (intro conjI)
  have c: "currentSection ((initStateV4 :: real scan_state_v4)\<lparr>currentSection := ''CLIENT_LIST''\<rparr>) = ''CLIENT_LIST'' \<and>
        headersFound ((initStateV4 :: real scan_state_v4)\<lparr>currentSection := ''CLIENT_LIST''\<rparr>) ''CLIENT_LIST'' = None \<and>
        isClientRowV4 ''alice,1.2.3.4:5,10,20''"
    by (simp add: initStateV4_def isClientRowV4_def isTitleV4_def)
  with v4_row_without_header[of "(initStateV4 :: real scan_state_v4)\<lparr>currentSection := ''CLIENT_LIST''\<rparr>"
      "''alice,1.2.3.4:5,10,20''" demoLib "[''p'']" False "''p''"]
  show "serverLineV4 demoLib (NewOpenVPNExporter [''p''] False) ''p''
      ((initStateV4 :: real scan_state_v4)\<lparr>currentSection := ''CLIENT_LIST''\<rparr>) ''alice,1.2.3.4:5,10,20'' =
     Next ((initStateV4 :: real scan_state_v4)\<lparr>currentSection := ''CLIENT_LIST'', numberConnectedClient := 1\<rparr>)"
    by (simp add: initStateV4_def)
  have r: "currentSection ((initStateV4 :: real scan_state_v4)\<lparr>currentSection := ''ROUTING_TABLE''\<rparr>) = ''ROUTING_TABLE'' \<and>
        headersFound ((initStateV4 :: real scan_state_v4)\<lparr>currentSection := ''ROUTING_TABLE''\<rparr>) ''ROUTING_TABLE'' = None \<and>
        isRoutingRowV4 ''10.8.0.2,alice,1.2.3.4:5''"
    by (simp add: initStateV4_def isRoutingRowV4_def isTitleV4_def)
  with v4_row_without_header[of "(initStateV4 :: real scan_state_v4)\<lparr>currentSection := ''ROUTING_TABLE''\<rparr>"
      "''10.8.0.2,alice,1.2.3.4:5''" demoLib "[''p'']" False "''p''"]
  show "serverLineV4 demoLib (NewOpenVPNExporter [''p''] False) ''p''
      ((initStateV4 :: real scan_state_v4)\<lparr>currentSection := ''ROUTING_TABLE''\<rparr>) ''10.8.0.2,alice,1.2.3.4:5'' =
     Next ((initStateV4 :: real scan_state_v4)\<lparr>currentSection := ''ROUTING_TABLE''\<rparr>)"
    by simp
  have l: "ScanLines demoLib (unlines [''OpenVPN CLIENT LIST'', ''alice,1.2.3.4:5,10,20'', ''ROUTING TABLE'',
                ''10.8.0.2,alice,1.2.3.4:5'', ''GLOBAL STATS'', ''END'']) =
     ([''OpenVPN CLIENT LIST'', ''alice,1.2.3.4:5,10,20'', ''ROUTING TABLE'',
                ''10.8.0.2,alice,1.2.3.4:5'', ''GLOBAL STATS'', ''END''], None)"
    by (simp add: demo_defs strings_Split_def)
  show "collectServerStatusFromReaderV4 demoLib (NewOpenVPNExporter [''p''] False) ''p''
      (unlines [''OpenVPN CLIENT LIST'', ''alice,1.2.3.4:5,10,20'', ''ROUTING TABLE'',
                ''10.8.0.2,alice,1.2.3.4:5'', ''GLOBAL STATS'', ''END'']) =
     ([connectedClientsMetric demoLib (NewOpenVPNExporter [''p''] False) ''p'' 1], None)"
    unfolding collectServerStatusFromReaderV4_def l
    by (simp add: v4_defs New_headers clientListHeader_def routingTableHeader_def Let_def)
qed

subsection \<open>The client counter of version 4, and empty lines\<close>

lemma clientRowsV4_without_header:
  fixes st :: "'f scan_state_v4"
  assumes "currentSection st = ''CLIENT_LIST''" "headersFound st ''CLIENT_LIST'' = None"
    "\<forall>r \<in> set rows. isClientRowV4 r"
  shows "forScan (serverLineV4 lib (NewOpenVPNExporter paths ign) statusPath) st rows =
           Next (st\<lparr>numberConnectedClient := numberConnectedClient st + int (length rows)\<rparr>)"
  using assms
proof (induction rows arbitrary: st)
  case Nil
  then show ?case by simp
next
  case (Cons r rows)
  let ?st1 = "st\<lparr>numberConnectedClient := numberConnectedClient st + 1\<rparr>"
  from Cons.prems have "serverLineV4 lib (NewOpenVPNExporter paths ign) statusPath st r = Next ?st1"
    by (intro clientRowV4_without_header) auto
  moreover have "forScan (serverLineV4 lib (NewOpenVPNExporter paths ign) statusPath) ?st1 rows =
           Next (?st1\<lparr>numberConnectedClient := numberConnectedClient ?st1 + int (length rows)\<rparr>)"
    using Cons.prems by (intro Cons.IH) auto
  ultimately show ?case by (simp add: add.assoc)
qed

text \<open>
C9. In the version 4 parser every data row of the client list, that is
  every line of that section that is not empty, not a section title, and
  starts neither with \<^verbatim>\<open>Updated,\<close> nor with \<^verbatim>\<open>Common Name,\<close>,
  adds one to the counter of connected clients, whatever else the row
  does and whether a header is stored or not. So a document that is the
  title of the client list followed by data rows only, with no header,
  sends one single metric: the gauge of the connected clients, with the
  number of the rows, none of which produced a metric of its own.
\<close>

theorem v4_counts_rows_without_metrics:
  fixes st :: "'f scan_state_v4"
  shows "(currentSection st = ''CLIENT_LIST'' \<and> isClientRowV4 line \<longrightarrow>
        numberConnectedClient
          (stateOf (serverLineV4 lib (NewOpenVPNExporter paths ign) statusPath st line)) =
        numberConnectedClient st + 1) \<and>
     (ScanLines lib file = (''OpenVPN CLIENT LIST'' # rows, scanErr) \<and>
      (\<forall>r \<in> set rows. isClientRowV4 r) \<longrightarrow>
        collectServerStatusFromReaderV4 lib (NewOpenVPNExporter paths ign) statusPath file =
          ([connectedClientsMetric lib (NewOpenVPNExporter paths ign) statusPath (int (length rows))],
           scanErr))"
proof (intro conjI impI)
  assume "currentSection st = ''CLIENT_LIST'' \<and> isClientRowV4 line"
  then show "numberConnectedClient
          (stateOf (serverLineV4 lib (NewOpenVPNExporter paths ign) statusPath st line)) =
        numberConnectedClient st + 1"
    by (simp add: serverLineV4_counter New_headers)
next
  assume a: "ScanLines lib file = (''OpenVPN CLIENT LIST'' # rows, scanErr) \<and>
      (\<forall>r \<in> set rows. isClientRowV4 r)"
  let ?body = "serverLineV4 lib (NewOpenVPNExporter paths ign) statusPath"
  let ?st = "(initStateV4 :: 'f scan_state_v4)\<lparr>currentSection := ''CLIENT_LIST''\<rparr>"
  have "?body initStateV4 ''OpenVPN CLIENT LIST'' = Next ?st"
    by (simp add: serverLineV4_def sectionTitle_titles)
  moreover have "forScan ?body ?st rows =
      Next (?st\<lparr>numberConnectedClient := numberConnectedClient ?st + int (length rows)\<rparr>)"
    using a by (intro clientRowsV4_without_header) (auto simp: initStateV4_def)
  ultimately have "forScan ?body initStateV4 (''OpenVPN CLIENT LIST'' # rows) =
      Next (?st\<lparr>numberConnectedClient := numberConnectedClient ?st + int (length rows)\<rparr>)"
    by simp
  then show "collectServerStatusFromReaderV4 lib (NewOpenVPNExporter paths ign) statusPath file =
          ([connectedClientsMetric lib (NewOpenVPNExporter paths ign) statusPath (int (length rows))],
           scanErr)"
    using a by (simp add: collectServerStatusFromReaderV4_def finishServer_def initStateV4_def)
qed

theorem v4_counts_rows_without_metrics_witness:
  "numberConnectedClient (stateOf (serverLineV4 demoLib (NewOpenVPNExporter [''p''] False) ''p''
      ((initStateV4 :: real scan_state_v4)\<lparr>currentSection := ''CLIENT_LIST''\<rparr>) ''alice,1.2.3.4:5,10,20'')) = 1 \<and>
   collectServerStatusFromReaderV4 demoLib (NewOpenVPNExporter [''p''] False) ''p''
      (unlines [''OpenVPN CLIENT LIST'', ''alice,1.2.3.4:5,10,20'', ''bob,1.2.3.4:6,30,40'']) =
     ([connectedClientsMetric demoLib (NewOpenVPNExporter [''p''] False) ''p'' 2], None)"
proof -
  have l: "ScanLines demoLib (unlines [''OpenVPN CLIENT LIST'', ''alice,1.2.3.4:5,10,20'', ''bob,1.2.3.4:6,30,40'']) =
     (''OpenVPN CLIENT LIST'' # [''alice,1.2.3.4:5,10,20'', ''bob,1.2.3.4:6,30,40''], None)"
    by (simp add: demo_defs strings_Split_def)
  have r: "\<forall>r \<in> set [''alice,1.2.3.4:5,10,20'', ''bob,1.2.3.4:6,30,40'']. isClientRowV4 r"
    by (simp add: isClientRowV4_def isTitleV4_def)
  have c: "currentSection ((initStateV4 :: real scan_state_v4)\<lparr>currentSection := ''CLIENT_LIST''\<rparr>) = ''CLIENT_LIST'' \<and>
        isClientRowV4 ''alice,1.2.3.4:5,10,20''"
    by (simp add: isClientRowV4_def isTitleV4_def)
  from v4_counts_rows_without_metrics[of
      "(initStateV4 :: real scan_state_v4)\<lparr>currentSection := ''CLIENT_LIST''\<rparr>"
      "''alice,1.2.3.4:5,10,20''" demoLib "[''p'']" False "''p''"
      "unlines [''OpenVPN CLIENT LIST'', ''alice,1.2.3.4:5,10,20'', ''bob,1.2.3.4:6,30,40'']"
      "[''alice,1.2.3.4:5,10,20'', ''bob,1.2.3.4:6,30,40'']" None] l r c
  show ?thesis by (simp add: initStateV4_def)
qed

lemma split_empty: "separator \<noteq> [] \<Longrightarrow> strings_Split [] separator = [[]]"
  by (simp add: strings_Split_def)

lemma serverLine_empty:
  assumes "separator \<noteq> []"
  shows "serverLine lib (NewOpenVPNExporter paths ign) statusPath separator st [] =
           Return st (UnsupportedKey [])"
  using assms by (simp add: serverLine_def split_empty NewOpenVPNExporter_def)

lemma serverScanV4_skips_empty:
  "forScan (serverLineV4 lib e statusPath) st (filter (\<lambda>l. l \<noteq> []) ls) =
   forScan (serverLineV4 lib e statusPath) st ls"
proof (induction ls arbitrary: st)
  case Nil
  show ?case by simp
next
  case (Cons l ls)
  show ?case
  proof (cases "l = []")
    case True
    then have "serverLineV4 lib e statusPath st l = Next st" by (simp add: serverLineV4_def)
    with True Cons show ?thesis by simp
  next
    case False
    with Cons show ?thesis by (simp split: ctl.splits)
  qed
qed

text \<open>
C10. In the version 2/3 parser an empty line makes the scan fail: the
  scan of a document with an empty line never succeeds, and when the
  lines before the empty one are read without error the error is the
  unsupported key with the empty string as the key. The version 4 parser
  skips empty lines: removing them from a document does not change the
  result of the scan. The last two conjuncts are a version 2 document
  that scans with success and the same document with one empty line
  added, which fails.
\<close>

theorem empty_line_v23_fails_v4_skips:
  "(ScanLines lib file = (pre @ [] # post, scanErr) \<and> separator \<noteq> [] \<longrightarrow>
      snd (collectServerStatusFromReader lib (NewOpenVPNExporter paths ign) statusPath file separator) \<noteq> None \<and>
      (\<forall>st. forScan (serverLine lib (NewOpenVPNExporter paths ign) statusPath separator) initState pre = Next st \<longrightarrow>
         collectServerStatusFromReader lib (NewOpenVPNExporter paths ign) statusPath file separator =
           (ch st, Some (UnsupportedKey [])))) \<and>
   (ScanLines lib doc = (ls, scanErr) \<and> ScanLines lib doc' = (filter (\<lambda>l. l \<noteq> []) ls, scanErr) \<longrightarrow>
      collectServerStatusFromReaderV4 lib e statusPath doc' =
      collectServerStatusFromReaderV4 lib e statusPath doc) \<and>
   snd (collectStatusFromReader demoLib (NewOpenVPNExporter [''p''] False) ''p''
          (unlines [''TITLE,OpenVPN 2.6'', ''END''])) = None \<and>
   snd (collectStatusFromReader demoLib (NewOpenVPNExporter [''p''] False) ''p''
          (unlines [''TITLE,OpenVPN 2.6'', [], ''END''])) = Some (UnsupportedKey [])"
proof (intro conjI impI)
  assume a: "ScanLines lib file = (pre @ [] # post, scanErr) \<and> separator \<noteq> []"
  let ?body = "serverLine lib (NewOpenVPNExporter paths ign) statusPath separator"
  have reach: "collectServerStatusFromReader lib (NewOpenVPNExporter paths ign) statusPath file separator =
           (ch st, Some (UnsupportedKey []))" if n: "forScan ?body initState pre = Next st" for st
  proof -
    from a have "?body st [] = Return st (UnsupportedKey [])" by (simp add: serverLine_empty)
    with n have "forScan ?body initState (pre @ [] # post) = Return st (UnsupportedKey [])"
      by (rule forScan_snoc_Return)
    then show ?thesis using a by (simp add: collectServerStatusFromReader_def finishServer_def)
  qed
  then show "\<forall>st. forScan ?body initState pre = Next st \<longrightarrow>
         collectServerStatusFromReader lib (NewOpenVPNExporter paths ign) statusPath file separator =
           (ch st, Some (UnsupportedKey []))" by blast
  show "snd (collectServerStatusFromReader lib (NewOpenVPNExporter paths ign) statusPath file separator) \<noteq> None"
  proof (cases "forScan ?body initState pre")
    case (Next st)
    then show ?thesis using reach by simp
  next
    case (Break st)
    then show ?thesis
      using forScan_no_break[of ?body initState pre st] serverLine_no_break by blast
  next
    case (Return st err)
    then have "forScan ?body initState (pre @ [] # post) = Return st err"
      by (rule forScan_Return_append)
    then show ?thesis using a
      by (simp add: collectServerStatusFromReader_def finishServer_def)
  qed
next
  assume "ScanLines lib doc = (ls, scanErr) \<and> ScanLines lib doc' = (filter (\<lambda>l. l \<noteq> []) ls, scanErr)"
  then show "collectServerStatusFromReaderV4 lib e statusPath doc' =
      collectServerStatusFromReaderV4 lib e statusPath doc"
    by (simp add: collectServerStatusFromReaderV4_def serverScanV4_skips_empty)
next
  have l: "ScanLines demoLib (unlines [''TITLE,OpenVPN 2.6'', ''END'']) = ([''TITLE,OpenVPN 2.6'', ''END''], None)"
    by (simp add: demo_defs strings_Split_def)
  have d: "collectStatusFromReader demoLib (NewOpenVPNExporter [''p''] False) ''p''
          (unlines [''TITLE,OpenVPN 2.6'', ''END'']) =
        collectServerStatusFromReader demoLib (NewOpenVPNExporter [''p''] False) ''p''
          (unlines [''TITLE,OpenVPN 2.6'', ''END'']) '',''"
    by (simp add: collectStatusFromReader_def unlines_def)
  show "snd (collectStatusFromReader demoLib (NewOpenVPNExporter [''p''] False) ''p''
          (unlines [''TITLE,OpenVPN 2.6'', ''END''])) = None"
    unfolding d collectServerStatusFromReader_def l
    by (simp add: serverLine_def strings_Split_def finishServer_def)
next
  have l: "ScanLines demoLib (unlines [''TITLE,OpenVPN 2.6'', [], ''END'']) = ([''TITLE,OpenVPN 2.6'', [], ''END''], None)"
    by (simp add: demo_defs strings_Split_def)
  have d: "collectStatusFromReader demoLib (NewOpenVPNExporter [''p''] False) ''p''
          (unlines [''TITLE,OpenVPN 2.6'', [], ''END'']) =
        collectServerStatusFromReader demoLib (NewOpenVPNExporter [''p''] False) ''p''
          (unlines [''TITLE,OpenVPN 2.6'', [], ''END'']) '',''"
    by (simp add: collectStatusFromReader_def unlines_def)
  show "snd (collectStatusFromReader demoLib (NewOpenVPNExporter [''p''] False) ''p''
          (unlines [''TITLE,OpenVPN 2.6'', [], ''END''])) = Some (UnsupportedKey [])"
    unfolding d collectServerStatusFromReader_def l
    by (simp add: serverLine_def strings_Split_def finishServer_def NewOpenVPNExporter_def)
qed


theorem empty_line_v23_fails_v4_skips_witness:
  "collectServerStatusFromReader demoLib (NewOpenVPNExporter [''p''] False) ''p''
      (unlines [''TITLE,OpenVPN 2.6'', [], ''END'']) '','' = ([], Some (UnsupportedKey [])) \<and>
   collectServerStatusFromReaderV4 demoLib (NewOpenVPNExporter [''p''] False) ''p''
      (unlines [''OpenVPN CLIENT LIST'', ''END'']) =
   collectServerStatusFromReaderV4 demoLib (NewOpenVPNExporter [''p''] False) ''p''
      (unlines [''OpenVPN CLIENT LIST'', [], ''END''])"
proof -
  have a: "ScanLines demoLib (unlines [''TITLE,OpenVPN 2.6'', [], ''END'']) =
             ([''TITLE,OpenVPN 2.6''] @ [] # [''END''], None) \<and> '','' \<noteq> []"
    by (simp add: demo_defs strings_Split_def)
  have b: "forScan (serverLine demoLib (NewOpenVPNExporter [''p''] False) ''p'' '','') initState
             [''TITLE,OpenVPN 2.6''] = Next initState"
    by (simp add: serverLine_def strings_Split_def)
  have c: "ScanLines demoLib (unlines [''OpenVPN CLIENT LIST'', [], ''END'']) =
             ([''OpenVPN CLIENT LIST'', [], ''END''], None) \<and>
           ScanLines demoLib (unlines [''OpenVPN CLIENT LIST'', ''END'']) =
             (filter (\<lambda>l. l \<noteq> []) [''OpenVPN CLIENT LIST'', [], ''END''], None)"
    by (simp add: demo_defs strings_Split_def)
  from empty_line_v23_fails_v4_skips[of demoLib
      "unlines [''TITLE,OpenVPN 2.6'', [], ''END'']" "[''TITLE,OpenVPN 2.6'']" "[''END'']" None
      "'',''" "[''p'']" False "''p''"
      "unlines [''OpenVPN CLIENT LIST'', [], ''END'']" "[''OpenVPN CLIENT LIST'', [], ''END'']"
      "unlines [''OpenVPN CLIENT LIST'', ''END'']" "NewOpenVPNExporter [''p''] False"] a b c
  show ?thesis by (simp add: initState_def)
qed

subsection \<open>The metrics of a server scan\<close>

text \<open>What every metric of a server scan looks like, but for the final gauge.\<close>

lemma serverScan_sent:
  fixes st :: "'f scan_state"
  assumes "\<forall>m \<in> set (ch st).
        (m_desc m = openvpnStatusUpdateTimeDesc e \<and> m_labelValues m = [statusPath]) \<or>
        (\<exists>header \<in> ran (openvpnServerHeaders e).
           m_desc m \<in> Desc ` set (Metrics header) \<and>
           length (m_labelValues m) = Suc (length (LabelColumns header)) \<and>
           hd (m_labelValues m) = statusPath)"
  shows "\<forall>m \<in> set (ch (stateOf (forScan (serverLine lib e statusPath separator) st ls))).
        (m_desc m = openvpnStatusUpdateTimeDesc e \<and> m_labelValues m = [statusPath]) \<or>
        (\<exists>header \<in> ran (openvpnServerHeaders e).
           m_desc m \<in> Desc ` set (Metrics header) \<and>
           length (m_labelValues m) = Suc (length (LabelColumns header)) \<and>
           hd (m_labelValues m) = statusPath)"
proof (rule forScan_invariant[where st = st and ls = ls and body = "serverLine lib e statusPath separator"
      and P = "\<lambda>s. \<forall>m \<in> set (ch s).
        (m_desc m = openvpnStatusUpdateTimeDesc e \<and> m_labelValues m = [statusPath]) \<or>
        (\<exists>header \<in> ran (openvpnServerHeaders e).
           m_desc m \<in> Desc ` set (Metrics header) \<and>
           length (m_labelValues m) = Suc (length (LabelColumns header)) \<and>
           hd (m_labelValues m) = statusPath)"])
  show "\<forall>m \<in> set (ch st).
        (m_desc m = openvpnStatusUpdateTimeDesc e \<and> m_labelValues m = [statusPath]) \<or>
        (\<exists>header \<in> ran (openvpnServerHeaders e).
           m_desc m \<in> Desc ` set (Metrics header) \<and>
           length (m_labelValues m) = Suc (length (LabelColumns header)) \<and>
           hd (m_labelValues m) = statusPath)" by (rule assms)
next
  fix s :: "'f scan_state" and l
  assume s: "\<forall>m \<in> set (ch s).
        (m_desc m = openvpnStatusUpdateTimeDesc e \<and> m_labelValues m = [statusPath]) \<or>
        (\<exists>header \<in> ran (openvpnServerHeaders e).
           m_desc m \<in> Desc ` set (Metrics header) \<and>
           length (m_labelValues m) = Suc (length (LabelColumns header)) \<and>
           hd (m_labelValues m) = statusPath)"
  from serverLine_sent[of lib e statusPath separator s l] obtain new where
    n: "ch (stateOf (serverLine lib e statusPath separator s l)) = ch s @ new"
      "\<forall>m \<in> set new.
        (m_desc m = openvpnStatusUpdateTimeDesc e \<and> m_labelValues m = [statusPath]) \<or>
        (\<exists>header \<in> ran (openvpnServerHeaders e).
           m_desc m \<in> Desc ` set (Metrics header) \<and>
           length (m_labelValues m) = Suc (length (LabelColumns header)) \<and>
           hd (m_labelValues m) = statusPath)" by blast
  show "\<forall>m \<in> set (ch (stateOf (serverLine lib e statusPath separator s l))).
        (m_desc m = openvpnStatusUpdateTimeDesc e \<and> m_labelValues m = [statusPath]) \<or>
        (\<exists>header \<in> ran (openvpnServerHeaders e).
           m_desc m \<in> Desc ` set (Metrics header) \<and>
           length (m_labelValues m) = Suc (length (LabelColumns header)) \<and>
           hd (m_labelValues m) = statusPath)"
    unfolding n(1) using s n(2) by (metis Un_iff set_append)
qed

lemma serverScanV4_sent:
  fixes st :: "'f scan_state_v4"
  assumes "\<forall>m \<in> set (ch st).
        (m_desc m = openvpnStatusUpdateTimeDesc e \<and> m_labelValues m = [statusPath]) \<or>
        (\<exists>header \<in> ran (openvpnServerHeaders e).
           m_desc m \<in> Desc ` set (Metrics header) \<and>
           length (m_labelValues m) = Suc (length (LabelColumns header)) \<and>
           hd (m_labelValues m) = statusPath)"
  shows "\<forall>m \<in> set (ch (stateOf (forScan (serverLineV4 lib e statusPath) st ls))).
        (m_desc m = openvpnStatusUpdateTimeDesc e \<and> m_labelValues m = [statusPath]) \<or>
        (\<exists>header \<in> ran (openvpnServerHeaders e).
           m_desc m \<in> Desc ` set (Metrics header) \<and>
           length (m_labelValues m) = Suc (length (LabelColumns header)) \<and>
           hd (m_labelValues m) = statusPath)"
proof (rule forScan_invariant[where st = st and ls = ls and body = "serverLineV4 lib e statusPath"
      and P = "\<lambda>s. \<forall>m \<in> set (ch s).
        (m_desc m = openvpnStatusUpdateTimeDesc e \<and> m_labelValues m = [statusPath]) \<or>
        (\<exists>header \<in> ran (openvpnServerHeaders e).
           m_desc m \<in> Desc ` set (Metrics header) \<and>
           length (m_labelValues m) = Suc (length (LabelColumns header)) \<and>
           hd (m_labelValues m) = statusPath)"])
  show "\<forall>m \<in> set (ch st).
        (m_desc m = openvpnStatusUpdateTimeDesc e \<and> m_labelValues m = [statusPath]) \<or>
        (\<exists>header \<in> ran (openvpnServerHeaders e).
           m_desc m \<in> Desc ` set (Metrics header) \<and>
           length (m_labelValues m) = Suc (length (LabelColumns header)) \<and>
           hd (m_labelValues m) = statusPath)" by (rule assms)
next
  fix s :: "'f scan_state_v4" and l
  assume s: "\<forall>m \<in> set (ch s).
        (m_desc m = openvpnStatusUpdateTimeDesc e \<and> m_labelValues m = [statusPath]) \<or>
        (\<exists>header \<in> ran (openvpnServerHeaders e).
           m_desc m \<in> Desc ` set (Metrics header) \<and>
           length (m_labelValues m) = Suc (length (LabelColumns header)) \<and>
           hd (m_labelValues m) = statusPath)"
  from serverLineV4_sent[of lib e statusPath s l] obtain new where
    n: "ch (stateOf (serverLineV4 lib e statusPath s l)) = ch s @ new"
      "\<forall>m \<in> set new.
        (m_desc m = openvpnStatusUpdateTimeDesc e \<and> m_labelValues m = [statusPath]) \<or>
        (\<exists>header \<in> ran (openvpnServerHeaders e).
           m_desc m \<in> Desc ` set (Metrics header) \<and>
           length (m_labelValues m) = Suc (length (LabelColumns header)) \<and>
           hd (m_labelValues m) = statusPath)" by blast
  show "\<forall>m \<in> set (ch (stateOf (serverLineV4 lib e statusPath s l))).
        (m_desc m = openvpnStatusUpdateTimeDesc e \<and> m_labelValues m = [statusPath]) \<or>
        (\<exists>header \<in> ran (openvpnServerHeaders e).
           m_desc m \<in> Desc ` set (Metrics header) \<and>
           length (m_labelValues m) = Suc (length (LabelColumns header)) \<and>
           hd (m_labelValues m) = statusPath)"
    unfolding n(1) using s n(2) by (metis Un_iff set_append)
qed

lemma New_ran:
  "header \<in> ran (openvpnServerHeaders (NewOpenVPNExporter paths ign)) \<Longrightarrow>
     header = clientListHeader ign \<or> header = routingTableHeader ign"
  using New_headers_dom by (fastforce simp: ran_def)

lemma New_descs_distinct:
  "Desc (receivedField ign) \<noteq> Desc (lastRefField ign)"
  "Desc (sentField ign) \<noteq> Desc (lastRefField ign)"
  "Desc (receivedField ign) \<noteq> openvpnStatusUpdateTimeDesc (NewOpenVPNExporter paths ign)"
  "Desc (sentField ign) \<noteq> openvpnStatusUpdateTimeDesc (NewOpenVPNExporter paths ign)"
  "Desc (lastRefField ign) \<noteq> openvpnStatusUpdateTimeDesc (NewOpenVPNExporter paths ign)"
  "Desc (receivedField ign) \<noteq> openvpnConnectedClientsDesc (NewOpenVPNExporter paths ign)"
  "Desc (sentField ign) \<noteq> openvpnConnectedClientsDesc (NewOpenVPNExporter paths ign)"
  "Desc (lastRefField ign) \<noteq> openvpnConnectedClientsDesc (NewOpenVPNExporter paths ign)"
  "openvpnStatusUpdateTimeDesc (NewOpenVPNExporter paths ign) \<noteq>
     openvpnConnectedClientsDesc (NewOpenVPNExporter paths ign)"
  by (simp_all add: registry_defs)

lemma New_metrics:
  "Desc ` set (Metrics (clientListHeader ign)) = {Desc (receivedField ign), Desc (sentField ign)}"
  "Desc ` set (Metrics (routingTableHeader ign)) = {Desc (lastRefField ign)}"
  by (simp_all add: clientListHeader_def routingTableHeader_def)


lemma serverScan_counter:
  fixes st :: "'f scan_state"
  assumes "forScan (serverLine lib (NewOpenVPNExporter paths ign) statusPath separator) st ls = Next st'"
  shows "numberConnectedClient st' = numberConnectedClient st + int (clientRows separator ls)"
  using assms
proof (induction ls arbitrary: st)
  case Nil
  then show ?case by (simp add: clientRows_def)
next
  case (Cons l ls)
  let ?body = "serverLine lib (NewOpenVPNExporter paths ign) statusPath separator"
  show ?case
  proof (cases "?body st l")
    case (Next s1)
    from serverLine_counter[of lib "NewOpenVPNExporter paths ign" statusPath separator st l] Next
    have k: "numberConnectedClient s1 = numberConnectedClient st +
        (if firstFieldIs separator ''CLIENT_LIST'' l then 1 else 0)"
      by (simp add: New_headers)
    from Cons.prems Next have "forScan ?body s1 ls = Next st'" by simp
    then have "numberConnectedClient st' = numberConnectedClient s1 + int (clientRows separator ls)"
      by (rule Cons.IH)
    with k show ?thesis by (simp add: clientRows_def)
  next
    case (Break s1)
    with Cons.prems show ?thesis by simp
  next
    case (Return s1 err)
    with Cons.prems show ?thesis by simp
  qed
qed

lemma serverScanV4_counter:
  fixes st :: "'f scan_state_v4"
  assumes "\<And>s err. forScan (serverLineV4 lib (NewOpenVPNExporter paths ign) statusPath) st ls \<noteq> Return s err"
  shows "numberConnectedClient
           (stateOf (forScan (serverLineV4 lib (NewOpenVPNExporter paths ign) statusPath) st ls)) =
         numberConnectedClient st + int (clientRowsV4 (currentSection st) ls)"
  using assms
proof (induction ls arbitrary: st)
  case Nil
  then show ?case by simp
next
  case (Cons l ls)
  let ?body = "serverLineV4 lib (NewOpenVPNExporter paths ign) statusPath"
  have k: "numberConnectedClient (stateOf (?body st l)) = numberConnectedClient st +
       (if currentSection st = ''CLIENT_LIST'' \<and> isClientRowV4 l then 1 else 0)"
    using serverLineV4_counter[of lib "NewOpenVPNExporter paths ign" statusPath st l]
    by (simp add: New_headers)
  have sec: "currentSection (stateOf (?body st l)) =
     (if l = ''OpenVPN CLIENT LIST'' then ''CLIENT_LIST''
      else if l = ''ROUTING TABLE'' then ''ROUTING_TABLE''
      else if l = ''GLOBAL STATS'' then ''GLOBAL_STATS''
      else currentSection st)"
    by (rule serverLineV4_section)
  have br: "(\<exists>s. ?body st l = Break s) \<longleftrightarrow> l = ''END''"
    by (rule serverLineV4_break)
  show ?case
  proof (cases "?body st l")
    case (Next s1)
    with br have ne: "l \<noteq> ''END''" by auto
    from Cons.prems Next have "\<And>s err. forScan ?body s1 ls \<noteq> Return s err" by simp
    then have ih: "numberConnectedClient (stateOf (forScan ?body s1 ls)) =
         numberConnectedClient s1 + int (clientRowsV4 (currentSection s1) ls)"
      by (rule Cons.IH)
    from k Next have k1: "numberConnectedClient s1 = numberConnectedClient st +
       (if currentSection st = ''CLIENT_LIST'' \<and> isClientRowV4 l then 1 else 0)" by simp
    from sec Next have s1: "currentSection s1 =
     (if l = ''OpenVPN CLIENT LIST'' then ''CLIENT_LIST''
      else if l = ''ROUTING TABLE'' then ''ROUTING_TABLE''
      else if l = ''GLOBAL STATS'' then ''GLOBAL_STATS''
      else currentSection st)" by simp
    have "int (clientRowsV4 (currentSection st) (l # ls)) =
        (if currentSection st = ''CLIENT_LIST'' \<and> isClientRowV4 l then 1 else 0) +
        int (clientRowsV4 (currentSection s1) ls)"
      using ne unfolding s1 by (auto simp: isClientRowV4_def isTitleV4_def)
    with ih k1 Next show ?thesis by simp
  next
    case (Break s1)
    with br have e: "l = ''END''" by auto
    from k Break e have "numberConnectedClient s1 = numberConnectedClient st"
      by (simp add: isClientRowV4_def isTitleV4_def)
    with Break e show ?thesis by simp
  next
    case (Return s1 err)
    then have "forScan ?body st (l # ls) = Return s1 err" by simp
    with Cons.prems show ?thesis by blast
  qed
qed

lemma finishServer_success:
  assumes "snd (finishServer lib e statusPath scanErr r) = None"
  shows "finishServer lib e statusPath scanErr r =
           (ch (stateOf r) @ [connectedClientsMetric lib e statusPath (numberConnectedClient (stateOf r))], None)
         \<and> (\<forall>s err. r \<noteq> Return s err)"
  using assms by (cases r) (auto simp: finishServer_def)

lemma New_sent_not_gauge:
  assumes "(m_desc m = openvpnStatusUpdateTimeDesc (NewOpenVPNExporter paths ign) \<and> m_labelValues m = [statusPath]) \<or>
        (\<exists>header \<in> ran (openvpnServerHeaders (NewOpenVPNExporter paths ign)).
           m_desc m \<in> Desc ` set (Metrics header) \<and>
           length (m_labelValues m) = Suc (length (LabelColumns header)) \<and>
           hd (m_labelValues m) = statusPath)"
  shows "m_desc m \<noteq> openvpnConnectedClientsDesc (NewOpenVPNExporter paths ign)"
proof -
  from assms consider (t) "m_desc m = openvpnStatusUpdateTimeDesc (NewOpenVPNExporter paths ign)"
    | (c) "m_desc m \<in> Desc ` set (Metrics (clientListHeader ign))"
    | (r) "m_desc m \<in> Desc ` set (Metrics (routingTableHeader ign))"
    using New_ran[of _ paths ign] by blast
  then show ?thesis
  proof cases
    case t
    then show ?thesis using New_descs_distinct(9)[of paths ign] by simp
  next
    case c
    then show ?thesis using New_descs_distinct(6,7)[of ign paths] by (auto simp: New_metrics)
  next
    case r
    then show ?thesis using New_descs_distinct(8)[of ign paths] by (auto simp: New_metrics)
  qed
qed

text \<open>
C3. When the scan of a server document succeeds, exactly one of the
  metrics sent is the gauge of the connected clients, and its value is
  the number of the data rows of the client list: for versions 2 and 3
  the number of lines whose first field is \<^verbatim>\<open>CLIENT_LIST\<close>, for
  version 4 the number of data rows of the client list section before
  \<^verbatim>\<open>END\<close>. A document without such a row gives the gauge 0.
\<close>

theorem connected_clients_gauge:
  "(ScanLines lib file = (ls, scanErr) \<and>
    snd (collectServerStatusFromReader lib (NewOpenVPNExporter paths ign) statusPath file separator) = None \<longrightarrow>
      filter (\<lambda>m. m_desc m = openvpnConnectedClientsDesc (NewOpenVPNExporter paths ign))
        (fst (collectServerStatusFromReader lib (NewOpenVPNExporter paths ign) statusPath file separator)) =
      [connectedClientsMetric lib (NewOpenVPNExporter paths ign) statusPath
         (int (clientRows separator ls))]) \<and>
   (ScanLines lib file = (ls, scanErr) \<and>
    snd (collectServerStatusFromReaderV4 lib (NewOpenVPNExporter paths ign) statusPath file) = None \<longrightarrow>
      filter (\<lambda>m. m_desc m = openvpnConnectedClientsDesc (NewOpenVPNExporter paths ign))
        (fst (collectServerStatusFromReaderV4 lib (NewOpenVPNExporter paths ign) statusPath file)) =
      [connectedClientsMetric lib (NewOpenVPNExporter paths ign) statusPath
         (int (clientRowsV4 [] ls))])"
proof (intro conjI impI)
  let ?e = "NewOpenVPNExporter paths ign"
  let ?body = "serverLine lib ?e statusPath separator"
  assume a: "ScanLines lib file = (ls, scanErr) \<and>
    snd (collectServerStatusFromReader lib ?e statusPath file separator) = None"
  define r where "r = forScan ?body initState ls"
  from a have c: "collectServerStatusFromReader lib ?e statusPath file separator =
      finishServer lib ?e statusPath scanErr r"
    by (simp add: collectServerStatusFromReader_def r_def)
  with a have "snd (finishServer lib ?e statusPath scanErr r) = None" by simp
  from finishServer_success[OF this] have
    f: "finishServer lib ?e statusPath scanErr r =
           (ch (stateOf r) @ [connectedClientsMetric lib ?e statusPath (numberConnectedClient (stateOf r))], None)"
    and nr: "\<forall>s err. r \<noteq> Return s err" by blast+
  have nb: "\<forall>s. r \<noteq> Break s"
    unfolding r_def using forScan_no_break[of ?body initState ls] serverLine_no_break by blast
  from nr nb have "r = Next (stateOf r)" by (cases r) auto
  then have "numberConnectedClient (stateOf r) =
      numberConnectedClient (initState :: 'a scan_state) + int (clientRows separator ls)"
    unfolding r_def by (rule serverScan_counter)
  then have n: "numberConnectedClient (stateOf r) = int (clientRows separator ls)"
    by (simp add: initState_def)
  have "\<forall>m \<in> set (ch (stateOf r)).
        (m_desc m = openvpnStatusUpdateTimeDesc ?e \<and> m_labelValues m = [statusPath]) \<or>
        (\<exists>header \<in> ran (openvpnServerHeaders ?e).
           m_desc m \<in> Desc ` set (Metrics header) \<and>
           length (m_labelValues m) = Suc (length (LabelColumns header)) \<and>
           hd (m_labelValues m) = statusPath)"
    unfolding r_def by (rule serverScan_sent) (simp add: initState_def)
  then have "\<forall>m \<in> set (ch (stateOf r)). m_desc m \<noteq> openvpnConnectedClientsDesc ?e"
    using New_sent_not_gauge by blast
  then have "filter (\<lambda>m. m_desc m = openvpnConnectedClientsDesc ?e) (ch (stateOf r)) = []"
    by (simp add: filter_empty_conv)
  then show "filter (\<lambda>m. m_desc m = openvpnConnectedClientsDesc ?e)
        (fst (collectServerStatusFromReader lib ?e statusPath file separator)) =
      [connectedClientsMetric lib ?e statusPath (int (clientRows separator ls))]"
    unfolding c f n by (simp add: connectedClientsMetric_def MustNewConstMetric_def)
next
  let ?e = "NewOpenVPNExporter paths ign"
  let ?body = "serverLineV4 lib ?e statusPath"
  assume a: "ScanLines lib file = (ls, scanErr) \<and>
    snd (collectServerStatusFromReaderV4 lib ?e statusPath file) = None"
  define r where "r = forScan ?body initStateV4 ls"
  from a have c: "collectServerStatusFromReaderV4 lib ?e statusPath file =
      finishServer lib ?e statusPath scanErr r"
    by (simp add: collectServerStatusFromReaderV4_def r_def)
  with a have "snd (finishServer lib ?e statusPath scanErr r) = None" by simp
  from finishServer_success[OF this] have
    f: "finishServer lib ?e statusPath scanErr r =
           (ch (stateOf r) @ [connectedClientsMetric lib ?e statusPath (numberConnectedClient (stateOf r))], None)"
    and nr: "\<forall>s err. r \<noteq> Return s err" by blast+
  from nr have "numberConnectedClient (stateOf r) =
      numberConnectedClient (initStateV4 :: 'a scan_state_v4) +
        int (clientRowsV4 (currentSection (initStateV4 :: 'a scan_state_v4)) ls)"
    unfolding r_def by (intro serverScanV4_counter) blast
  then have n: "numberConnectedClient (stateOf r) = int (clientRowsV4 [] ls)"
    by (simp add: initStateV4_def)
  have "\<forall>m \<in> set (ch (stateOf r)).
        (m_desc m = openvpnStatusUpdateTimeDesc ?e \<and> m_labelValues m = [statusPath]) \<or>
        (\<exists>header \<in> ran (openvpnServerHeaders ?e).
           m_desc m \<in> Desc ` set (Metrics header) \<and>
           length (m_labelValues m) = Suc (length (LabelColumns header)) \<and>
           hd (m_labelValues m) = statusPath)"
    unfolding r_def by (rule serverScanV4_sent) (simp add: initStateV4_def)
  then have "\<forall>m \<in> set (ch (stateOf r)). m_desc m \<noteq> openvpnConnectedClientsDesc ?e"
    using New_sent_not_gauge by blast
  then have "filter (\<lambda>m. m_desc m = openvpnConnectedClientsDesc ?e) (ch (stateOf r)) = []"
    by (simp add: filter_empty_conv)
  then show "filter (\<lambda>m. m_desc m = openvpnConnectedClientsDesc ?e)
        (fst (collectServerStatusFromReaderV4 lib ?e statusPath file)) =
      [connectedClientsMetric lib ?e statusPath (int (clientRowsV4 [] ls))]"
    unfolding c f n by (simp add: connectedClientsMetric_def MustNewConstMetric_def)
qed


lemma sampleV4_lines: "ScanLines demoLib sampleV4 =
    ([''OpenVPN CLIENT LIST'', ''Updated,2024-10-21 09:23:08'',
      ''Common Name,Real Address,Bytes Received,Bytes Sent,Connected Since'',
      ''alice,1.2.3.4:5,10,20,2024-10-21 09:00:00'',
      ''ROUTING TABLE'', ''Virtual Address,Common Name,Real Address,Last Ref'',
      ''10.8.0.2,alice,1.2.3.4:5,2024-10-21 09:20:00'',
      ''GLOBAL STATS'', ''Max bcast/mcast queue length,0'', ''END''], None)"
  by (simp add: demo_defs sampleV4_def strings_Split_def)

lemma sampleV4_result:
  "collectServerStatusFromReaderV4 demoLib (NewOpenVPNExporter [''p''] False) ''p'' sampleV4 =
    ([MustNewConstMetric (openvpnStatusUpdateTimeDesc (NewOpenVPNExporter [''p''] False)) GaugeValue
        1729502588 [''p''],
      MustNewConstMetric (Desc (receivedField False)) CounterValue 10
        [''p'', ''alice'', ''2024-10-21 09:00:00'', ''1.2.3.4:5'', [], ''alice''],
      MustNewConstMetric (Desc (sentField False)) CounterValue 20
        [''p'', ''alice'', ''2024-10-21 09:00:00'', ''1.2.3.4:5'', [], ''alice''],
      connectedClientsMetric demoLib (NewOpenVPNExporter [''p''] False) ''p'' 1], None)"
  unfolding collectServerStatusFromReaderV4_def sampleV4_lines
  by (simp add: v4_defs registry_defs demoLib_def demoParseFloat_def digitVal_def demoTimeParse_def Let_def)

lemma emptyV2_lines: "ScanLines demoLib (unlines [''TITLE,OpenVPN 2.6'', ''END'']) =
    ([''TITLE,OpenVPN 2.6'', ''END''], None)"
  by (simp add: demo_defs strings_Split_def)

lemma emptyV2_result:
  "collectServerStatusFromReader demoLib (NewOpenVPNExporter [''p''] False) ''p''
     (unlines [''TITLE,OpenVPN 2.6'', ''END'']) '','' =
   ([connectedClientsMetric demoLib (NewOpenVPNExporter [''p''] False) ''p'' 0], None)"
  unfolding collectServerStatusFromReader_def emptyV2_lines
  by (simp add: serverLine_def strings_Split_def finishServer_def initState_def)

theorem connected_clients_gauge_witness:
  "filter (\<lambda>m. m_desc m = openvpnConnectedClientsDesc (NewOpenVPNExporter [''p''] False))
     (fst (collectServerStatusFromReader demoLib (NewOpenVPNExporter [''p''] False) ''p''
        (unlines [''TITLE,OpenVPN 2.6'', ''END'']) '','')) =
     [connectedClientsMetric demoLib (NewOpenVPNExporter [''p''] False) ''p'' 0] \<and>
   filter (\<lambda>m. m_desc m = openvpnConnectedClientsDesc (NewOpenVPNExporter [''p''] False))
     (fst (collectServerStatusFromReaderV4 demoLib (NewOpenVPNExporter [''p''] False) ''p'' sampleV4)) =
     [connectedClientsMetric demoLib (NewOpenVPNExporter [''p''] False) ''p'' 1]"
proof
  have a: "ScanLines demoLib (unlines [''TITLE,OpenVPN 2.6'', ''END'']) = ([''TITLE,OpenVPN 2.6'', ''END''], None) \<and>
    snd (collectServerStatusFromReader demoLib (NewOpenVPNExporter [''p''] False) ''p''
          (unlines [''TITLE,OpenVPN 2.6'', ''END'']) '','') = None"
    by (simp add: emptyV2_lines emptyV2_result)
  have n: "clientRows '','' [''TITLE,OpenVPN 2.6'', ''END''] = 0"
    by (simp add: clientRows_def firstFieldIs_def strings_Split_def)
  from connected_clients_gauge[of demoLib "unlines [''TITLE,OpenVPN 2.6'', ''END'']"
      "[''TITLE,OpenVPN 2.6'', ''END'']" None "[''p'']" False "''p''" "'',''"] a n
  show "filter (\<lambda>m. m_desc m = openvpnConnectedClientsDesc (NewOpenVPNExporter [''p''] False))
     (fst (collectServerStatusFromReader demoLib (NewOpenVPNExporter [''p''] False) ''p''
        (unlines [''TITLE,OpenVPN 2.6'', ''END'']) '','')) =
     [connectedClientsMetric demoLib (NewOpenVPNExporter [''p''] False) ''p'' 0]"
    by simp
next
  have a: "ScanLines demoLib sampleV4 =
    ([''OpenVPN CLIENT LIST'', ''Updated,2024-10-21 09:23:08'',
      ''Common Name,Real Address,Bytes Received,Bytes Sent,Connected Since'',
      ''alice,1.2.3.4:5,10,20,2024-10-21 09:00:00'',
      ''ROUTING TABLE'', ''Virtual Address,Common Name,Real Address,Last Ref'',
      ''10.8.0.2,alice,1.2.3.4:5,2024-10-21 09:20:00'',
      ''GLOBAL STATS'', ''Max bcast/mcast queue length,0'', ''END''], None) \<and>
    snd (collectServerStatusFromReaderV4 demoLib (NewOpenVPNExporter [''p''] False) ''p'' sampleV4) = None"
    by (simp add: sampleV4_lines sampleV4_result)
  have n: "clientRowsV4 [] [''OpenVPN CLIENT LIST'', ''Updated,2024-10-21 09:23:08'',
      ''Common Name,Real Address,Bytes Received,Bytes Sent,Connected Since'',
      ''alice,1.2.3.4:5,10,20,2024-10-21 09:00:00'',
      ''ROUTING TABLE'', ''Virtual Address,Common Name,Real Address,Last Ref'',
      ''10.8.0.2,alice,1.2.3.4:5,2024-10-21 09:20:00'',
      ''GLOBAL STATS'', ''Max bcast/mcast queue length,0'', ''END''] = 1"
    by (simp add: isClientRowV4_def isTitleV4_def)
  from connected_clients_gauge[of demoLib sampleV4 _ None "[''p'']" False "''p''"] a n
  show "filter (\<lambda>m. m_desc m = openvpnConnectedClientsDesc (NewOpenVPNExporter [''p''] False))
     (fst (collectServerStatusFromReaderV4 demoLib (NewOpenVPNExporter [''p''] False) ''p'' sampleV4)) =
     [connectedClientsMetric demoLib (NewOpenVPNExporter [''p''] False) ''p'' 1]"
    by simp
qed

lemma New_row_labels:
  assumes "(m_desc m = openvpnStatusUpdateTimeDesc (NewOpenVPNExporter paths ign) \<and> m_labelValues m = [statusPath]) \<or>
        (\<exists>header \<in> ran (openvpnServerHeaders (NewOpenVPNExporter paths ign)).
           m_desc m \<in> Desc ` set (Metrics header) \<and>
           length (m_labelValues m) = Suc (length (LabelColumns header)) \<and>
           hd (m_labelValues m) = statusPath) \<or>
        m_desc m = openvpnConnectedClientsDesc (NewOpenVPNExporter paths ign)"
  shows "(m_desc m \<in> Desc ` set (Metrics (clientListHeader ign)) \<longrightarrow>
           length (m_labelValues m) = 1 + length (LabelColumns (clientListHeader ign)) \<and>
           hd (m_labelValues m) = statusPath) \<and>
         (m_desc m \<in> Desc ` set (Metrics (routingTableHeader ign)) \<longrightarrow>
           length (m_labelValues m) = 1 + length (LabelColumns (routingTableHeader ign)) \<and>
           hd (m_labelValues m) = statusPath)"
proof -
  from assms consider (t) "m_desc m = openvpnStatusUpdateTimeDesc (NewOpenVPNExporter paths ign)"
    | (g) "m_desc m = openvpnConnectedClientsDesc (NewOpenVPNExporter paths ign)"
    | (c) "m_desc m \<in> Desc ` set (Metrics (clientListHeader ign))"
        "length (m_labelValues m) = Suc (length (LabelColumns (clientListHeader ign)))"
        "hd (m_labelValues m) = statusPath"
    | (r) "m_desc m \<in> Desc ` set (Metrics (routingTableHeader ign))"
        "length (m_labelValues m) = Suc (length (LabelColumns (routingTableHeader ign)))"
        "hd (m_labelValues m) = statusPath"
    using New_ran[of _ paths ign] by blast
  then show ?thesis
  proof cases
    case t
    then show ?thesis
      using New_descs_distinct(3,4,5)[of ign paths] by (auto simp: New_metrics)
  next
    case g
    then show ?thesis
      using New_descs_distinct(6,7,8)[of ign paths] by (auto simp: New_metrics)
  next
    case c
    then show ?thesis
      using New_descs_distinct(1,2)[of ign] by (auto simp: New_metrics)
  next
    case r
    then show ?thesis
      using New_descs_distinct(1,2)[of ign] by (auto simp: New_metrics)
  qed
qed

lemma finishServer_sent:
  "set (fst (finishServer lib e statusPath scanErr r)) \<subseteq>
     set (ch (stateOf r)) \<union> {connectedClientsMetric lib e statusPath (numberConnectedClient (stateOf r))}"
  by (cases r) (auto simp: finishServer_def)

text \<open>
C8. Every metric that a server scan (version 2/3 or version 4) sends
  with a descriptor of the client list has as many labels as the client
  list has label columns, plus one, and the status path as its first
  label; likewise for the descriptors and label columns of the routing
  table. This holds for every document, also one whose scan fails.
\<close>

theorem row_metric_labels:
  assumes "m \<in> set (fst (collectServerStatusFromReader lib (NewOpenVPNExporter paths ign) statusPath file separator))
         \<or> m \<in> set (fst (collectServerStatusFromReaderV4 lib (NewOpenVPNExporter paths ign) statusPath file))"
  shows "(m_desc m \<in> Desc ` set (Metrics (clientListHeader ign)) \<longrightarrow>
           length (m_labelValues m) = 1 + length (LabelColumns (clientListHeader ign)) \<and>
           hd (m_labelValues m) = statusPath) \<and>
         (m_desc m \<in> Desc ` set (Metrics (routingTableHeader ign)) \<longrightarrow>
           length (m_labelValues m) = 1 + length (LabelColumns (routingTableHeader ign)) \<and>
           hd (m_labelValues m) = statusPath)"
proof -
  let ?e = "NewOpenVPNExporter paths ign"
  let ?P = "\<lambda>m. (m_desc m = openvpnStatusUpdateTimeDesc ?e \<and> m_labelValues m = [statusPath]) \<or>
        (\<exists>header \<in> ran (openvpnServerHeaders ?e).
           m_desc m \<in> Desc ` set (Metrics header) \<and>
           length (m_labelValues m) = Suc (length (LabelColumns header)) \<and>
           hd (m_labelValues m) = statusPath)"
  obtain ls scanErr where sl: "ScanLines lib file = (ls, scanErr)" by (cases "ScanLines lib file")
  have "?P m \<or> m_desc m = openvpnConnectedClientsDesc ?e"
    using assms
  proof
    let ?r = "forScan (serverLine lib ?e statusPath separator) initState ls"
    assume "m \<in> set (fst (collectServerStatusFromReader lib ?e statusPath file separator))"
    then have "m \<in> set (fst (finishServer lib ?e statusPath scanErr ?r))"
      by (simp add: collectServerStatusFromReader_def sl)
    with finishServer_sent[of lib ?e statusPath scanErr ?r]
    have "m \<in> set (ch (stateOf ?r)) \<or>
        m = connectedClientsMetric lib ?e statusPath (numberConnectedClient (stateOf ?r))" by blast
    moreover have "\<forall>m \<in> set (ch (stateOf ?r)). ?P m"
      by (rule serverScan_sent) (simp add: initState_def)
    ultimately show ?thesis
      by (auto simp: connectedClientsMetric_def MustNewConstMetric_def)
  next
    let ?r = "forScan (serverLineV4 lib ?e statusPath) initStateV4 ls"
    assume "m \<in> set (fst (collectServerStatusFromReaderV4 lib ?e statusPath file))"
    then have "m \<in> set (fst (finishServer lib ?e statusPath scanErr ?r))"
      by (simp add: collectServerStatusFromReaderV4_def sl)
    with finishServer_sent[of lib ?e statusPath scanErr ?r]
    have "m \<in> set (ch (stateOf ?r)) \<or>
        m = connectedClientsMetric lib ?e statusPath (numberConnectedClient (stateOf ?r))" by blast
    moreover have "\<forall>m \<in> set (ch (stateOf ?r)). ?P m"
      by (rule serverScanV4_sent) (simp add: initStateV4_def)
    ultimately show ?thesis
      by (auto simp: connectedClientsMetric_def MustNewConstMetric_def)
  qed
  then show ?thesis by (intro New_row_labels) blast
qed

theorem row_metric_labels_witness:
  "length [''p'', ''alice'', ''2024-10-21 09:00:00'', ''1.2.3.4:5'', [], ''alice''] =
     1 + length (LabelColumns (clientListHeader False)) \<and>
   MustNewConstMetric (Desc (receivedField False)) CounterValue 10
        [''p'', ''alice'', ''2024-10-21 09:00:00'', ''1.2.3.4:5'', [], ''alice'']
     \<in> set (fst (collectServerStatusFromReaderV4 demoLib (NewOpenVPNExporter [''p''] False) ''p'' sampleV4))"
proof -
  let ?m = "MustNewConstMetric (Desc (receivedField False)) CounterValue (10 :: real)
        [''p'', ''alice'', ''2024-10-21 09:00:00'', ''1.2.3.4:5'', [], ''alice'']"
  have a: "?m \<in> set (fst (collectServerStatusFromReaderV4 demoLib (NewOpenVPNExporter [''p''] False) ''p'' sampleV4))"
    by (simp add: sampleV4_result)
  have b: "m_desc ?m \<in> Desc ` set (Metrics (clientListHeader False))"
    by (simp add: MustNewConstMetric_def clientListHeader_def)
  from row_metric_labels[of ?m demoLib "[''p'']" False "''p''" sampleV4] a b
  have "length (m_labelValues ?m) = 1 + length (LabelColumns (clientListHeader False))" by blast
  with a show ?thesis by (simp add: MustNewConstMetric_def)
qed

subsection \<open>The client parser on the sample of the specification\<close>

lemmas client_defs = strings_Split_def clientLine_def finishClient_def MustNewConstMetric_def
  collectClientStatusFromReader_def

lemma clientLine_sent:
  "\<exists>new. stateOf (clientLine lib e statusPath sent line) = sent @ new"
  by (auto simp: clientLine_def Let_def split: list.splits option.splits)

lemma clientScan_sent:
  "prefix sent (stateOf (forScan (clientLine lib e statusPath) sent ls))"
proof (rule forScan_invariant[where P = "\<lambda>s. prefix sent s"])
  show "prefix sent sent" by simp
next
  fix s l
  assume "prefix sent s"
  moreover obtain new where "stateOf (clientLine lib e statusPath s l) = s @ new"
    using clientLine_sent by blast
  ultimately show "prefix sent (stateOf (clientLine lib e statusPath s l))"
    by (simp add: prefix_order.trans)
qed

lemma finishClient_fst: "fst (finishClient scanErr r) = stateOf r"
  by (cases r) (simp_all add: finishClient_def)

lemma New_tcp_udp_read:
  "openvpnClientDescs (NewOpenVPNExporter paths ign) ''TCP/UDP read bytes'' =
     Some (clientDesc ''tcp_udp_read_bytes_total'' ''Total amount of TCP/UDP traffic read, in bytes.'')"
  by (simp add: NewOpenVPNExporter_def)

text \<open>
C7. Let a client document hold the line
  \<^verbatim>\<open>Updated,Sun Oct 20 09:23:08 2024\<close> followed by the line
  \<^verbatim>\<open>TCP/UDP read bytes,1234\<close>, after lines that the client parser
  reads without error. Let \<open>t\<close> be the epoch seconds of that date-time
  for the layout \<^verbatim>\<open>Mon Jan 2 15:04:05 2006\<close> in the local zone, and
  \<open>v\<close> the float that \<^verbatim>\<open>1234\<close> parses to. Then the scan sends, one
  after the other, the gauge \<^verbatim>\<open>openvpn_status_update_time_seconds\<close>
  with the value \<open>t\<close> and the counter
  \<^verbatim>\<open>openvpn_client_tcp_udp_read_bytes_total\<close> with the value \<open>v\<close>,
  both labelled with the status path, whatever follows in the document.
\<close>

theorem client_fixture:
  assumes "ScanLines lib file =
      (pre @ ''Updated,Sun Oct 20 09:23:08 2024'' # ''TCP/UDP read bytes,1234'' # post, scanErr)"
    and "forScan (clientLine lib (NewOpenVPNExporter paths ign) statusPath) [] pre = Next sent"
    and "time_ParseInLocal lib ''Mon Jan 2 15:04:05 2006'' ''Sun Oct 20 09:23:08 2024'' = Some t"
    and "ParseFloat lib ''1234'' = Some v"
  shows "prefix
      (sent @
       [MustNewConstMetric (openvpnStatusUpdateTimeDesc (NewOpenVPNExporter paths ign)) GaugeValue
          (float64 lib t) [statusPath],
        MustNewConstMetric
          (clientDesc ''tcp_udp_read_bytes_total'' ''Total amount of TCP/UDP traffic read, in bytes.'')
          CounterValue v [statusPath]])
      (fst (collectClientStatusFromReader lib (NewOpenVPNExporter paths ign) statusPath file)) \<and>
    fqName (openvpnStatusUpdateTimeDesc (NewOpenVPNExporter paths ign)) =
      ''openvpn_status_update_time_seconds'' \<and>
    fqName (clientDesc ''tcp_udp_read_bytes_total'' ''Total amount of TCP/UDP traffic read, in bytes.'') =
      ''openvpn_client_tcp_udp_read_bytes_total''"
proof (intro conjI)
  let ?e = "NewOpenVPNExporter paths ign"
  let ?body = "clientLine lib ?e statusPath"
  let ?m1 = "MustNewConstMetric (openvpnStatusUpdateTimeDesc ?e) GaugeValue (float64 lib t) [statusPath]"
  let ?m2 = "MustNewConstMetric
          (clientDesc ''tcp_udp_read_bytes_total'' ''Total amount of TCP/UDP traffic read, in bytes.'')
          CounterValue v [statusPath]"
  have s1: "?body sent ''Updated,Sun Oct 20 09:23:08 2024'' = Next (sent @ [?m1])"
    using assms(3) by (simp add: clientLine_def strings_Split_def)
  have s2: "?body (sent @ [?m1]) ''TCP/UDP read bytes,1234'' = Next (sent @ [?m1, ?m2])"
    using assms(4) by (simp add: clientLine_def strings_Split_def New_tcp_udp_read)
  have "forScan ?body []
      (pre @ ''Updated,Sun Oct 20 09:23:08 2024'' # ''TCP/UDP read bytes,1234'' # post) =
      forScan ?body (sent @ [?m1, ?m2]) post"
    using assms(2) s1 s2 by (simp add: forScan_append)
  then have "fst (collectClientStatusFromReader lib ?e statusPath file) =
      stateOf (forScan ?body (sent @ [?m1, ?m2]) post)"
    by (simp add: collectClientStatusFromReader_def assms(1) finishClient_fst)
  then show "prefix (sent @ [?m1, ?m2]) (fst (collectClientStatusFromReader lib ?e statusPath file))"
    by (simp add: clientScan_sent)
  show "fqName (openvpnStatusUpdateTimeDesc ?e) = ''openvpn_status_update_time_seconds''"
    by (simp add: registry_defs)
  show "fqName (clientDesc ''tcp_udp_read_bytes_total'' ''Total amount of TCP/UDP traffic read, in bytes.'') =
      ''openvpn_client_tcp_udp_read_bytes_total''"
    by (simp add: registry_defs)
qed

lemma sampleClient_lines:
  "ScanLines demoLib sampleClient =
     ([''OpenVPN STATISTICS''] @ ''Updated,Sun Oct 20 09:23:08 2024'' # ''TCP/UDP read bytes,1234'' # [''END''],
      None)"
  by (simp add: demo_defs sampleClient_def strings_Split_def)

theorem client_fixture_witness:
  "prefix
      ([] @
       [MustNewConstMetric (openvpnStatusUpdateTimeDesc (NewOpenVPNExporter [''p''] False)) GaugeValue
          (real_of_int 1729416188) [''p''],
        MustNewConstMetric
          (clientDesc ''tcp_udp_read_bytes_total'' ''Total amount of TCP/UDP traffic read, in bytes.'')
          CounterValue (1234 :: real) [''p'']])
      (fst (collectClientStatusFromReader demoLib (NewOpenVPNExporter [''p''] False) ''p'' sampleClient))"
proof -
  have a: "forScan (clientLine demoLib (NewOpenVPNExporter [''p''] False) ''p'') []
             [''OpenVPN STATISTICS''] = Next []"
    by (simp add: clientLine_def strings_Split_def)
  have b: "time_ParseInLocal demoLib ''Mon Jan 2 15:04:05 2006'' ''Sun Oct 20 09:23:08 2024'' =
             Some 1729416188"
    by (simp add: demoLib_def demoTimeParse_def)
  have c: "ParseFloat demoLib ''1234'' = Some 1234"
    by (simp add: demoLib_def demoParseFloat_def digitVal_def)
  from client_fixture[OF sampleClient_lines a b c]
  show ?thesis by (simp add: demoLib_def)
qed

subsection \<open>A value that does not parse\<close>

lemma malformedDoc_detect:
  "collectStatusFromReader demoLib (NewOpenVPNExporter [''p''] False) ''p'' malformedDoc =
     collectServerStatusFromReader demoLib (NewOpenVPNExporter [''p''] False) ''p'' malformedDoc '',''"
  by (simp add: collectStatusFromReader_def malformedDoc_def unlines_def)

lemma malformedDoc_lines:
  "ScanLines demoLib malformedDoc =
     ([''TITLE,OpenVPN 2.6'', ''TIME,2024-10-21 09:23:08,1729502588'',
       ''HEADER,CLIENT_LIST,Common Name,Bytes Received,Bytes Sent''] @
      ''CLIENT_LIST,alice,5,abc'' # [''END''], None)"
  by (simp add: demo_defs malformedDoc_def strings_Split_def)

text \<open>
The claim C1 as it is written says that a scan which fails on a
  malformed value has produced no metric at all. The parsers send each
  metric on the channel as soon as it is parsed and have no way to take
  one back: on \<open>malformedDoc\<close> the scan fails on the sent-bytes field of
  the client row, after the time of the update and the received bytes of
  the same row have been sent.
\<close>

theorem malformed_field_keeps_earlier_metrics:
  "snd (collectStatusFromReader demoLib (NewOpenVPNExporter [''p''] False) ''p'' malformedDoc) =
     Some (NumError ''abc'') \<and>
   map (\<lambda>m. (fqName (m_desc m), m_value m))
     (fst (collectStatusFromReader demoLib (NewOpenVPNExporter [''p''] False) ''p'' malformedDoc)) =
     [(''openvpn_status_update_time_seconds'', 1729502588),
      (''openvpn_server_client_received_bytes_total'', 5)]"
  unfolding malformedDoc_detect collectServerStatusFromReader_def malformedDoc_lines
  by (simp add: registry_defs server_defs demoLib_def demoParseFloat_def digitVal_def Let_def)

lemma exportMetrics_malformed:
  assumes "columnValues (Column metric) = Some cv"
    and "\<not> subslice labels (lookupList (recordedMetrics st) metric)"
    and "ParseFloat lib cv = None"
  shows "exportMetrics lib (metric # rest) columnValues labels st = (st, Some (NumError cv))"
  using assms by simp

lemma serverLine_time_malformed:
  assumes "strings_Split bad separator = [''TIME'', a, b]" "ParseFloat lib b = None"
  shows "serverLine lib e statusPath separator st bad = Return st (NumError b)"
  using assms by (simp add: serverLine_def)

lemma serverLineV4_time_malformed:
  fixes st :: "'f scan_state_v4"
  assumes "currentSection st = ''CLIENT_LIST''" "prefix ''Updated,'' bad"
    and "strings_Split bad '','' = f0 # ts # fs"
    and "time_Parse lib ''2006-01-02 15:04:05'' (TrimSpace lib ts) = None"
  shows "serverLineV4 lib e statusPath st bad = Return st (ParseError (TrimSpace lib ts))"
proof -
  from assms(2) obtain z where z: "bad = ''Updated,'' @ z" by (auto simp: prefix_def)
  then have nt: "bad \<noteq> []" "\<not> isTitleV4 bad" by (simp_all add: isTitleV4_def)
  then have "serverLineV4 lib e statusPath st bad =
      clientListLineV4 lib e statusPath st bad (strings_Split bad '','')"
    using assms(1) by (simp add: serverLineV4_def sectionTitle_other Let_def)
  also have "\<dots> = Return st (ParseError (TrimSpace lib ts))"
    using assms(2,3,4) by (simp add: clientListLineV4_def HasPrefix_def parseTime_def)
  finally show ?thesis .
qed

lemma clientLine_time_malformed:
  assumes "strings_Split bad '','' = [''Updated'', ts]"
    and "time_ParseInLocal lib ''Mon Jan 2 15:04:05 2006'' ts = None"
  shows "clientLine lib e statusPath sent bad = Return sent (ParseError ts)"
  using assms by (simp add: clientLine_def)

lemma clientLine_field_malformed:
  assumes "strings_Split bad '','' = [k, cv]" "k \<noteq> ''Updated''"
    and "openvpnClientDescs e k = Some d" "ParseFloat lib cv = None"
  shows "clientLine lib e statusPath sent bad = Return sent (NumError cv)"
  using assms by (simp add: clientLine_def)

lemma prefix_of_sent:
  "ch s' = ch s @ new \<Longrightarrow> prefix (ch s) (ch s')"
  by simp

lemma exportMetrics_malformed_mem:
  assumes "metric \<in> set ms"
    and "columnValues (Column metric) = Some cv"
    and "ParseFloat lib cv = None"
    and "\<not> subslice labels (lookupList (recordedMetrics st) metric)"
  shows "\<exists>st' v'. exportMetrics lib ms columnValues labels st = (st', Some (NumError v')) \<and>
           ParseFloat lib v' = None"
  using assms
proof (induction ms arbitrary: st)
  case Nil
  then show ?case by simp
next
  case (Cons m rest)
  show ?case
  proof (cases "m = metric")
    case True
    with Cons.prems show ?thesis by simp
  next
    case False
    with Cons.prems have mem: "metric \<in> set rest" by simp
    show ?thesis
    proof (cases "columnValues (Column m)")
      case None
      from Cons.IH[OF mem Cons.prems(2,3,4)] None show ?thesis by simp
    next
      case (Some c)
      show ?thesis
      proof (cases "\<not> subslice labels (lookupList (recordedMetrics st) m)")
        case False
        from Cons.IH[OF mem Cons.prems(2,3,4)] Some False show ?thesis by simp
      next
        case True
        show ?thesis
        proof (cases "ParseFloat lib c")
          case None
          with Some True show ?thesis by simp
        next
          case (Some v)
          let ?st = "st\<lparr>ch := ch st @ [MustNewConstMetric (Desc m) (ValueType m) v labels],
                       recordedMetrics := (recordedMetrics st)
                         (m \<mapsto> lookupList (recordedMetrics st) m @ labels)\<rparr>"
          have "lookupList (recordedMetrics ?st) metric = lookupList (recordedMetrics st) metric"
            using \<open>m \<noteq> metric\<close> by (simp add: lookupList_def)
          with Cons.prems(4) have "\<not> subslice labels (lookupList (recordedMetrics ?st) metric)"
            by simp
          from Cons.IH[OF mem Cons.prems(2,3) this]
          show ?thesis using \<open>columnValues (Column m) = Some c\<close> True Some by simp
        qed
      qed
    qed
  qed
qed

lemma retOf_error: "retOf (st, Some err) = Return st err"
  by (simp add: retOf_def)

lemma serverRow_malformed:
  assumes "headersFound st f0 = Some columnNames"
    and "length row = length columnNames + 1"
    and "metric \<in> set (Metrics header)"
    and "serverColumnValues (LabelColumns header) columnNames row (Column metric) = Some cv"
    and "ParseFloat lib cv = None"
    and "\<not> subslice
           (extractLabels statusPath (LabelColumns header)
              (serverColumnValues (LabelColumns header) columnNames row))
           (lookupList (recordedMetrics st) metric)"
  shows "\<exists>st' v'. serverRow lib statusPath header f0 row st = Return st' (NumError v') \<and>
           ParseFloat lib v' = None"
proof -
  define st1 where "st1 = (if f0 = ''CLIENT_LIST''
                 then st\<lparr>numberConnectedClient := numberConnectedClient st + 1\<rparr> else st)"
  define columnValues where
    "columnValues = serverColumnValues (LabelColumns header) columnNames row"
  define labels where "labels = extractLabels statusPath (LabelColumns header) columnValues"
  have h: "headersFound st1 f0 = Some columnNames" and r: "recordedMetrics st1 = recordedMetrics st"
    using assms(1) by (auto simp: st1_def)
  have eq: "serverRow lib statusPath header f0 row st =
      retOf (exportMetrics lib (Metrics header) columnValues labels st1)"
    using h assms(2)
    by (simp add: serverRow_def Let_def st1_def[symmetric] columnValues_def labels_def)
  have "\<not> subslice labels (lookupList (recordedMetrics st1) metric)"
    using assms(6) by (simp add: r labels_def columnValues_def)
  with assms(3,4,5) obtain st' v' where
    "exportMetrics lib (Metrics header) columnValues labels st1 = (st', Some (NumError v'))"
    "ParseFloat lib v' = None"
    using exportMetrics_malformed_mem[of metric "Metrics header" columnValues cv lib labels st1]
    by (auto simp: columnValues_def)
  with eq show ?thesis by (auto simp: retOf_error)
qed

lemma serverLine_row_malformed:
  assumes "strings_Split bad separator = f0 # fs"
    and "f0 \<notin> {''END'', ''GLOBAL_STATS'', ''HEADER'', ''TIME'', ''TITLE''}"
    and "openvpnServerHeaders e f0 = Some header"
    and "headersFound st f0 = Some columnNames"
    and "length (f0 # fs) = length columnNames + 1"
    and "metric \<in> set (Metrics header)"
    and "serverColumnValues (LabelColumns header) columnNames (f0 # fs) (Column metric) = Some cv"
    and "ParseFloat lib cv = None"
    and "\<not> subslice
           (extractLabels statusPath (LabelColumns header)
              (serverColumnValues (LabelColumns header) columnNames (f0 # fs)))
           (lookupList (recordedMetrics st) metric)"
  shows "\<exists>st' v'. serverLine lib e statusPath separator st bad = Return st' (NumError v') \<and>
           ParseFloat lib v' = None"
proof -
  from assms(1,2,3) have "serverLine lib e statusPath separator st bad =
      serverRow lib statusPath header f0 (f0 # fs) st"
    by (auto simp: serverLine_def Let_def)
  with serverRow_malformed[OF assms(4,5,6,7,8,9)] show ?thesis by simp
qed

lemma dataRowV4_malformed:
  assumes "metric \<in> set (Metrics header)"
    and "columnValuesV4 (lookupList (headersFound st) section) row (Column metric) = Some cv"
    and "ParseFloat lib cv = None"
    and "\<not> subslice
           (extractLabels statusPath (LabelColumns header)
              (columnValuesV4 (lookupList (headersFound st) section) row))
           (lookupList (recordedMetrics st) metric)"
  shows "\<exists>st' v'. dataRowV4 lib statusPath header section row st = Return st' (NumError v') \<and>
           ParseFloat lib v' = None"
proof -
  define columnValues where
    "columnValues = columnValuesV4 (lookupList (headersFound st) section) row"
  define labels where "labels = extractLabels statusPath (LabelColumns header) columnValues"
  have eq: "dataRowV4 lib statusPath header section row st =
      retOf (exportMetrics lib (Metrics header) columnValues labels st)"
    by (simp add: dataRowV4_def Let_def columnValues_def labels_def)
  from assms obtain st' v' where
    "exportMetrics lib (Metrics header) columnValues labels st = (st', Some (NumError v'))"
    "ParseFloat lib v' = None"
    using exportMetrics_malformed_mem[of metric "Metrics header" columnValues cv lib labels st]
    by (auto simp: columnValues_def labels_def)
  with eq show ?thesis by (auto simp: retOf_error)
qed

lemma serverLineV4_client_row_malformed:
  fixes st :: "'f scan_state_v4"
  assumes "currentSection st = ''CLIENT_LIST''" "isClientRowV4 bad"
    and "openvpnServerHeaders e ''CLIENT_LIST'' = Some header"
    and "metric \<in> set (Metrics header)"
    and "columnValuesV4 (lookupList (headersFound st) ''CLIENT_LIST'') (strings_Split bad '','')
           (Column metric) = Some cv"
    and "ParseFloat lib cv = None"
    and "\<not> subslice
           (extractLabels statusPath (LabelColumns header)
              (columnValuesV4 (lookupList (headersFound st) ''CLIENT_LIST'') (strings_Split bad '','')))
           (lookupList (recordedMetrics st) metric)"
  shows "\<exists>st' v'. serverLineV4 lib e statusPath st bad = Return st' (NumError v') \<and>
           ParseFloat lib v' = None"
proof -
  let ?st1 = "st\<lparr>numberConnectedClient := numberConnectedClient st + 1\<rparr>"
  from assms(2) have nt: "bad \<noteq> []" "\<not> isTitleV4 bad"
    and np: "\<not> prefix ''Updated,'' bad" "\<not> prefix ''Common Name,'' bad"
    by (simp_all add: isClientRowV4_def)
  from nt assms(1) have "serverLineV4 lib e statusPath st bad =
      clientListLineV4 lib e statusPath st bad (strings_Split bad '','')"
    by (simp add: serverLineV4_def sectionTitle_other Let_def)
  also have "\<dots> = dataRowV4 lib statusPath header ''CLIENT_LIST'' (strings_Split bad '','') ?st1"
    using np assms(3) by (simp add: clientListLineV4_def HasPrefix_def)
  finally have eq: "serverLineV4 lib e statusPath st bad =
      dataRowV4 lib statusPath header ''CLIENT_LIST'' (strings_Split bad '','') ?st1" .
  have "\<exists>st' v'. dataRowV4 lib statusPath header ''CLIENT_LIST'' (strings_Split bad '','') ?st1 =
      Return st' (NumError v') \<and> ParseFloat lib v' = None"
    using assms(4,5,6,7) by (intro dataRowV4_malformed[where metric = metric and cv = cv]) simp_all
  with eq show ?thesis by simp
qed

lemma serverLineV4_routing_row_malformed:
  fixes st :: "'f scan_state_v4"
  assumes "currentSection st = ''ROUTING_TABLE''" "isRoutingRowV4 bad"
    and "openvpnServerHeaders e ''ROUTING_TABLE'' = Some header"
    and "metric \<in> set (Metrics header)"
    and "columnValuesV4 (lookupList (headersFound st) ''ROUTING_TABLE'') (strings_Split bad '','')
           (Column metric) = Some cv"
    and "ParseFloat lib cv = None"
    and "\<not> subslice
           (extractLabels statusPath (LabelColumns header)
              (columnValuesV4 (lookupList (headersFound st) ''ROUTING_TABLE'') (strings_Split bad '','')))
           (lookupList (recordedMetrics st) metric)"
  shows "\<exists>st' v'. serverLineV4 lib e statusPath st bad = Return st' (NumError v') \<and>
           ParseFloat lib v' = None"
proof -
  from assms(2) have nt: "bad \<noteq> []" "\<not> isTitleV4 bad"
    and np: "\<not> prefix ''Virtual Address,'' bad"
    by (simp_all add: isRoutingRowV4_def)
  from nt assms(1) have "serverLineV4 lib e statusPath st bad =
      routingTableLineV4 lib e statusPath st bad (strings_Split bad '','')"
    by (simp add: serverLineV4_def sectionTitle_other Let_def)
  also have "\<dots> = dataRowV4 lib statusPath header ''ROUTING_TABLE'' (strings_Split bad '','') st"
    using np assms(3) by (simp add: routingTableLineV4_def HasPrefix_def)
  finally have eq: "serverLineV4 lib e statusPath st bad =
      dataRowV4 lib statusPath header ''ROUTING_TABLE'' (strings_Split bad '','') st" .
  from dataRowV4_malformed[OF assms(4,5,6,7)] eq show ?thesis by simp
qed

text \<open>
  C1, amended. In every dialect, when a line that the scan reaches has a
  value that does not parse, the scan returns one error at once: what is
  on the channel is what the lines before it have sent, followed by what
  the failing line sent before it failed; no later line adds to it, and
  the gauge of the connected clients is not sent. Conjuncts 1 to 3 say
  this for whatever error the loop body returns, in each of the three
  parsers. The last three conjuncts say it for the rows of the two server
  parsers: when a row of a registered section (with its header, and in
  version 2/3 with the right number of fields) has a metric field whose
  labels pass the dedup check and whose value does not parse as a float,
  the scan fails with the error of a value of that row that does not
  parse. Conjunct 4 is the step of \<open>exportMetrics\<close> at such a field, and
  conjuncts 5 to 8 are the other lines: the time of a \<^verbatim>\<open>TIME\<close> line
  of version 2/3, the time of an \<^verbatim>\<open>Updated\<close> line of version 4 or of
  a client document, and a counter of a client document.
\<close>

theorem failure_aborts_scan:
  fixes st st' :: "'f scan_state" and st4 st4' :: "'f scan_state_v4"
  assumes "ScanLines lib file = (pre @ bad # post, scanErr)"
  shows
   "(forScan (serverLine lib e statusPath separator) initState pre = Next st \<and>
     serverLine lib e statusPath separator st bad = Return st' err \<longrightarrow>
       collectServerStatusFromReader lib e statusPath file separator = (ch st', Some err) \<and>
       prefix (ch st) (ch st')) \<and>
    (forScan (serverLineV4 lib e statusPath) initStateV4 pre = Next st4 \<and>
     serverLineV4 lib e statusPath st4 bad = Return st4' err \<longrightarrow>
       collectServerStatusFromReaderV4 lib e statusPath file = (ch st4', Some err) \<and>
       prefix (ch st4) (ch st4')) \<and>
    (forScan (clientLine lib e statusPath) [] pre = Next sent \<and>
     clientLine lib e statusPath sent bad = Return sent' err \<longrightarrow>
       collectClientStatusFromReader lib e statusPath file = (sent', Some err) \<and>
       prefix sent sent') \<and>
    (columnValues (Column metric) = Some cv \<and>
     \<not> subslice labels (lookupList (recordedMetrics st) metric) \<and> ParseFloat lib cv = None \<longrightarrow>
       exportMetrics lib (metric # rest) columnValues labels st = (st, Some (NumError cv))) \<and>
    (strings_Split bad separator = [''TIME'', a, b] \<and> ParseFloat lib b = None \<longrightarrow>
       serverLine lib e statusPath separator st bad = Return st (NumError b)) \<and>
    (currentSection st4 = ''CLIENT_LIST'' \<and> prefix ''Updated,'' bad \<and>
     strings_Split bad '','' = f0 # ts # fs \<and>
     time_Parse lib ''2006-01-02 15:04:05'' (TrimSpace lib ts) = None \<longrightarrow>
       serverLineV4 lib e statusPath st4 bad = Return st4 (ParseError (TrimSpace lib ts))) \<and>
    (strings_Split bad '','' = [''Updated'', ts] \<and>
     time_ParseInLocal lib ''Mon Jan 2 15:04:05 2006'' ts = None \<longrightarrow>
       clientLine lib e statusPath sent bad = Return sent (ParseError ts)) \<and>
    (strings_Split bad '','' = [k, cv] \<and> k \<noteq> ''Updated'' \<and>
     openvpnClientDescs e k = Some d \<and> ParseFloat lib cv = None \<longrightarrow>
       clientLine lib e statusPath sent bad = Return sent (NumError cv)) \<and>
    (forScan (serverLine lib e statusPath separator) initState pre = Next st \<and>
     strings_Split bad separator = f0 # fs \<and>
     f0 \<notin> {''END'', ''GLOBAL_STATS'', ''HEADER'', ''TIME'', ''TITLE''} \<and>
     openvpnServerHeaders e f0 = Some header \<and>
     headersFound st f0 = Some columnNames \<and> length (f0 # fs) = length columnNames + 1 \<and>
     metric \<in> set (Metrics header) \<and>
     serverColumnValues (LabelColumns header) columnNames (f0 # fs) (Column metric) = Some cv \<and>
     ParseFloat lib cv = None \<and>
     \<not> subslice
         (extractLabels statusPath (LabelColumns header)
            (serverColumnValues (LabelColumns header) columnNames (f0 # fs)))
         (lookupList (recordedMetrics st) metric) \<longrightarrow>
       (\<exists>(s :: 'f scan_state) v'. collectServerStatusFromReader lib e statusPath file separator =
                 (ch s, Some (NumError v')) \<and>
               ParseFloat lib v' = None \<and> prefix (ch st) (ch s))) \<and>
    (forScan (serverLineV4 lib e statusPath) initStateV4 pre = Next st4 \<and>
     currentSection st4 = ''CLIENT_LIST'' \<and> isClientRowV4 bad \<and>
     openvpnServerHeaders e ''CLIENT_LIST'' = Some header \<and> metric \<in> set (Metrics header) \<and>
     columnValuesV4 (lookupList (headersFound st4) ''CLIENT_LIST'') (strings_Split bad '','')
       (Column metric) = Some cv \<and>
     ParseFloat lib cv = None \<and>
     \<not> subslice
         (extractLabels statusPath (LabelColumns header)
            (columnValuesV4 (lookupList (headersFound st4) ''CLIENT_LIST'') (strings_Split bad '','')))
         (lookupList (recordedMetrics st4) metric) \<longrightarrow>
       (\<exists>(s :: 'f scan_state_v4) v'. collectServerStatusFromReaderV4 lib e statusPath file =
                 (ch s, Some (NumError v')) \<and>
               ParseFloat lib v' = None \<and> prefix (ch st4) (ch s))) \<and>
    (forScan (serverLineV4 lib e statusPath) initStateV4 pre = Next st4 \<and>
     currentSection st4 = ''ROUTING_TABLE'' \<and> isRoutingRowV4 bad \<and>
     openvpnServerHeaders e ''ROUTING_TABLE'' = Some header \<and> metric \<in> set (Metrics header) \<and>
     columnValuesV4 (lookupList (headersFound st4) ''ROUTING_TABLE'') (strings_Split bad '','')
       (Column metric) = Some cv \<and>
     ParseFloat lib cv = None \<and>
     \<not> subslice
         (extractLabels statusPath (LabelColumns header)
            (columnValuesV4 (lookupList (headersFound st4) ''ROUTING_TABLE'') (strings_Split bad '','')))
         (lookupList (recordedMetrics st4) metric) \<longrightarrow>
       (\<exists>(s :: 'f scan_state_v4) v'. collectServerStatusFromReaderV4 lib e statusPath file =
                 (ch s, Some (NumError v')) \<and>
               ParseFloat lib v' = None \<and> prefix (ch st4) (ch s)))"
proof (intro conjI impI)
  assume a: "forScan (serverLine lib e statusPath separator) initState pre = Next st \<and>
     serverLine lib e statusPath separator st bad = Return st' err"
  then have "forScan (serverLine lib e statusPath separator) initState (pre @ bad # post) = Return st' err"
    by (intro forScan_snoc_Return) auto
  then show "collectServerStatusFromReader lib e statusPath file separator = (ch st', Some err)"
    by (simp add: collectServerStatusFromReader_def assms finishServer_def)
  from serverLine_sent[of lib e statusPath separator st bad] a
  show "prefix (ch st) (ch st')" by auto
next
  assume a: "forScan (serverLineV4 lib e statusPath) initStateV4 pre = Next st4 \<and>
     serverLineV4 lib e statusPath st4 bad = Return st4' err"
  then have "forScan (serverLineV4 lib e statusPath) initStateV4 (pre @ bad # post) = Return st4' err"
    by (intro forScan_snoc_Return) auto
  then show "collectServerStatusFromReaderV4 lib e statusPath file = (ch st4', Some err)"
    by (simp add: collectServerStatusFromReaderV4_def assms finishServer_def)
  from serverLineV4_sent[of lib e statusPath st4 bad] a
  show "prefix (ch st4) (ch st4')" by auto
next
  assume a: "forScan (clientLine lib e statusPath) [] pre = Next sent \<and>
     clientLine lib e statusPath sent bad = Return sent' err"
  then have "forScan (clientLine lib e statusPath) [] (pre @ bad # post) = Return sent' err"
    by (intro forScan_snoc_Return) auto
  then show "collectClientStatusFromReader lib e statusPath file = (sent', Some err)"
    by (simp add: collectClientStatusFromReader_def assms finishClient_def)
  from clientLine_sent[of lib e statusPath sent bad] a
  show "prefix sent sent'" by auto
next
  assume "columnValues (Column metric) = Some cv \<and>
     \<not> subslice labels (lookupList (recordedMetrics st) metric) \<and> ParseFloat lib cv = None"
  then show "exportMetrics lib (metric # rest) columnValues labels st = (st, Some (NumError cv))"
    by (intro exportMetrics_malformed) auto
next
  assume "strings_Split bad separator = [''TIME'', a, b] \<and> ParseFloat lib b = None"
  then show "serverLine lib e statusPath separator st bad = Return st (NumError b)"
    by (intro serverLine_time_malformed) auto
next
  assume "currentSection st4 = ''CLIENT_LIST'' \<and> prefix ''Updated,'' bad \<and>
     strings_Split bad '','' = f0 # ts # fs \<and>
     time_Parse lib ''2006-01-02 15:04:05'' (TrimSpace lib ts) = None"
  then show "serverLineV4 lib e statusPath st4 bad = Return st4 (ParseError (TrimSpace lib ts))"
    by (intro serverLineV4_time_malformed) auto
next
  assume "strings_Split bad '','' = [''Updated'', ts] \<and>
     time_ParseInLocal lib ''Mon Jan 2 15:04:05 2006'' ts = None"
  then show "clientLine lib e statusPath sent bad = Return sent (ParseError ts)"
    by (intro clientLine_time_malformed) auto
next
  assume "strings_Split bad '','' = [k, cv] \<and> k \<noteq> ''Updated'' \<and>
     openvpnClientDescs e k = Some d \<and> ParseFloat lib cv = None"
  then show "clientLine lib e statusPath sent bad = Return sent (NumError cv)"
    by (intro clientLine_field_malformed) auto
next
  assume a: "forScan (serverLine lib e statusPath separator) initState pre = Next st \<and>
     strings_Split bad separator = f0 # fs \<and>
     f0 \<notin> {''END'', ''GLOBAL_STATS'', ''HEADER'', ''TIME'', ''TITLE''} \<and>
     openvpnServerHeaders e f0 = Some header \<and>
     headersFound st f0 = Some columnNames \<and> length (f0 # fs) = length columnNames + 1 \<and>
     metric \<in> set (Metrics header) \<and>
     serverColumnValues (LabelColumns header) columnNames (f0 # fs) (Column metric) = Some cv \<and>
     ParseFloat lib cv = None \<and>
     \<not> subslice
         (extractLabels statusPath (LabelColumns header)
            (serverColumnValues (LabelColumns header) columnNames (f0 # fs)))
         (lookupList (recordedMetrics st) metric)"
  then obtain s v' where
    r: "serverLine lib e statusPath separator st bad = Return s (NumError v')"
      "ParseFloat lib v' = None"
    using serverLine_row_malformed[of bad separator f0 fs e header st columnNames metric cv lib statusPath]
    by blast
  from a r(1) have "forScan (serverLine lib e statusPath separator) initState (pre @ bad # post) =
      Return s (NumError v')"
    by (intro forScan_snoc_Return) auto
  then have "collectServerStatusFromReader lib e statusPath file separator = (ch s, Some (NumError v'))"
    by (simp add: collectServerStatusFromReader_def assms finishServer_def)
  moreover from serverLine_sent[of lib e statusPath separator st bad] r(1)
  have "prefix (ch st) (ch s)" by auto
  ultimately show "\<exists>(s :: 'f scan_state) v'. collectServerStatusFromReader lib e statusPath file separator =
                 (ch s, Some (NumError v')) \<and>
               ParseFloat lib v' = None \<and> prefix (ch st) (ch s)"
    using r(2) by blast
next
  assume a: "forScan (serverLineV4 lib e statusPath) initStateV4 pre = Next st4 \<and>
     currentSection st4 = ''CLIENT_LIST'' \<and> isClientRowV4 bad \<and>
     openvpnServerHeaders e ''CLIENT_LIST'' = Some header \<and> metric \<in> set (Metrics header) \<and>
     columnValuesV4 (lookupList (headersFound st4) ''CLIENT_LIST'') (strings_Split bad '','')
       (Column metric) = Some cv \<and>
     ParseFloat lib cv = None \<and>
     \<not> subslice
         (extractLabels statusPath (LabelColumns header)
            (columnValuesV4 (lookupList (headersFound st4) ''CLIENT_LIST'') (strings_Split bad '','')))
         (lookupList (recordedMetrics st4) metric)"
  then obtain s v' where
    r: "serverLineV4 lib e statusPath st4 bad = Return s (NumError v')"
      "ParseFloat lib v' = None"
    using serverLineV4_client_row_malformed[of st4 bad e header metric cv lib statusPath]
    by blast
  from a r(1) have "forScan (serverLineV4 lib e statusPath) initStateV4 (pre @ bad # post) =
      Return s (NumError v')"
    by (intro forScan_snoc_Return) auto
  then have "collectServerStatusFromReaderV4 lib e statusPath file = (ch s, Some (NumError v'))"
    by (simp add: collectServerStatusFromReaderV4_def assms finishServer_def)
  moreover from serverLineV4_sent[of lib e statusPath st4 bad] r(1)
  have "prefix (ch st4) (ch s)" by auto
  ultimately show "\<exists>(s :: 'f scan_state_v4) v'. collectServerStatusFromReaderV4 lib e statusPath file =
                 (ch s, Some (NumError v')) \<and>
               ParseFloat lib v' = None \<and> prefix (ch st4) (ch s)"
    using r(2) by blast
next
  assume a: "forScan (serverLineV4 lib e statusPath) initStateV4 pre = Next st4 \<and>
     currentSection st4 = ''ROUTING_TABLE'' \<and> isRoutingRowV4 bad \<and>
     openvpnServerHeaders e ''ROUTING_TABLE'' = Some header \<and> metric \<in> set (Metrics header) \<and>
     columnValuesV4 (lookupList (headersFound st4) ''ROUTING_TABLE'') (strings_Split bad '','')
       (Column metric) = Some cv \<and>
     ParseFloat lib cv = None \<and>
     \<not> subslice
         (extractLabels statusPath (LabelColumns header)
            (columnValuesV4 (lookupList (headersFound st4) ''ROUTING_TABLE'') (strings_Split bad '','')))
         (lookupList (recordedMetrics st4) metric)"
  then obtain s v' where
    r: "serverLineV4 lib e statusPath st4 bad = Return s (NumError v')"
      "ParseFloat lib v' = None"
    using serverLineV4_routing_row_malformed[of st4 bad e header metric cv lib statusPath]
    by blast
  from a r(1) have "forScan (serverLineV4 lib e statusPath) initStateV4 (pre @ bad # post) =
      Return s (NumError v')"
    by (intro forScan_snoc_Return) auto
  then have "collectServerStatusFromReaderV4 lib e statusPath file = (ch s, Some (NumError v'))"
    by (simp add: collectServerStatusFromReaderV4_def assms finishServer_def)
  moreover from serverLineV4_sent[of lib e statusPath st4 bad] r(1)
  have "prefix (ch st4) (ch s)" by auto
  ultimately show "\<exists>(s :: 'f scan_state_v4) v'. collectServerStatusFromReaderV4 lib e statusPath file =
                 (ch s, Some (NumError v')) \<and>
               ParseFloat lib v' = None \<and> prefix (ch st4) (ch s)"
    using r(2) by blast
qed

theorem failure_aborts_scan_witness:
  "collectServerStatusFromReader demoLib (NewOpenVPNExporter [''p''] False) ''p'' malformedDoc '','' =
     ([MustNewConstMetric (openvpnStatusUpdateTimeDesc (NewOpenVPNExporter [''p''] False)) GaugeValue
         1729502588 [''p''],
       MustNewConstMetric (Desc (receivedField False)) CounterValue 5
         [''p'', ''alice'', [], [], [], ''alice'']],
      Some (NumError ''abc'')) \<and>
   collectServerStatusFromReaderV4 demoLib (NewOpenVPNExporter [''p''] False) ''p''
     (unlines [''OpenVPN CLIENT LIST'', ''Updated,yesterday'', ''END'']) =
     ([], Some (ParseError ''yesterday'')) \<and>
   collectClientStatusFromReader demoLib (NewOpenVPNExporter [''p''] False) ''p''
     (unlines [''OpenVPN STATISTICS'', ''TCP/UDP read bytes,abc'', ''END'']) =
     ([], Some (NumError ''abc'')) \<and>
   (\<exists>v'. snd (collectServerStatusFromReader demoLib (NewOpenVPNExporter [''p''] False) ''p''
               malformedDoc '','') = Some (NumError v') \<and>
         ParseFloat demoLib v' = None) \<and>
   (\<exists>v'. snd (collectServerStatusFromReaderV4 demoLib (NewOpenVPNExporter [''p''] False) ''p''
               (unlines [''OpenVPN CLIENT LIST'', ''Common Name,Bytes Received'', ''alice,abc'',
                         ''END''])) = Some (NumError v') \<and>
         ParseFloat demoLib v' = None) \<and>
   (\<exists>v'. snd (collectServerStatusFromReaderV4 demoLib (NewOpenVPNExporter [''p''] False) ''p''
               (unlines [''ROUTING TABLE'', ''Virtual Address,Common Name,Last Ref (time_t)'',
                         ''10.8.0.2,alice,soon'', ''END''])) = Some (NumError v') \<and>
         ParseFloat demoLib v' = None)"
proof (intro conjI)
  let ?e = "NewOpenVPNExporter [''p''] False"
  let ?body = "serverLine demoLib ?e ''p'' '',''"
  let ?pre = "[''TITLE,OpenVPN 2.6'', ''TIME,2024-10-21 09:23:08,1729502588'',
       ''HEADER,CLIENT_LIST,Common Name,Bytes Received,Bytes Sent'']"
  let ?st = "stateOf (forScan ?body initState ?pre)"
  let ?st' = "stateOf (?body ?st ''CLIENT_LIST,alice,5,abc'')"
  have h: "forScan ?body initState ?pre = Next ?st \<and>
     ?body ?st ''CLIENT_LIST,alice,5,abc'' = Return ?st' (NumError ''abc'')"
    by (simp add: registry_defs server_defs demoLib_def demoParseFloat_def digitVal_def Let_def)
  have c: "ch ?st' = [MustNewConstMetric (openvpnStatusUpdateTimeDesc ?e) GaugeValue 1729502588 [''p''],
       MustNewConstMetric (Desc (receivedField False)) CounterValue 5
         [''p'', ''alice'', [], [], [], ''alice'']]"
    by (simp add: registry_defs server_defs demoLib_def demoParseFloat_def digitVal_def Let_def)
  from failure_aborts_scan[OF malformedDoc_lines, where e = ?e and statusPath = "''p''"
      and separator = "'',''" and st = ?st and st' = ?st' and err = "NumError ''abc''"] h
  have "collectServerStatusFromReader demoLib ?e ''p'' malformedDoc '','' = (ch ?st', Some (NumError ''abc''))"
    by blast
  then show "collectServerStatusFromReader demoLib ?e ''p'' malformedDoc '','' =
     ([MustNewConstMetric (openvpnStatusUpdateTimeDesc ?e) GaugeValue 1729502588 [''p''],
       MustNewConstMetric (Desc (receivedField False)) CounterValue 5
         [''p'', ''alice'', [], [], [], ''alice'']],
      Some (NumError ''abc''))"
    unfolding c .
next
  let ?e = "NewOpenVPNExporter [''p''] False"
  let ?body = "serverLineV4 demoLib ?e ''p''"
  let ?st = "(initStateV4 :: real scan_state_v4)\<lparr>currentSection := ''CLIENT_LIST''\<rparr>"
  have l: "ScanLines demoLib (unlines [''OpenVPN CLIENT LIST'', ''Updated,yesterday'', ''END'']) =
     ([''OpenVPN CLIENT LIST''] @ ''Updated,yesterday'' # [''END''], None)"
    by (simp add: demo_defs strings_Split_def)
  have h: "forScan ?body initStateV4 [''OpenVPN CLIENT LIST''] = Next ?st \<and>
     ?body ?st ''Updated,yesterday'' = Return ?st (ParseError ''yesterday'')"
    by (simp add: v4_defs demoLib_def demoTimeParse_def Let_def)
  from failure_aborts_scan[OF l, where e = ?e and statusPath = "''p''"
      and ?st4.0 = ?st and st4' = ?st and err = "ParseError ''yesterday''"] h
  have "collectServerStatusFromReaderV4 demoLib ?e ''p''
     (unlines [''OpenVPN CLIENT LIST'', ''Updated,yesterday'', ''END'']) =
     (ch ?st, Some (ParseError ''yesterday''))"
    by blast
  then show "collectServerStatusFromReaderV4 demoLib ?e ''p''
     (unlines [''OpenVPN CLIENT LIST'', ''Updated,yesterday'', ''END'']) =
     ([], Some (ParseError ''yesterday''))"
    by (simp add: initStateV4_def)
next
  let ?e = "NewOpenVPNExporter [''p''] False"
  let ?body = "clientLine demoLib ?e ''p''"
  have l: "ScanLines demoLib (unlines [''OpenVPN STATISTICS'', ''TCP/UDP read bytes,abc'', ''END'']) =
     ([''OpenVPN STATISTICS''] @ ''TCP/UDP read bytes,abc'' # [''END''], None)"
    by (simp add: demo_defs strings_Split_def)
  have h: "forScan ?body [] [''OpenVPN STATISTICS''] = Next [] \<and>
     ?body [] ''TCP/UDP read bytes,abc'' = Return [] (NumError ''abc'')"
    by (simp add: clientLine_def strings_Split_def New_tcp_udp_read demoLib_def demoParseFloat_def
          digitVal_def)
  from failure_aborts_scan[OF l, where e = ?e and statusPath = "''p''"
      and sent = "[]" and sent' = "[]" and err = "NumError ''abc''"] h
  show "collectClientStatusFromReader demoLib ?e ''p''
     (unlines [''OpenVPN STATISTICS'', ''TCP/UDP read bytes,abc'', ''END'']) =
     ([], Some (NumError ''abc''))"
    by blast
next
  let ?e = "NewOpenVPNExporter [''p''] False"
  let ?body = "serverLine demoLib ?e ''p'' '',''"
  let ?pre = "[''TITLE,OpenVPN 2.6'', ''TIME,2024-10-21 09:23:08,1729502588'',
       ''HEADER,CLIENT_LIST,Common Name,Bytes Received,Bytes Sent'']"
  let ?st = "stateOf (forScan ?body initState ?pre)"
  let ?cols = "[''Common Name'', ''Bytes Received'', ''Bytes Sent'']"
  let ?row = "''CLIENT_LIST'' # [''alice'', ''5'', ''abc'']"
  have h: "forScan ?body initState ?pre = Next ?st \<and>
     strings_Split ''CLIENT_LIST,alice,5,abc'' '','' = ?row \<and>
     ''CLIENT_LIST'' \<notin> {''END'', ''GLOBAL_STATS'', ''HEADER'', ''TIME'', ''TITLE''} \<and>
     openvpnServerHeaders ?e ''CLIENT_LIST'' = Some (clientListHeader False) \<and>
     headersFound ?st ''CLIENT_LIST'' = Some ?cols \<and> length ?row = length ?cols + 1 \<and>
     sentField False \<in> set (Metrics (clientListHeader False)) \<and>
     serverColumnValues (LabelColumns (clientListHeader False)) ?cols ?row
       (Column (sentField False)) = Some ''abc'' \<and>
     ParseFloat demoLib ''abc'' = None \<and>
     \<not> subslice
         (extractLabels ''p'' (LabelColumns (clientListHeader False))
            (serverColumnValues (LabelColumns (clientListHeader False)) ?cols ?row))
         (lookupList (recordedMetrics ?st) (sentField False))"
    by (simp add: registry_defs server_defs demoLib_def demoParseFloat_def digitVal_def Let_def)
  note r = failure_aborts_scan[OF malformedDoc_lines, where e = ?e and statusPath = "''p''"
      and separator = "'',''" and st = ?st and ?f0.0 = "''CLIENT_LIST''"
      and fs = "[''alice'', ''5'', ''abc'']" and header = "clientListHeader False"
      and columnNames = ?cols and metric = "sentField False" and cv = "''abc''",
      THEN conjunct2, THEN conjunct2, THEN conjunct2, THEN conjunct2, THEN conjunct2, THEN conjunct2, THEN conjunct2, THEN conjunct2, THEN conjunct1, THEN mp, OF h]
  from r
  obtain s :: "real scan_state" and v' where
    "collectServerStatusFromReader demoLib ?e ''p'' malformedDoc '','' = (ch s, Some (NumError v'))"
    "ParseFloat demoLib v' = None"
    by blast
  then show "\<exists>v'. snd (collectServerStatusFromReader demoLib ?e ''p'' malformedDoc '','') =
        Some (NumError v') \<and> ParseFloat demoLib v' = None"
    by auto
next
  let ?e = "NewOpenVPNExporter [''p''] False"
  let ?body = "serverLineV4 demoLib ?e ''p''"
  let ?pre = "[''OpenVPN CLIENT LIST'', ''Common Name,Bytes Received'']"
  let ?st = "stateOf (forScan ?body initStateV4 ?pre)"
  have l: "ScanLines demoLib (unlines [''OpenVPN CLIENT LIST'', ''Common Name,Bytes Received'',
              ''alice,abc'', ''END'']) = (?pre @ ''alice,abc'' # [''END''], None)"
    by (simp add: demo_defs strings_Split_def)
  have h: "forScan ?body initStateV4 ?pre = Next ?st \<and>
     currentSection ?st = ''CLIENT_LIST'' \<and> isClientRowV4 ''alice,abc'' \<and>
     openvpnServerHeaders ?e ''CLIENT_LIST'' = Some (clientListHeader False) \<and>
     receivedField False \<in> set (Metrics (clientListHeader False)) \<and>
     columnValuesV4 (lookupList (headersFound ?st) ''CLIENT_LIST'') (strings_Split ''alice,abc'' '','')
       (Column (receivedField False)) = Some ''abc'' \<and>
     ParseFloat demoLib ''abc'' = None \<and>
     \<not> subslice
         (extractLabels ''p'' (LabelColumns (clientListHeader False))
            (columnValuesV4 (lookupList (headersFound ?st) ''CLIENT_LIST'')
               (strings_Split ''alice,abc'' '','')))
         (lookupList (recordedMetrics ?st) (receivedField False))"
    by (simp add: registry_defs v4_defs isClientRowV4_def isTitleV4_def demoLib_def
          demoParseFloat_def digitVal_def Let_def)
  note r = failure_aborts_scan[OF l, where e = ?e and statusPath = "''p''"
      and ?st4.0 = ?st and header = "clientListHeader False"
      and metric = "receivedField False" and cv = "''abc''",
      THEN conjunct2, THEN conjunct2, THEN conjunct2, THEN conjunct2, THEN conjunct2, THEN conjunct2, THEN conjunct2, THEN conjunct2, THEN conjunct2, THEN conjunct1, THEN mp, OF h]
  from r
  obtain s :: "real scan_state_v4" and v' where
    "collectServerStatusFromReaderV4 demoLib ?e ''p''
       (unlines [''OpenVPN CLIENT LIST'', ''Common Name,Bytes Received'', ''alice,abc'', ''END'']) =
       (ch s, Some (NumError v'))"
    "ParseFloat demoLib v' = None"
    by blast
  then show "\<exists>v'. snd (collectServerStatusFromReaderV4 demoLib ?e ''p''
       (unlines [''OpenVPN CLIENT LIST'', ''Common Name,Bytes Received'', ''alice,abc'', ''END''])) =
        Some (NumError v') \<and> ParseFloat demoLib v' = None"
    by auto
next
  let ?e = "NewOpenVPNExporter [''p''] False"
  let ?body = "serverLineV4 demoLib ?e ''p''"
  let ?pre = "[''ROUTING TABLE'', ''Virtual Address,Common Name,Last Ref (time_t)'']"
  let ?st = "stateOf (forScan ?body initStateV4 ?pre)"
  have l: "ScanLines demoLib (unlines [''ROUTING TABLE'', ''Virtual Address,Common Name,Last Ref (time_t)'',
              ''10.8.0.2,alice,soon'', ''END'']) = (?pre @ ''10.8.0.2,alice,soon'' # [''END''], None)"
    by (simp add: demo_defs strings_Split_def)
  have h: "forScan ?body initStateV4 ?pre = Next ?st \<and>
     currentSection ?st = ''ROUTING_TABLE'' \<and> isRoutingRowV4 ''10.8.0.2,alice,soon'' \<and>
     openvpnServerHeaders ?e ''ROUTING_TABLE'' = Some (routingTableHeader False) \<and>
     lastRefField False \<in> set (Metrics (routingTableHeader False)) \<and>
     columnValuesV4 (lookupList (headersFound ?st) ''ROUTING_TABLE'')
       (strings_Split ''10.8.0.2,alice,soon'' '','') (Column (lastRefField False)) = Some ''soon'' \<and>
     ParseFloat demoLib ''soon'' = None \<and>
     \<not> subslice
         (extractLabels ''p'' (LabelColumns (routingTableHeader False))
            (columnValuesV4 (lookupList (headersFound ?st) ''ROUTING_TABLE'')
               (strings_Split ''10.8.0.2,alice,soon'' '','')))
         (lookupList (recordedMetrics ?st) (lastRefField False))"
    by (simp add: registry_defs v4_defs isRoutingRowV4_def isTitleV4_def demoLib_def
          demoParseFloat_def digitVal_def Let_def)
  note r = failure_aborts_scan[OF l, where e = ?e and statusPath = "''p''"
      and ?st4.0 = ?st and header = "routingTableHeader False"
      and metric = "lastRefField False" and cv = "''soon''",
      THEN conjunct2, THEN conjunct2, THEN conjunct2, THEN conjunct2, THEN conjunct2, THEN conjunct2, THEN conjunct2, THEN conjunct2, THEN conjunct2, THEN conjunct2, THEN mp, OF h]
  from r
  obtain s :: "real scan_state_v4" and v' where
    "collectServerStatusFromReaderV4 demoLib ?e ''p''
       (unlines [''ROUTING TABLE'', ''Virtual Address,Common Name,Last Ref (time_t)'',
              ''10.8.0.2,alice,soon'', ''END'']) = (ch s, Some (NumError v'))"
    "ParseFloat demoLib v' = None"
    by blast
  then show "\<exists>v'. snd (collectServerStatusFromReaderV4 demoLib ?e ''p''
       (unlines [''ROUTING TABLE'', ''Virtual Address,Common Name,Last Ref (time_t)'',
              ''10.8.0.2,alice,soon'', ''END''])) =
        Some (NumError v') \<and> ParseFloat demoLib v' = None"
    by auto
qed

end
